(* ===== verification/Prelude.thy ===== *)
theory Prelude
  imports Main
begin

text \<open>
  The shared vocabulary of the development: Go panics and error values, computations that
  call code outside the repository, and the rules by which their traces are reasoned about.

  A computation is given an environment (the answers of the code it calls) and the history
  of calls made before it; it returns an outcome and the list of the calls it made itself,
  in order, each with its answer. The answer to a call may depend on the whole history, so
  one environment can be any stateful service. Logging (klog) is left out.
\<close>

named_theorems trace_rules \<open>introduction rules for facts about every event of a computation\<close>
named_theorems run_simps \<open>running a computation: outcome and events\<close>
named_theorems go_defs \<open>definitions of the Go control constructs\<close>

section \<open>Outcomes, error values and results\<close>

datatype 'a outcome = Done 'a | Panic string

text \<open>
  Error values. A message is cut to a label of its format string, and the errors it quotes
  with a percent-v verb are kept as a list: quoting is not wrapping, so
  \<open>errors.Is\<close> does not see them. An error made by code outside the repository carries its
  text and whether it wraps govcd's entity-not-found error.
\<close>

datatype code = InvalidArgument | NotFound | FailedPrecondition | Internal | Unimplemented

datatype goerr =
    ErrorEntityNotFound
  | ApiError string bool
  | Errorf string "goerr list"
  | StatusError code string "goerr list"
  | NoRDEError string

type_synonym 'a res = "goerr + 'a"

definition errors_Is_NotFound :: "goerr \<Rightarrow> bool" where
  "errors_Is_NotFound e = (case e of ErrorEntityNotFound \<Rightarrow> True | ApiError _ w \<Rightarrow> w | _ \<Rightarrow> False)"

lemma errors_Is_NotFound_simps [simp]:
  "errors_Is_NotFound ErrorEntityNotFound"
  "errors_Is_NotFound (ApiError m w) = w"
  "\<not> errors_Is_NotFound (Errorf s es)"
  "\<not> errors_Is_NotFound (StatusError c s es)"
  "\<not> errors_Is_NotFound (NoRDEError s)"
  by (simp_all add: errors_Is_NotFound_def)

definition error_text :: "goerr \<Rightarrow> string" where
  "error_text e = (case e of
     ErrorEntityNotFound \<Rightarrow> ''[ENF] entity not found''
   | ApiError m _ \<Rightarrow> m
   | Errorf m _ \<Rightarrow> m
   | StatusError _ m _ \<Rightarrow> m
   | NoRDEError m \<Rightarrow> m)"

section \<open>Computations\<close>

type_synonym ('env, 'ev, 'a) io = "'env \<Rightarrow> 'ev list \<Rightarrow> 'a outcome \<times> 'ev list"

definition ret :: "'a \<Rightarrow> ('env, 'ev, 'a) io" where
  "ret x = (\<lambda>env h. (Done x, []))"

definition panic :: "string \<Rightarrow> ('env, 'ev, 'a) io" where
  "panic s = (\<lambda>env h. (Panic s, []))"

definition bind :: "('env, 'ev, 'a) io \<Rightarrow> ('a \<Rightarrow> ('env, 'ev, 'b) io) \<Rightarrow> ('env, 'ev, 'b) io" where
  "bind m k = (\<lambda>env h. case m env h of
     (Done x, es) \<Rightarrow> (case k x env (h @ es) of (r, es') \<Rightarrow> (r, es @ es'))
   | (Panic s, es) \<Rightarrow> (Panic s, es))"

text \<open>A call answered by the environment: \<open>ask\<close> gives the answer, \<open>ev\<close> the event.\<close>

definition call :: "('env \<Rightarrow> 'ev list \<Rightarrow> 'r) \<Rightarrow> ('r \<Rightarrow> 'ev) \<Rightarrow> ('env, 'ev, 'r) io" where
  "call ask ev = (\<lambda>env h. let r = ask env h in (Done r, [ev r]))"

text \<open>A choice of the environment that leaves no event (the order of a range over a map).\<close>

definition pick :: "('env \<Rightarrow> 'ev list \<Rightarrow> 'r) \<Rightarrow> ('env, 'ev, 'r) io" where
  "pick ask = (\<lambda>env h. (Done (ask env h), []))"

text \<open>Go's error-checked call: \<open>x, err := m(); if err != nil { onerr } ; k x\<close>.\<close>

definition attempt :: "('env, 'ev, 'a res) io \<Rightarrow> (goerr \<Rightarrow> ('env, 'ev, 'b) io) \<Rightarrow>
    ('a \<Rightarrow> ('env, 'ev, 'b) io) \<Rightarrow> ('env, 'ev, 'b) io" where
  "attempt m onerr k = bind m (\<lambda>r. case r of Inl e \<Rightarrow> onerr e | Inr x \<Rightarrow> k x)"

text \<open>A call whose error is only logged.\<close>

definition ignore :: "('env, 'ev, 'a) io \<Rightarrow> ('env, 'ev, 'b) io \<Rightarrow> ('env, 'ev, 'b) io" where
  "ignore m k = bind m (\<lambda>_. k)"

text \<open>\<open>defer d; m\<close>: the deferred call runs after \<open>m\<close>, also when \<open>m\<close> panics.\<close>

definition deferred :: "('env, 'ev, unit) io \<Rightarrow> ('env, 'ev, 'a) io \<Rightarrow> ('env, 'ev, 'a) io" where
  "deferred d m = (\<lambda>env h. case m env h of (r, es) \<Rightarrow>
     (case d env (h @ es) of
        (Done _, es') \<Rightarrow> (r, es @ es')
      | (Panic s, es') \<Rightarrow> (Panic s, es @ es')))"

abbreviation fail :: "goerr \<Rightarrow> ('env, 'ev, 'a res) io" where
  "fail e \<equiv> ret (Inl e)"

abbreviation ok :: "'a \<Rightarrow> ('env, 'ev, 'a res) io" where
  "ok x \<equiv> ret (Inr x)"

declare ret_def [go_defs] panic_def [go_defs] bind_def [go_defs] call_def [go_defs]
  pick_def [go_defs] attempt_def [go_defs] ignore_def [go_defs] deferred_def [go_defs]

lemma ret_apply [run_simps]: "ret x env h = (Done x, [])"
  by (simp add: ret_def)

lemma panic_apply [run_simps]: "panic s env h = (Panic s, [])"
  by (simp add: panic_def)

lemma call_apply [run_simps]: "call ask ev env h = (Done (ask env h), [ev (ask env h)])"
  by (simp add: call_def Let_def)

lemma pick_apply [run_simps]: "pick ask env h = (Done (ask env h), [])"
  by (simp add: pick_def)

lemma bind_ret [simp]: "bind (ret x) k = k x"
  by (rule ext)+ (simp add: bind_def run_simps)

lemma bind_panic [simp]: "bind (panic s) k = panic s"
  by (rule ext)+ (simp add: bind_def panic_def)

lemma bind_assoc: "bind (bind m f) g = bind m (\<lambda>x. bind (f x) g)"
  by (rule ext)+ (auto simp: bind_def split: prod.splits outcome.splits)

lemma bind_ret_right [simp]: "bind m ret = m"
  by (rule ext)+ (auto simp: bind_def run_simps split: prod.splits outcome.splits)

lemma bind_apply [run_simps]:
  "bind m k env h = (case m env h of
     (Done x, es) \<Rightarrow> (case k x env (h @ es) of (r, es') \<Rightarrow> (r, es @ es'))
   | (Panic s, es) \<Rightarrow> (Panic s, es))"
  by (simp add: bind_def)

lemma attempt_apply [run_simps]:
  "attempt m onerr k env h = bind m (\<lambda>r. case r of Inl e \<Rightarrow> onerr e | Inr x \<Rightarrow> k x) env h"
  by (simp add: attempt_def)

lemma ignore_apply [run_simps]: "ignore m k env h = bind m (\<lambda>_. k) env h"
  by (simp add: ignore_def)

lemma deferred_apply [run_simps]:
  "deferred d m env h = (case m env h of (r, es) \<Rightarrow>
     (case d env (h @ es) of
        (Done _, es') \<Rightarrow> (r, es @ es')
      | (Panic s, es') \<Rightarrow> (Panic s, es @ es')))"
  by (simp add: deferred_def)

section \<open>Bounded retry loops\<close>

text \<open>
  \<open>for i := 0; i < n; i++ { body }; return final\<close>, where the body either returns a value
  (\<open>Some\<close>) or continues with the next attempt (\<open>None\<close>).
\<close>

primrec retry :: "nat \<Rightarrow> ('env, 'ev, 'a option) io \<Rightarrow> 'a \<Rightarrow> ('env, 'ev, 'a) io" where
  "retry 0 body final = ret final"
| "retry (Suc n) body final =
     bind body (\<lambda>o'. case o' of Some r \<Rightarrow> ret r | None \<Rightarrow> retry n body final)"

section \<open>Weakest preconditions\<close>

text \<open>
  \<open>sat m env h Q\<close>: run from history \<open>h\<close>, \<open>m\<close> ends in an outcome and a list of events that
  satisfy \<open>Q\<close>. One equation per construct, as for the commands of a Hoare logic.
\<close>

definition sat :: "('env, 'ev, 'a) io \<Rightarrow> 'env \<Rightarrow> 'ev list \<Rightarrow>
    ('a outcome \<Rightarrow> 'ev list \<Rightarrow> bool) \<Rightarrow> bool" where
  "sat m env h Q = (case m env h of (r, es) \<Rightarrow> Q r es)"

named_theorems wp \<open>weakest-precondition equations\<close>

lemma sat_ret [wp]: "sat (ret x) env h Q = Q (Done x) []"
  by (simp add: sat_def run_simps)

lemma sat_panic [wp]: "sat (panic s) env h Q = Q (Panic s) []"
  by (simp add: sat_def run_simps)

lemma sat_call [wp]: "sat (call ask ev) env h Q = Q (Done (ask env h)) [ev (ask env h)]"
  by (simp add: sat_def run_simps)

lemma sat_pick [wp]: "sat (pick ask) env h Q = Q (Done (ask env h)) []"
  by (simp add: sat_def run_simps)

lemma sat_bind [wp]:
  "sat (bind m k) env h Q = sat m env h (\<lambda>r es. case r of
     Done x \<Rightarrow> sat (k x) env (h @ es) (\<lambda>r' es'. Q r' (es @ es'))
   | Panic s \<Rightarrow> Q (Panic s) es)"
  by (auto simp: sat_def bind_def split: prod.splits outcome.splits)

lemma sat_attempt [wp]:
  "sat (attempt m onerr k) env h Q = sat m env h (\<lambda>r es. case r of
     Done (Inl e) \<Rightarrow> sat (onerr e) env (h @ es) (\<lambda>r' es'. Q r' (es @ es'))
   | Done (Inr x) \<Rightarrow> sat (k x) env (h @ es) (\<lambda>r' es'. Q r' (es @ es'))
   | Panic s \<Rightarrow> Q (Panic s) es)"
  by (auto simp: attempt_def bind_def sat_def split: prod.splits outcome.splits sum.splits)

lemma sat_ignore [wp]:
  "sat (ignore m k) env h Q = sat m env h (\<lambda>r es. case r of
     Done x \<Rightarrow> sat k env (h @ es) (\<lambda>r' es'. Q r' (es @ es'))
   | Panic s \<Rightarrow> Q (Panic s) es)"
  by (simp add: ignore_def sat_bind)

lemma sat_deferred [wp]:
  "sat (deferred d m) env h Q = sat m env h (\<lambda>r es. sat d env (h @ es)
     (\<lambda>r' es'. case r' of Done _ \<Rightarrow> Q r (es @ es') | Panic s \<Rightarrow> Q (Panic s) (es @ es')))"
  by (auto simp: sat_def deferred_def split: prod.splits outcome.splits)

lemma sat_if [wp]:
  "sat (if b then m else m') env h Q = ((b \<longrightarrow> sat m env h Q) \<and> (\<not> b \<longrightarrow> sat m' env h Q))"
  by simp

lemma sat_mono:
  assumes "sat m env h Q" and "\<And>r es. Q r es \<Longrightarrow> Q' r es"
  shows "sat m env h Q'"
  using assms by (auto simp: sat_def split: prod.splits)

lemma sat_conj: "sat m env h (\<lambda>r es. P r es \<and> Q r es) = (sat m env h P \<and> sat m env h Q)"
  by (auto simp: sat_def split: prod.splits)

lemma sat_iff: "sat m env h Q = Q (fst (m env h)) (snd (m env h))"
  by (simp add: sat_def split: prod.splits)

lemma sat_True: "sat m env h (\<lambda>r es. True)"
  by (simp add: sat_iff)

lemma sat_pair: "m env h = (r, es) \<Longrightarrow> sat m env h Q = Q r es"
  by (simp add: sat_def)

lemma sat_exact: "sat m env h (\<lambda>r es. r = a \<and> es = b) \<Longrightarrow> m env h = (a, b)"
  by (simp add: sat_iff prod_eq_iff)

lemma sat_run: "sat m env h (\<lambda>r es. m env h = (r, es))"
  by (simp add: sat_def)

lemma ret_inject [simp]: "ret x = ret y \<longleftrightarrow> x = y"
  by (auto simp: ret_def dest: fun_cong)

text \<open>A statement about the runs that return without an error: their events and result.\<close>

abbreviation only_succeeds :: "('a res outcome \<Rightarrow> 'ev list \<Rightarrow> 'a \<Rightarrow> bool) \<Rightarrow>
    'a res outcome \<Rightarrow> 'ev list \<Rightarrow> bool" where
  "only_succeeds P r es \<equiv> (case r of Done (Inr x) \<Rightarrow> P r es x | _ \<Rightarrow> True)"

lemma only_succeedsI: "(\<And>x. r = Done (Inr x) \<Longrightarrow> P r es x) \<Longrightarrow> only_succeeds P r es"
  by (auto split: outcome.splits sum.splits)

text \<open>One call after another that has succeeded.\<close>

lemma attempt_succeeds:
  assumes "sat m env h (only_succeeds (\<lambda>r es x. P x es))"
    and "\<And>x es. P x es \<Longrightarrow> sat (k x) env (h @ es) (only_succeeds (\<lambda>r es' y. Q y (es @ es')))"
  shows "sat (attempt m (\<lambda>e. fail e) k) env h (only_succeeds (\<lambda>r es y. Q y es))"
  unfolding sat_attempt sat_ret
proof (rule sat_mono [OF assms(1)], goal_cases)
  case (1 r es)
  show ?case
  proof (cases r)
    case (Done a)
    then show ?thesis using 1 assms(2) [of _ es] by (cases a) simp_all
  qed simp
qed

text \<open>A statement about the errors that a computation can return.\<close>

definition errors_are :: "(goerr \<Rightarrow> bool) \<Rightarrow> ('env, 'ev, 'a res) io \<Rightarrow> bool" where
  "errors_are P m \<longleftrightarrow> (\<forall>env h. sat m env h (\<lambda>r es. \<forall>e. r = Done (Inl e) \<longrightarrow> P e))"

lemma errors_areD: "errors_are P m \<Longrightarrow> sat m env h (\<lambda>r es. \<forall>e. r = Done (Inl e) \<longrightarrow> P e)"
  by (simp add: errors_are_def)

lemma errors_are_mono:
  assumes "errors_are P m" and "\<And>e. P e \<Longrightarrow> P' e"
  shows "errors_are P' m"
  unfolding errors_are_def
proof (intro allI)
  show "sat m env h (\<lambda>r es. \<forall>e. r = Done (Inl e) \<longrightarrow> P' e)" for env h
    by (rule sat_mono [OF errors_areD [OF assms(1)]]) (use assms(2) in blast)
qed

lemma errors_rules:
  "errors_are P (ok x)" "P e \<Longrightarrow> errors_are P (fail e)" "errors_are P (panic p)"
  "(\<And>e. errors_are P (f e)) \<Longrightarrow> (\<And>x. errors_are P (k x)) \<Longrightarrow> errors_are P (attempt m f k)"
  "errors_are P k' \<Longrightarrow> errors_are P (ignore m' k')" "(\<And>x. errors_are P (g' x)) \<Longrightarrow> errors_are P (bind m'' g')"
  "(b \<Longrightarrow> errors_are P m1) \<Longrightarrow> (\<not> b \<Longrightarrow> errors_are P m2) \<Longrightarrow> errors_are P (if b then m1 else m2)"
  "(z = None \<Longrightarrow> errors_are P m1) \<Longrightarrow> (\<And>y. z = Some y \<Longrightarrow> errors_are P (g y)) \<Longrightarrow>
    errors_are P (case z of None \<Rightarrow> m1 | Some y \<Rightarrow> g y)"
  unfolding errors_are_def sat_attempt sat_ignore sat_bind
  by (auto simp: wp split: outcome.split sum.split option.split intro!: sat_mono [OF sat_True])

lemma errors_of_attempt:
  assumes "errors_are Q m" and "\<And>e. Q e \<Longrightarrow> errors_are P (f e)" and "\<And>x. errors_are P (k x)"
  shows "errors_are P (attempt m f k)"
  unfolding errors_are_def sat_attempt
proof (intro allI sat_mono [OF errors_areD [OF assms(1)]], goal_cases)
  case (1 env h r es)
  then show ?case
    using assms(2,3) by (auto simp: errors_are_def split: outcome.split sum.split intro: sat_mono)
qed

text \<open>Sets with at most one element, as an invariant of a history.\<close>

definition at_most_one :: "'a set \<Rightarrow> bool" where
  "at_most_one X \<longleftrightarrow> (\<forall>a\<in>X. \<forall>b\<in>X. a = b)"

lemma at_most_one_mono: "X \<subseteq> Y \<Longrightarrow> at_most_one Y \<Longrightarrow> at_most_one X"
  unfolding at_most_one_def by blast

section \<open>Facts about every event\<close>

definition emits :: "('ev \<Rightarrow> bool) \<Rightarrow> ('env, 'ev, 'a) io \<Rightarrow> bool" where
  "emits P m \<longleftrightarrow> (\<forall>env h. list_all P (snd (m env h)))"

lemma emits_sat: "emits P m \<longleftrightarrow> (\<forall>env h. sat m env h (\<lambda>r es. list_all P es))"
  by (simp add: emits_def sat_iff)

lemma emitsD: "emits P m \<Longrightarrow> e \<in> set (snd (m env h)) \<Longrightarrow> P e"
  by (auto simp: emits_def list_all_iff)

lemma emits_mono: "emits P m \<Longrightarrow> (\<And>e. P e \<Longrightarrow> P' e) \<Longrightarrow> emits P' m"
  by (auto simp: emits_def list_all_iff)

lemma emits_ret [trace_rules, simp]: "emits P (ret x)"
  by (simp add: emits_def run_simps)

lemma emits_panic [trace_rules, simp]: "emits P (panic s)"
  by (simp add: emits_def run_simps)

lemma emits_pick [trace_rules]: "emits P (pick ask)"
  by (simp add: emits_def run_simps)

lemma emits_call [trace_rules]: "(\<And>r. P (ev r)) \<Longrightarrow> emits P (call ask ev)"
  by (simp add: emits_def run_simps)

lemma emits_bind [trace_rules]:
  "emits P m \<Longrightarrow> (\<And>x. emits P (k x)) \<Longrightarrow> emits P (bind m k)"
  unfolding emits_def bind_def by (auto split: prod.splits outcome.splits) (metis snd_conv)+

lemma emits_attempt [trace_rules]:
  "emits P m \<Longrightarrow> (\<And>e. emits P (onerr e)) \<Longrightarrow> (\<And>x. emits P (k x)) \<Longrightarrow> emits P (attempt m onerr k)"
  unfolding attempt_def by (intro emits_bind) (auto split: sum.splits)

lemma emits_ignore [trace_rules]: "emits P m \<Longrightarrow> emits P k \<Longrightarrow> emits P (ignore m k)"
  unfolding ignore_def by (intro emits_bind)

lemma emits_deferred [trace_rules]: "emits P d \<Longrightarrow> emits P m \<Longrightarrow> emits P (deferred d m)"
  unfolding emits_def deferred_def by (auto split: prod.splits outcome.splits) (metis snd_conv)+

lemma emits_if [trace_rules]:
  "(b \<Longrightarrow> emits P m) \<Longrightarrow> (\<not> b \<Longrightarrow> emits P m') \<Longrightarrow> emits P (if b then m else m')"
  by simp

lemma emits_let [trace_rules]: "emits P (f x) \<Longrightarrow> emits P (let y = x in f y)"
  by simp

lemma emits_case_option [trace_rules]:
  "(x = None \<Longrightarrow> emits P m) \<Longrightarrow> (\<And>y. x = Some y \<Longrightarrow> emits P (k y)) \<Longrightarrow>
   emits P (case x of None \<Rightarrow> m | Some y \<Rightarrow> k y)"
  by (cases x) auto

lemma emits_case_sum [trace_rules]:
  "(\<And>y. x = Inl y \<Longrightarrow> emits P (f y)) \<Longrightarrow> (\<And>y. x = Inr y \<Longrightarrow> emits P (g y)) \<Longrightarrow>
   emits P (case x of Inl y \<Rightarrow> f y | Inr y \<Rightarrow> g y)"
  by (cases x) auto

lemma emits_case_list [trace_rules]:
  "(x = [] \<Longrightarrow> emits P m) \<Longrightarrow> (\<And>y ys. x = y # ys \<Longrightarrow> emits P (k y ys)) \<Longrightarrow>
   emits P (case x of [] \<Rightarrow> m | y # ys \<Rightarrow> k y ys)"
  by (cases x) auto

lemma emits_case_prod [trace_rules]:
  "(\<And>a b. x = (a, b) \<Longrightarrow> emits P (f a b)) \<Longrightarrow> emits P (case x of (a, b) \<Rightarrow> f a b)"
  by (cases x) auto

lemma emits_retry [trace_rules]: "emits P body \<Longrightarrow> emits P (retry n body final)"
  by (induction n) (auto intro!: trace_rules)

lemma emits_rule:
  assumes "emits P m" and "\<And>r es. list_all P es \<Longrightarrow> Q r es"
  shows "sat m env h Q"
  using assms by (simp add: sat_iff emits_def)

section \<open>Guards: what must come before an event\<close>

text \<open>\<open>guard_ok G pre es\<close>: each event of \<open>es\<close> satisfies \<open>G\<close> with the events before it.\<close>

fun guard_ok :: "('ev list \<Rightarrow> 'ev \<Rightarrow> bool) \<Rightarrow> 'ev list \<Rightarrow> 'ev list \<Rightarrow> bool" where
  "guard_ok G pre [] = True"
| "guard_ok G pre (e # es) = (G pre e \<and> guard_ok G (pre @ [e]) es)"

lemma guard_ok_append [simp]:
  "guard_ok G pre (xs @ ys) = (guard_ok G pre xs \<and> guard_ok G (pre @ xs) ys)"
  by (induction xs arbitrary: pre) auto

lemma guard_ok_all: "(\<And>p e. e \<in> set es \<Longrightarrow> G p e) \<Longrightarrow> guard_ok G pre es"
  by (induction es arbitrary: pre) auto

lemma guard_ok_split:
  "guard_ok G pre es = (\<forall>xs e ys. es = xs @ e # ys \<longrightarrow> G (pre @ xs) e)"
proof (induction es arbitrary: pre)
  case Nil
  then show ?case by simp
next
  case (Cons a es)
  show ?case
  proof
    assume "guard_ok G pre (a # es)"
    then show "\<forall>xs e ys. a # es = xs @ e # ys \<longrightarrow> G (pre @ xs) e"
      using Cons.IH [of "pre @ [a]"] by (auto simp: Cons_eq_append_conv)
  next
    assume *: "\<forall>xs e ys. a # es = xs @ e # ys \<longrightarrow> G (pre @ xs) e"
    have "G pre a" using * by force
    moreover have "\<forall>xs e ys. es = xs @ e # ys \<longrightarrow> G ((pre @ [a]) @ xs) e"
      using * by (metis append.assoc append_Cons append_Nil)
    ultimately show "guard_ok G pre (a # es)" using Cons.IH [of "pre @ [a]"] by simp
  qed
qed

text \<open>
  A resource that grows only when it was empty, and then by at most one owner, has at most
  one owner throughout: \<open>A\<close> gives the owners after a history, and an event adds at most
  \<open>gained\<close>, which is nothing unless the resource is free before it.
\<close>

lemma ledger_exclusive:
  assumes "guard_ok G [] es" and "at_most_one (A [])"
    and "\<And>pre e. guard_ok G [] pre \<Longrightarrow> G pre e \<Longrightarrow> A (pre @ [e]) \<subseteq> A pre \<union> gained e"
    and "\<And>pre e. guard_ok G [] pre \<Longrightarrow> G pre e \<Longrightarrow> gained e \<noteq> {} \<Longrightarrow> A pre = {}"
    and "\<And>e. at_most_one (gained e)"
  shows "at_most_one (A es)"
  using assms(1)
proof (induction es rule: rev_induct)
  case Nil
  show ?case by (rule assms(2))
next
  case (snoc e es)
  then have prev: "guard_ok G [] es" "G es e" by simp_all
  have "A (es @ [e]) \<subseteq> A es \<or> A (es @ [e]) \<subseteq> gained e"
    using assms(3) [OF prev] assms(4) [OF prev] by blast
  then show ?case
    using snoc.IH [OF prev(1)] assms(5) [of e] by (blast intro: at_most_one_mono)
qed

text \<open>Computations all of whose events satisfy \<open>G\<close>, whatever happened before them.\<close>

definition keeps :: "('ev list \<Rightarrow> 'ev \<Rightarrow> bool) \<Rightarrow> ('env, 'ev, 'a) io \<Rightarrow> bool" where
  "keeps G m \<longleftrightarrow> (\<forall>env h. sat m env h (\<lambda>r es. guard_ok G h es))"

named_theorems keeps_rules \<open>introduction rules for guards\<close>

lemma keepsD: "keeps G m \<Longrightarrow> sat m env h (\<lambda>r es. guard_ok G h es)"
  by (simp add: keeps_def)

lemma keeps_emits: "emits P m \<Longrightarrow> (\<And>pre e. P e \<Longrightarrow> G pre e) \<Longrightarrow> keeps G m"
  by (auto simp: keeps_def intro!: emits_rule guard_ok_all simp: list_all_iff)

lemma keeps_ret [keeps_rules, simp]: "keeps G (ret x)"
  by (simp add: keeps_def wp)

lemma keeps_panic [keeps_rules, simp]: "keeps G (panic s)"
  by (simp add: keeps_def wp)

lemma keeps_call [keeps_rules]: "(\<And>r pre. G pre (ev r)) \<Longrightarrow> keeps G (call ask ev)"
  by (simp add: keeps_def wp)

lemma keeps_bind [keeps_rules]: "keeps G m \<Longrightarrow> (\<And>x. keeps G (k x)) \<Longrightarrow> keeps G (bind m k)"
  unfolding keeps_def sat_bind
  by (rule allI, rule allI, rule sat_mono, blast)
    (auto split: outcome.splits intro: sat_mono)

lemma keeps_attempt [keeps_rules]:
  "keeps G m \<Longrightarrow> (\<And>e. keeps G (f e)) \<Longrightarrow> (\<And>x. keeps G (k x)) \<Longrightarrow> keeps G (attempt m f k)"
  unfolding attempt_def by (intro keeps_bind) (auto split: sum.splits)

lemma keeps_ignore [keeps_rules]: "keeps G m \<Longrightarrow> keeps G k \<Longrightarrow> keeps G (ignore m k)"
  unfolding ignore_def by (intro keeps_bind)

lemma keeps_if [keeps_rules]:
  "(b \<Longrightarrow> keeps G m) \<Longrightarrow> (\<not> b \<Longrightarrow> keeps G m') \<Longrightarrow> keeps G (if b then m else m')"
  by simp

lemma keeps_case_option [keeps_rules]:
  "(x = None \<Longrightarrow> keeps G m) \<Longrightarrow> (\<And>y. x = Some y \<Longrightarrow> keeps G (k y)) \<Longrightarrow>
   keeps G (case x of None \<Rightarrow> m | Some y \<Rightarrow> k y)"
  by (cases x) auto

lemma keeps_case_sum [keeps_rules]:
  "(\<And>y. x = Inl y \<Longrightarrow> keeps G (f y)) \<Longrightarrow> (\<And>y. x = Inr y \<Longrightarrow> keeps G (g y)) \<Longrightarrow>
   keeps G (case x of Inl y \<Rightarrow> f y | Inr y \<Rightarrow> g y)"
  by (cases x) auto

lemma keeps_case_prod [keeps_rules]:
  "(\<And>a b. x = (a, b) \<Longrightarrow> keeps G (f a b)) \<Longrightarrow> keeps G (case x of (a, b) \<Rightarrow> f a b)"
  by (cases x) auto

lemma keeps_let [keeps_rules]: "keeps G (f x) \<Longrightarrow> keeps G (let y = x in f y)"
  by simp

section \<open>Lists and maps\<close>

lemma find_Some_split:
  "List.find P xs = Some x \<Longrightarrow> x \<in> set xs \<and> P x"
  by (induction xs) (auto split: if_splits)

lemma filter_single_find: "filter P xs = [x] \<Longrightarrow> List.find P xs = Some x"
  by (induction xs) (auto split: if_splits)

end
