(* ===== verification/GoStrings.thy ===== *)
theory GoStrings
  imports Prelude
begin

text \<open>
  The functions of Go's \<open>strings\<close> package and the regular expressions that the driver
  uses, on strings as lists of bytes: Split, Contains, HasPrefix, TrimRight, TrimSuffix,
  TrimSpace, ReplaceAll of one byte by nothing, ToLower, and the two patterns
  (a UUID in lower-case hexadecimal, \<open>^host[0-9]+\<close>).
\<close>

section \<open>Splitting\<close>

text \<open>\<open>strings.Split(s, sep)\<close> for a separator of one byte; the empty string has one part.\<close>

fun split_on :: "char \<Rightarrow> string \<Rightarrow> string list" where
  "split_on c [] = [[]]"
| "split_on c (x # xs) =
     (if x = c then [] # split_on c xs
      else (case split_on c xs of [] \<Rightarrow> [[x]] | p # ps \<Rightarrow> (x # p) # ps))"

fun join_with :: "char \<Rightarrow> string list \<Rightarrow> string" where
  "join_with c [] = []"
| "join_with c [p] = p"
| "join_with c (p # q # ps) = p @ c # join_with c (q # ps)"

lemma split_on_not_Nil [simp]: "split_on c s \<noteq> []"
  by (induction s) (auto split: list.splits)

lemma join_with_Cons: "ps \<noteq> [] \<Longrightarrow> join_with c (p # ps) = p @ c # join_with c ps"
  by (cases ps) auto

lemma join_split [simp]: "join_with c (split_on c s) = s"
proof (induction s)
  case Nil
  then show ?case by simp
next
  case (Cons x s)
  obtain p ps where ps: "split_on c s = p # ps"
    by (meson list.exhaust split_on_not_Nil)
  with Cons.IH have "join_with c (p # ps) = s" by simp
  then show ?case using ps by (cases ps) auto
qed

lemma split_on_no_sep: "p \<in> set (split_on c s) \<Longrightarrow> c \<notin> set p"
proof (induction s arbitrary: p)
  case Nil
  then show ?case by simp
next
  case (Cons x s)
  obtain q qs where qs: "split_on c s = q # qs"
    by (meson list.exhaust split_on_not_Nil)
  show ?case using Cons qs by (auto split: if_splits)
qed

lemma split_on_single: "c \<notin> set s \<Longrightarrow> split_on c s = [s]"
  by (induction s) auto

lemma split_on_append: "c \<notin> set p \<Longrightarrow> split_on c (p @ c # s) = p # split_on c s"
  by (induction p) auto

lemma split_join:
  "ps \<noteq> [] \<Longrightarrow> (\<forall>p\<in>set ps. c \<notin> set p) \<Longrightarrow> split_on c (join_with c ps) = ps"
  by (induction c ps rule: join_with.induct) (auto simp: split_on_single split_on_append)

lemma length_split_on: "length (split_on c s) = Suc (count_list s c)"
proof (induction s)
  case Nil
  then show ?case by simp
next
  case (Cons x s)
  obtain q qs where qs: "split_on c s = q # qs"
    by (meson list.exhaust split_on_not_Nil)
  show ?case using Cons qs by auto
qed

section \<open>Searching and trimming\<close>

fun has_prefix :: "string \<Rightarrow> string \<Rightarrow> bool" where
  "has_prefix s [] = True"
| "has_prefix [] (p # ps) = False"
| "has_prefix (x # xs) (p # ps) = (x = p \<and> has_prefix xs ps)"

lemma has_prefix_iff: "has_prefix s p \<longleftrightarrow> (\<exists>t. s = p @ t)"
  by (induction s p rule: has_prefix.induct) auto

fun contains :: "string \<Rightarrow> string \<Rightarrow> bool" where
  "contains [] sub = (sub = [])"
| "contains (x # xs) sub = (has_prefix (x # xs) sub \<or> contains xs sub)"

lemma contains_iff: "contains s sub \<longleftrightarrow> (\<exists>a b. s = a @ sub @ b)"
proof (induction s)
  case Nil
  then show ?case by auto
next
  case (Cons x xs)
  show ?case
  proof
    assume "contains (x # xs) sub"
    then consider "has_prefix (x # xs) sub" | "contains xs sub" by auto
    then show "\<exists>a b. x # xs = a @ sub @ b"
    proof cases
      case 1
      then show ?thesis by (metis append_Nil has_prefix_iff)
    next
      case 2
      then show ?thesis using Cons.IH by (metis append_Cons)
    qed
  next
    assume "\<exists>a b. x # xs = a @ sub @ b"
    then obtain a b where ab: "x # xs = a @ sub @ b" by blast
    show "contains (x # xs) sub"
    proof (cases a)
      case Nil
      with ab have "has_prefix (x # xs) sub" by (auto simp: has_prefix_iff)
      then show ?thesis by simp
    next
      case (Cons y ys)
      with ab have "xs = ys @ sub @ b" by simp
      then show ?thesis using Cons.IH by auto
    qed
  qed
qed

definition trim_right :: "char \<Rightarrow> string \<Rightarrow> string" where
  "trim_right c s = rev (dropWhile (\<lambda>x. x = c) (rev s))"

definition trim_suffix_char :: "char \<Rightarrow> string \<Rightarrow> string" where
  "trim_suffix_char c s = (if s \<noteq> [] \<and> last s = c then butlast s else s)"

lemma trim_right_last: "trim_right c s \<noteq> [] \<Longrightarrow> last (trim_right c s) \<noteq> c"
  using hd_dropWhile [of "\<lambda>x. x = c" "rev s"] by (auto simp: trim_right_def last_rev)

lemma trim_right_decomp: "\<exists>n. s = trim_right c s @ replicate n c"
proof -
  let ?w = "takeWhile (\<lambda>x. x = c) (rev s)"
  have s: "s = trim_right c s @ rev ?w"
    unfolding trim_right_def rev_append [symmetric] takeWhile_dropWhile_id by simp
  have "?w = replicate (length ?w) c"
    by (rule sym, rule replicate_length_same) (auto dest: set_takeWhileD)
  then have "rev ?w = replicate (length ?w) c"
    by (metis rev_replicate)
  with s show ?thesis by metis
qed

text \<open>The ASCII white space of \<open>strings.TrimSpace\<close>.\<close>

definition is_space :: "char \<Rightarrow> bool" where
  "is_space c \<longleftrightarrow> c \<in> {CHR 0x09, CHR 0x0A, CHR 0x0B, CHR 0x0C, CHR 0x0D, CHR '' ''}"

definition trim_space :: "string \<Rightarrow> string" where
  "trim_space s = rev (dropWhile is_space (rev (dropWhile is_space s)))"

definition remove_char :: "char \<Rightarrow> string \<Rightarrow> string" where
  "remove_char c s = filter (\<lambda>x. x \<noteq> c) s"

text \<open>\<open>strings.ToLower\<close> on ASCII letters; other bytes are unchanged.\<close>

definition lower_char :: "char \<Rightarrow> char" where
  "lower_char c = (let n = of_char c :: nat in if 65 \<le> n \<and> n \<le> 90 then char_of (n + 32) else c)"

definition to_lower :: "string \<Rightarrow> string" where
  "to_lower s = map lower_char s"

section \<open>Patterns\<close>

definition is_digit :: "char \<Rightarrow> bool" where
  "is_digit c \<longleftrightarrow> (let n = of_char c :: nat in 48 \<le> n \<and> n \<le> 57)"

definition is_hex :: "char \<Rightarrow> bool" where
  "is_hex c \<longleftrightarrow> (let n = of_char c :: nat in (48 \<le> n \<and> n \<le> 57) \<or> (97 \<le> n \<and> n \<le> 102))"

text \<open>\<open>^[a-f0-9]{8}-[a-f0-9]{4}-[a-f0-9]{4}-[a-f0-9]{4}-[a-f0-9]{12}$\<close>\<close>

definition IsUuid :: "string \<Rightarrow> bool" where
  "IsUuid s = (let ps = split_on (CHR ''-'') s in
     map length ps = [8, 4, 4, 4, 12] \<and> list_all (list_all is_hex) ps)"

lemma IsUuid_length: "IsUuid s \<Longrightarrow> length s = 36"
proof -
  assume "IsUuid s"
  then have len: "map length (split_on (CHR ''-'') s) = [8, 4, 4, 4, 12]"
    by (simp add: IsUuid_def Let_def)
  then obtain a b c d e where ps: "split_on (CHR ''-'') s = [a, b, c, d, e]"
    by (auto simp: map_eq_Cons_conv)
  have "s = join_with (CHR ''-'') [a, b, c, d, e]" by (metis ps join_split)
  then show ?thesis using len ps by simp
qed

text \<open>\<open>MatchString\<close> of \<open>^host[0-9]+\<close>: the start of the name is enough.\<close>

definition match_host :: "string \<Rightarrow> bool" where
  "match_host s = (has_prefix s ''host'' \<and> (case drop 4 s of [] \<Rightarrow> False | c # _ \<Rightarrow> is_digit c))"

lemma match_host_iff: "match_host s \<longleftrightarrow> (\<exists>c t. is_digit c \<and> s = ''host'' @ c # t)"
  by (auto simp: match_host_def has_prefix_iff split: list.splits)

end
