(* ===== verification/GoInts.thy ===== *)
theory GoInts
  imports Prelude "HOL-Library.Word"
begin

text \<open>
  Go's \<open>int64\<close> as a word of 64 bits (arithmetic wraps, comparisons go through
  \<open>sint\<close>), truncated division, and the conversion of an \<open>int64\<close> to a \<open>float64\<close>: a
  float64 has a significand of 53 bits, and the conversion rounds to the nearest such
  value, ties to even.
\<close>

type_synonym int64 = "64 word"

definition i64 :: "int \<Rightarrow> int64" where
  "i64 x = word_of_int x"

definition MbToBytes :: int64 where
  "MbToBytes = 1024 * 1024"

definition GbToBytes :: int64 where
  "GbToBytes = 1024 * 1024 * 1024"

definition DefaultDiskSizeInGb :: int64 where
  "DefaultDiskSizeInGb = 1"

lemma sint_MbToBytes [simp]: "sint MbToBytes = 1048576"
  by (simp add: MbToBytes_def)

lemma sint_GbToBytes [simp]: "sint GbToBytes = 1073741824"
  by (simp add: GbToBytes_def)

lemma sint_i64: "- (2 ^ 63) \<le> x \<Longrightarrow> x < 2 ^ 63 \<Longrightarrow> sint (i64 x) = x"
  by (simp add: i64_def sint_sbintrunc' signed_take_bit_int_eq_self)

lemma sint_range: "- (2 ^ 63) \<le> sint (x :: int64) \<and> sint x < 2 ^ 63"
  using sint_ge [of x] sint_lt [of x] by simp

lemma sint_mult_small:
  "- (2 ^ 63) \<le> sint x * sint y \<Longrightarrow> sint x * sint y < 2 ^ 63 \<Longrightarrow>
   sint (x * y :: int64) = sint x * sint y"
  using sint_i64 [of "sint x * sint y"] by (simp add: i64_def)

text \<open>Division of \<open>int64\<close> values, which truncates towards zero.\<close>

definition div64 :: "int64 \<Rightarrow> int64 \<Rightarrow> int64" where
  "div64 x y = i64 (sgn (sint x) * sgn (sint y) * (\<bar>sint x\<bar> div \<bar>sint y\<bar>))"

section \<open>Conversion to float64\<close>

text \<open>How many low bits a number loses: the least \<open>e\<close> with \<open>n div 2 ^ e < 2 ^ 53\<close>.\<close>

fun f64_shift :: "nat \<Rightarrow> nat" where
  "f64_shift n = (if n < 2 ^ 53 then 0 else Suc (f64_shift (n div 2)))"

declare f64_shift.simps [simp del]

definition f64_round_nat :: "nat \<Rightarrow> nat" where
  "f64_round_nat n = (let d = 2 ^ f64_shift n; q = n div d; r = n mod d
     in (if d < 2 * r \<or> (2 * r = d \<and> odd q) then q + 1 else q) * d)"

definition f64_of_int :: "int \<Rightarrow> int" where
  "f64_of_int x = sgn x * int (f64_round_nat (nat \<bar>x\<bar>))"

lemma f64_shift_bound: "n < 2 ^ (53 + k) \<Longrightarrow> f64_shift n \<le> k"
proof (induction k arbitrary: n)
  case 0
  then show ?case by (simp add: f64_shift.simps)
next
  case (Suc k)
  show ?case
  proof (cases "n < 2 ^ 53")
    case True
    then show ?thesis by (simp add: f64_shift.simps)
  next
    case False
    have "(2::nat) ^ (53 + Suc k) = 2 * 2 ^ (53 + k)" by (simp only: add_Suc_right power_Suc)
    then have "n div 2 < 2 ^ (53 + k)" using Suc.prems by linarith
    then have "f64_shift (n div 2) \<le> k" by (rule Suc.IH)
    then show ?thesis using False by (subst f64_shift.simps) simp
  qed
qed

text \<open>A number divisible by the lost bits' weight is converted exactly.\<close>

lemma f64_round_nat_exact:
  assumes "2 ^ k dvd n" and "n < 2 ^ (53 + k)"
  shows "f64_round_nat n = n"
proof -
  have "(2::nat) ^ f64_shift n dvd 2 ^ k" using f64_shift_bound [OF assms(2)] by (simp add: le_imp_power_dvd)
  then have "2 ^ f64_shift n dvd n" using assms(1) dvd_trans by blast
  then have "n mod 2 ^ f64_shift n = 0" and "n div 2 ^ f64_shift n * 2 ^ f64_shift n = n"
    by simp_all
  then show ?thesis by (simp add: f64_round_nat_def Let_def)
qed

text \<open>The error is at most half of the lost bits' weight.\<close>

lemma f64_round_nat_error:
  "\<bar>int (f64_round_nat n) - int n\<bar> * 2 \<le> 2 ^ f64_shift n"
proof -
  define d :: nat where "d = 2 ^ f64_shift n"
  define q where "q = n div d"
  define r where "r = n mod d"
  have n: "n = q * d + r" unfolding q_def r_def by (rule div_mult_mod_eq [symmetric])
  have r: "r < d" by (simp add: r_def d_def)
  have f: "f64_round_nat n = (if d < 2 * r \<or> (2 * r = d \<and> odd q) then q * d + d else q * d)"
    by (simp add: f64_round_nat_def Let_def d_def q_def r_def)
  have "\<bar>int (f64_round_nat n) - int n\<bar> * 2 \<le> int d"
  proof (cases "d < 2 * r \<or> (2 * r = d \<and> odd q)")
    case True
    then have "int (f64_round_nat n) - int n = int d - int r" and "int d \<le> 2 * int r"
      using n f by auto
    then show ?thesis using r by (simp add: abs_if)
  next
    case False
    then have "int (f64_round_nat n) - int n = - int r" and "2 * int r \<le> int d"
      using n f by auto
    then show ?thesis by (simp add: abs_if)
  qed
  then show ?thesis by (simp add: d_def)
qed

text \<open>Rounding does not pass a value that has enough low zero bits.\<close>

lemma f64_round_nat_le:
  assumes "2 ^ k dvd m" and "n \<le> m" and "n < 2 ^ (53 + k)"
  shows "f64_round_nat n \<le> m"
proof -
  define d :: nat where "d = 2 ^ f64_shift n"
  have d: "0 < d" by (simp add: d_def)
  have "d dvd m" using f64_shift_bound [OF assms(3)] assms(1)
    unfolding d_def by (meson dvd_trans le_imp_power_dvd)
  then obtain c where c: "m = d * c" by blast
  have n: "n = n div d * d + n mod d" by (rule div_mult_mod_eq [symmetric])
  show ?thesis
  proof (cases "n mod d = 0")
    case True
    then have "f64_round_nat n = n" using n d by (simp add: f64_round_nat_def Let_def flip: d_def)
    then show ?thesis using assms(2) by simp
  next
    case False
    then have "n div d * d < d * c" using n assms(2) c by linarith
    then have "n div d < c" by (metis mult.commute mult_less_cancel2)
    then have "(n div d + 1) * d \<le> m" using c by (metis Suc_eq_plus1 Suc_leI mult.commute mult_le_mono2)
    moreover have "f64_round_nat n \<le> (n div d + 1) * d"
      by (simp add: f64_round_nat_def Let_def flip: d_def)
    ultimately show ?thesis by (rule le_trans [rotated])
  qed
qed

lemma f64_round_nat_ge:
  assumes "2 ^ k dvd m" and "m \<le> n" and "n < 2 ^ (53 + k)"
  shows "m \<le> f64_round_nat n"
proof -
  define d :: nat where "d = 2 ^ f64_shift n"
  have "d dvd m" using f64_shift_bound [OF assms(3)] assms(1)
    unfolding d_def by (meson dvd_trans le_imp_power_dvd)
  then obtain c where c: "m = d * c" by blast
  have "c \<le> n div d" using assms(2) c d_def
    by (metis div_le_mono nonzero_mult_div_cancel_left power_not_zero zero_neq_numeral)
  then have "m \<le> n div d * d" using c by (simp add: mult.commute)
  moreover have "n div d * d \<le> f64_round_nat n"
    by (simp add: f64_round_nat_def Let_def flip: d_def)
  ultimately show ?thesis by (rule le_trans)
qed

lemma f64_of_int_exact: "\<bar>x\<bar> \<le> 2 ^ 53 \<Longrightarrow> f64_of_int x = x"
proof -
  assume x: "\<bar>x\<bar> \<le> 2 ^ 53"
  have "f64_round_nat (nat \<bar>x\<bar>) = nat \<bar>x\<bar>"
  proof (cases "nat \<bar>x\<bar> < 2 ^ 53")
    case True
    then show ?thesis by (intro f64_round_nat_exact [where k = 0]) auto
  next
    case False
    with x have "\<bar>x\<bar> = 2 ^ 53" by (simp add: nat_less_iff)
    then have "nat \<bar>x\<bar> = 2 ^ 53" by (simp add: nat_eq_iff)
    then show ?thesis by (intro f64_round_nat_exact [where k = 1]) auto
  qed
  then show ?thesis by (simp add: f64_of_int_def mult_sgn_abs)
qed

section \<open>Sizes in mebibytes\<close>

text \<open>\<open>int64(math.Ceil(float64(b) / float64(MbToBytes)))\<close>: dividing a float64 by a power of
  two is exact, and so is the ceiling of the quotient.\<close>

definition mb_ceil :: "int64 \<Rightarrow> int64" where
  "mb_ceil b = i64 (- ((- f64_of_int (sint b)) div sint MbToBytes))"

lemma ceil_div_bounds:
  fixes a b :: int
  assumes "0 < b"
  shows "a \<le> - ((- a) div b) * b" and "- ((- a) div b) * b < a + b"
proof -
  have "(- a) div b * b \<le> - a" using assms by (simp add: mult.commute minus_mod_eq_mult_div [symmetric])
  then show "a \<le> - ((- a) div b) * b" by simp
  have "- a < ((- a) div b + 1) * b" using assms
    by (metis add.commute div_mult_mod_eq distrib_right mult_1 pos_mod_bound add_strict_left_mono)
  then show "- ((- a) div b) * b < a + b" by (simp add: algebra_simps)
qed

text \<open>For a positive number of bytes the rounding stays on the same side of every mebibyte
  boundary, or lands on it.\<close>

lemma f64_of_int_le:
  assumes "0 \<le> v" and "v < 2 ^ 63" and "v \<le> K * 1048576"
  shows "f64_of_int v \<le> K * 1048576"
proof -
  have K: "0 \<le> K" using assms(1,3) by simp
  have "f64_round_nat (nat v) \<le> nat (K * 1048576)"
  proof (rule f64_round_nat_le [where k = 10])
    have "nat (K * 1048576) = 2 ^ 10 * (nat K * 1024)" using K by (simp add: nat_mult_distrib)
    then show "2 ^ 10 dvd nat (K * 1048576)" by (metis dvd_triv_left)
    show "nat v \<le> nat (K * 1048576)" using assms(3) by simp
    show "nat v < 2 ^ (53 + 10)" using assms(1,2) by (simp add: nat_less_iff)
  qed
  then have "int (f64_round_nat (nat v)) \<le> K * 1048576" using K by (simp add: le_nat_iff)
  then show ?thesis using assms(1) K by (cases "v = 0") (simp_all add: f64_of_int_def)
qed

lemma f64_of_int_ge:
  assumes "0 \<le> K" and "v < 2 ^ 63" and "K * 1048576 \<le> v"
  shows "K * 1048576 \<le> f64_of_int v"
proof -
  have v: "0 \<le> v" using assms(1,3) by (smt (verit) mult_nonneg_nonneg)
  have "nat (K * 1048576) \<le> f64_round_nat (nat v)"
  proof (rule f64_round_nat_ge [where k = 10])
    have "nat (K * 1048576) = 2 ^ 10 * (nat K * 1024)" using assms(1) by (simp add: nat_mult_distrib)
    then show "2 ^ 10 dvd nat (K * 1048576)" by (metis dvd_triv_left)
    show "nat (K * 1048576) \<le> nat v" using assms(3) by simp
    show "nat v < 2 ^ (53 + 10)" using v assms(2) by (simp add: nat_less_iff)
  qed
  then have "K * 1048576 \<le> int (f64_round_nat (nat v))" using assms(1) by (simp add: nat_le_iff)
  then show ?thesis using v assms(1,3) by (cases "v = 0") (simp_all add: f64_of_int_def)
qed

lemma sint_mb_ceil_pos:
  assumes "0 < sint b"
  defines "K \<equiv> - ((- sint b) div 1048576)"
  shows "K - 1 \<le> sint (mb_ceil b)" and "sint (mb_ceil b) \<le> K"
    and "sint b \<le> 2 ^ 53 \<Longrightarrow> sint (mb_ceil b) = K"
proof -
  let ?f = "f64_of_int (sint b)"
  have lt: "sint b < 2 ^ 63" using sint_range [of b] by simp
  have K: "(K - 1) * 1048576 < sint b" "sint b \<le> K * 1048576"
    using ceil_div_bounds [of 1048576 "sint b"] by (simp_all add: K_def algebra_simps)
  have K0: "1 \<le> K" "K \<le> 8796093022208" using K assms(1) lt by simp_all
  have up: "?f \<le> K * 1048576" by (rule f64_of_int_le) (use assms(1) lt K in simp_all)
  have lo: "(K - 1) * 1048576 \<le> ?f" by (rule f64_of_int_ge) (use K0 lt K in simp_all)
  define c where "c = - ((- ?f) div 1048576)"
  have "?f \<le> c * 1048576" "c * 1048576 < ?f + 1048576"
    unfolding c_def using ceil_div_bounds [of 1048576 ?f] by simp_all
  then have "(K - 1) * 1048576 \<le> c * 1048576" and "c * 1048576 < (K + 1) * 1048576"
    using up lo by simp_all
  then have c: "K - 1 \<le> c" "c \<le> K" by simp_all
  have "- (2 ^ 63) \<le> c" "c < 2 ^ 63" using c K0 by simp_all
  then have s: "sint (mb_ceil b) = c" by (simp add: mb_ceil_def c_def sint_i64)
  show "K - 1 \<le> sint (mb_ceil b)" and "sint (mb_ceil b) \<le> K" using s c by simp_all
  show "sint (mb_ceil b) = K" if "sint b \<le> 2 ^ 53"
    using s c_def f64_of_int_exact [of "sint b"] that assms(1) K_def by simp
qed

lemma f64_of_int_nonpos: "x \<le> 0 \<Longrightarrow> f64_of_int x \<le> 0"
  by (cases "x = 0") (simp_all add: f64_of_int_def)

lemma sint_mb_ceil_nonpos:
  assumes "sint b \<le> 0"
  shows "sint (mb_ceil b) \<le> 0"
proof -
  let ?n = "nat \<bar>sint b\<bar>" and ?f = "f64_of_int (sint b)"
  have "f64_round_nat ?n \<le> 2 ^ 63"
    by (rule f64_round_nat_le [where k = 11]) (use sint_range [of b] in \<open>auto simp: nat_le_iff nat_less_iff abs_if\<close>)
  then have "int (f64_round_nat ?n) \<le> 2 ^ 63" by (simp flip: of_nat_le_iff)
  then have f: "- (2 ^ 63) \<le> ?f" "?f \<le> 0"
    using assms f64_of_int_nonpos [OF assms] by (cases "sint b = 0"; simp add: f64_of_int_def)+
  define c where "c = - ((- ?f) div 1048576)"
  have "?f \<le> c * 1048576" "c * 1048576 < ?f + 1048576"
    unfolding c_def using ceil_div_bounds [of 1048576 ?f] by simp_all
  then have "- (2 ^ 63) \<le> c" "c \<le> 0" using f by linarith+
  then show ?thesis by (simp add: mb_ceil_def sint_i64 flip: c_def)
qed

lemma mb_ceil_covers:
  assumes "0 < sint b" "sint b \<le> 2 ^ 53"
  shows "sint b \<le> sint (mb_ceil b * MbToBytes) \<and>
    sint (mb_ceil b * MbToBytes) < sint b + 1048576 \<and>
    sint (mb_ceil b * MbToBytes) = sint (mb_ceil b) * 1048576"
proof -
  define K where "K = - ((- sint b) div 1048576)"
  have s: "sint (mb_ceil b) = K"
    using sint_mb_ceil_pos(3) [OF assms(1)] assms(2) by (simp add: K_def)
  have K: "sint b \<le> K * 1048576" "K * 1048576 < sint b + 1048576"
    using ceil_div_bounds [of 1048576 "sint b"] by (simp_all add: K_def)
  have "sint (mb_ceil b * MbToBytes) = K * 1048576"
    using sint_mult_small [of "mb_ceil b" MbToBytes] K assms by (simp add: s)
  then show ?thesis using K s by simp
qed

lemma mb_ceil_large:
  "sint (mb_ceil (i64 (2 ^ 53 + 1)) * MbToBytes) = 2 ^ 53"
  "sint (mb_ceil (i64 (2 ^ 63 - 1)) * MbToBytes) = - (2 ^ 63)"
proof -
  have 1: "f64_of_int 9007199254740993 = 9007199254740992"
    by (simp add: f64_of_int_def f64_round_nat_def f64_shift.simps Let_def)
  show "sint (mb_ceil (i64 (2 ^ 53 + 1)) * MbToBytes) = 2 ^ 53"
    by (simp add: mb_ceil_def sint_i64 1) (simp add: i64_def MbToBytes_def)
  have 2: "f64_of_int 9223372036854775807 = 9223372036854775808"
    by (simp add: f64_of_int_def f64_round_nat_def f64_shift.simps Let_def)
  show "sint (mb_ceil (i64 (2 ^ 63 - 1)) * MbToBytes) = - (2 ^ 63)"
    by (simp add: mb_ceil_def sint_i64 2) (simp add: i64_def MbToBytes_def)
qed

lemma mb_ceil_default: "sint (mb_ceil (DefaultDiskSizeInGb * GbToBytes)) = 1024"
  by (simp add: mb_ceil_def DefaultDiskSizeInGb_def f64_of_int_exact i64_def)

end
