(* ===== verification/VcdTypes.thy ===== *)
theory VcdTypes
  imports GoStrings GoInts "HOL-Library.Finite_Map"
begin

text \<open>
  The data of the driver: the records of pkg/vcdtypes/types.go, the fields the driver reads
  or writes of the SDK's structs (links, references, tasks, virtual data centers, virtual
  machines), the DiskManager of pkg/vcdcsiclient/disks.go, and the untyped values
  (\<open>interface{}\<close>) of a runtime-defined entity. A pointer that may be nil is an option; a
  slice is a list, nil and empty slices being one (the code only asks for the length).
\<close>

section \<open>Structs of the SDK\<close>

record link =
  lHREF :: string
  lID :: string
  lType :: string
  lName :: string
  lRel :: string

record reference =
  rHREF :: string
  rID :: string
  rType :: string
  rName :: string

record resource_reference =
  eHREF :: string
  eID :: string
  eType :: string
  eName :: string

record owner =
  oHREF :: string
  oType :: string
  oLink :: "link list"
  oUser :: "reference option"

record task =
  tHREF :: string
  tOwner :: "reference option"

record vdc =
  vName :: string
  vLink :: "link list"
  vResourceEntities :: "resource_reference list list"

record disk_setting =
  sDiskId :: string
  sSizeMb :: int64
  sUnitNumber :: int
  sBusNumber :: int
  sAdapterType :: string
  sDisk :: "reference option"

record vm =
  mHREF :: string
  mName :: string
  mVmSpecSection :: "disk_setting list option option"  \<comment> \<open>VmSpecSection, then its DiskSection\<close>

definition RelAdd :: string where "RelAdd = ''add''"
definition RelEdit :: string where "RelEdit = ''edit''"
definition RelRemove :: string where "RelRemove = ''remove''"
definition MimeDiskCreateParams :: string where
  "MimeDiskCreateParams = ''application/vnd.vmware.vcloud.diskCreateParams+xml''"
definition MimeVMs :: string where "MimeVMs = ''application/vnd.vmware.vcloud.vms+xml''"
definition MimeDisk :: string where "MimeDisk = ''application/vnd.vmware.vcloud.disk+xml''"
definition XMLNamespaceVCloud :: string where
  "XMLNamespaceVCloud = ''http://www.vmware.com/vcloud/v1.5''"

section \<open>Independent disks\<close>

text \<open>\<open>Files\<close> and \<open>VCloudExtension\<close> are carried, never looked at.\<close>

record disk =
  dHREF :: string
  dType :: string
  dId :: string
  dOperationKey :: string
  dName :: string
  dStatus :: int
  dSizeMb :: int64
  dIops :: int64
  dEncrypted :: bool
  dBusType :: string
  dBusSubType :: string
  dShareable :: bool
  dSharingType :: string
  dUUID :: string
  dDescription :: string
  dFiles :: "string option"
  dLink :: "link list"
  dOwner :: "owner option"
  dStorageProfile :: "reference option"
  dTasks :: "task list option"
  dVCloudExtension :: "bool option"

definition zero_disk :: disk where
  "zero_disk = \<lparr>dHREF = [], dType = [], dId = [], dOperationKey = [], dName = [], dStatus = 0,
     dSizeMb = 0, dIops = 0, dEncrypted = False, dBusType = [], dBusSubType = [],
     dShareable = False, dSharingType = [], dUUID = [], dDescription = [], dFiles = None,
     dLink = [], dOwner = None, dStorageProfile = None, dTasks = None, dVCloudExtension = None\<rparr>"

record disk_create_params =
  pXmlns :: string
  pDisk :: disk
  pLocality :: "reference option"
  pVCloudExtension :: "bool option"

text \<open>The SDK's own disk type, with the fields that an update sends.\<close>

record sdk_disk =
  uXmlns :: string
  uDescription :: string
  uSizeMb :: int64
  uName :: string
  uOwner :: "owner option"

definition VCDBusTypeSCSI :: string where "VCDBusTypeSCSI = ''6''"
definition VCDBusSubTypeVirtualSCSI :: string where "VCDBusSubTypeVirtualSCSI = ''VirtualSCSI''"
definition NoRdePrefix :: string where "NoRdePrefix = ''NO_RDE_''"

section \<open>The disk manager\<close>

record vcd_client =
  ClusterOrgName :: string
  ClusterOVDCIdentifier :: string

record zone_map =
  VdcToZoneMap :: "(string \<times> string) list"

record disk_manager =
  VCDClient :: vcd_client
  ClusterID :: string
  Org :: "string option"
  IsZoneEnabledCluster :: bool
  ZoneMap :: "zone_map option"

section \<open>Untyped values and runtime-defined entities\<close>

text \<open>
  The dynamic types that occur in an entity: what JSON decoding produces, and the two typed
  slices that the code stores into a status map (\<open>[]string\<close> and \<open>[]VCDResource\<close>), which a
  type assertion to \<open>[]interface{}\<close> does not accept. A number is kept as its text.
\<close>

datatype goval =
    VNil
  | VBool bool
  | VNum string
  | VStr string
  | VSlice "goval list"
  | VMap "(string, goval) fmap"
  | VStrings "string list"
  | VResources "vcd_resource list"
and vcd_resource =
    VCDResource (resType: string) (resID: string) (resName: string)
      (resDetails: "(string, goval) fmap option")

type_synonym status_map = "(string, goval) fmap"

record defined_entity =
  rdeId :: string
  rdeEntityType :: string
  rdeName :: string
  rdeEntity :: status_map

end
