(* ===== verification/VcdApi.thy ===== *)
theory VcdApi
  imports VcdTypes
begin

text \<open>
  The calls the driver makes to VMware Cloud Director: through govcd and the SDK
  (vendored code), the REST requests, the RDE manager of vcdsdk, and the client's lock. The
  environment \<open>vcd_env\<close> answers each call, from the history of all calls before it; every
  call is an event with its answer. Nothing is assumed of the answers here.
\<close>

section \<open>Events\<close>

datatype detail = DErr goerr | DText string

type_synonym details = "(string \<times> detail) list"

type_synonym entity_reply = "defined_entity \<times> int option \<times> string \<times> goerr option"
type_synonym update_reply = "defined_entity \<times> int option \<times> goerr option"

datatype vcd_event =
    EvLock
  | EvUnlock
  | EvRefreshToken "unit res"
  | EvGetVDC string "vdc res"
  | EvRefreshVDC string "vdc res"
  | EvGetDisk string "disk res"
  | EvGetVms link "reference list res"
  | EvFindProfile string string "(reference \<times> vdc) res"
  | EvPostDisk link disk_create_params "disk res"
  | EvDeleteDisk string "task res"
  | EvPutDisk link sdk_disk "task res"
  | EvAttach vm string "task res"
  | EvDetach vm string "task res"
  | EvWaitTask task "task res"
  | EvSearchVM string string bool "vm res"
  | EvUpdateDisks vm "disk_setting list" "unit res"
  | EvGetOrg string "string option option res"
  | EvGetEntity string string entity_reply
  | EvPutEntity defined_entity string string string update_reply
  | EvAddError string string string string details "unit res"
  | EvRemoveError string string string string "unit res"
  | EvAddEvent string string string string details "unit res"
  | EvAddResource string string string string "unit res"
  | EvRemoveResource string string string "unit res"

type_synonym vcd_history = "vcd_event list"

record vcd_env =
  q_rank :: "vcd_history \<Rightarrow> string \<Rightarrow> nat"
  q_refreshToken :: "vcd_history \<Rightarrow> unit res"
  q_getVDC :: "vcd_history \<Rightarrow> string \<Rightarrow> vdc res"
  q_refreshVDC :: "vcd_history \<Rightarrow> vdc \<Rightarrow> vdc res"
  q_getDisk :: "vcd_history \<Rightarrow> string \<Rightarrow> disk res"
  q_getVms :: "vcd_history \<Rightarrow> link \<Rightarrow> reference list res"
  q_findProfile :: "vcd_history \<Rightarrow> vdc \<Rightarrow> string \<Rightarrow> (reference \<times> vdc) res"
  q_postDisk :: "vcd_history \<Rightarrow> link \<Rightarrow> disk_create_params \<Rightarrow> disk res"
  q_deleteDisk :: "vcd_history \<Rightarrow> string \<Rightarrow> task res"
  q_putDisk :: "vcd_history \<Rightarrow> link \<Rightarrow> sdk_disk \<Rightarrow> task res"
  q_attach :: "vcd_history \<Rightarrow> vm \<Rightarrow> string \<Rightarrow> task res"
  q_detach :: "vcd_history \<Rightarrow> vm \<Rightarrow> string \<Rightarrow> task res"
  q_waitTask :: "vcd_history \<Rightarrow> task \<Rightarrow> task res"
  q_searchVM :: "vcd_history \<Rightarrow> string \<Rightarrow> string \<Rightarrow> bool \<Rightarrow> vm res"
  q_updateDisks :: "vcd_history \<Rightarrow> vm \<Rightarrow> disk_setting list \<Rightarrow> unit res"
  q_getOrg :: "vcd_history \<Rightarrow> string \<Rightarrow> string option option res"
  q_getEntity :: "vcd_history \<Rightarrow> string \<Rightarrow> string \<Rightarrow> entity_reply"
  q_putEntity :: "vcd_history \<Rightarrow> defined_entity \<Rightarrow> string \<Rightarrow> string \<Rightarrow> string \<Rightarrow> update_reply"
  q_rde :: "vcd_history \<Rightarrow> unit res"
  q_version :: string  \<comment> \<open>version.Version, set when the driver is linked\<close>
  q_timeText :: "string \<Rightarrow> string option"  \<comment> \<open>time.Time decoded from a text and encoded again\<close>

type_synonym 'a vcd = "(vcd_env, vcd_event, 'a) io"

section \<open>Calls\<close>

text \<open>
  \<open>for k, v := range m\<close>: the entries in an order that the environment picks for each
  loop, by ranking the keys; every order of distinct keys is the order of some ranking.
\<close>

definition range_over :: "(string \<times> string) list \<Rightarrow> (string \<times> string) list vcd" where
  "range_over m = pick (\<lambda>env h. sort_key (\<lambda>kv. q_rank env h (fst kv)) m)"

definition DriverVersion :: "string vcd" where
  "DriverVersion = pick (\<lambda>env h. q_version env)"

definition TimeText :: "(string \<Rightarrow> string option) vcd" where
  "TimeText = pick (\<lambda>env h. q_timeText env)"

definition Lock :: "unit vcd" where
  "Lock = call (\<lambda>env h. ()) (\<lambda>_. EvLock)"

definition Unlock :: "unit vcd" where
  "Unlock = call (\<lambda>env h. ()) (\<lambda>_. EvUnlock)"

definition RefreshBearerToken :: "unit res vcd" where
  "RefreshBearerToken = call (\<lambda>env h. q_refreshToken env h) EvRefreshToken"

text \<open>A method call on a nil \<open>*govcd.Org\<close> dereferences it.\<close>

definition GetVDCByNameOrId :: "disk_manager \<Rightarrow> string \<Rightarrow> vdc res vcd" where
  "GetVDCByNameOrId dm ident = (case Org dm of
     None \<Rightarrow> panic ''nil Org''
   | Some _ \<Rightarrow> call (\<lambda>env h. q_getVDC env h ident) (EvGetVDC ident))"

definition RefreshVDC :: "vdc \<Rightarrow> vdc res vcd" where
  "RefreshVDC v = call (\<lambda>env h. q_refreshVDC env h v) (EvRefreshVDC (vName v))"

definition GetDiskRequest :: "string \<Rightarrow> disk res vcd" where
  "GetDiskRequest href = call (\<lambda>env h. q_getDisk env h href) (EvGetDisk href)"

definition GetVmsRequest :: "link \<Rightarrow> reference list res vcd" where
  "GetVmsRequest l = call (\<lambda>env h. q_getVms env h l) (EvGetVms l)"

definition FindStorageProfileReference :: "vdc \<Rightarrow> string \<Rightarrow> (reference \<times> vdc) res vcd" where
  "FindStorageProfileReference v name =
     call (\<lambda>env h. q_findProfile env h v name) (EvFindProfile (vName v) name)"

definition PostDiskRequest :: "link \<Rightarrow> disk_create_params \<Rightarrow> disk res vcd" where
  "PostDiskRequest l p = call (\<lambda>env h. q_postDisk env h l p) (EvPostDisk l p)"

definition DeleteDiskRequest :: "string \<Rightarrow> task res vcd" where
  "DeleteDiskRequest href = call (\<lambda>env h. q_deleteDisk env h href) (EvDeleteDisk href)"

definition PutDiskRequest :: "link \<Rightarrow> sdk_disk \<Rightarrow> task res vcd" where
  "PutDiskRequest l d = call (\<lambda>env h. q_putDisk env h l d) (EvPutDisk l d)"

definition AttachDisk :: "vm \<Rightarrow> string \<Rightarrow> task res vcd" where
  "AttachDisk v href = call (\<lambda>env h. q_attach env h v href) (EvAttach v href)"

definition DetachDisk :: "vm \<Rightarrow> string \<Rightarrow> task res vcd" where
  "DetachDisk v href = call (\<lambda>env h. q_detach env h v href) (EvDetach v href)"

definition WaitTaskCompletion :: "task \<Rightarrow> task res vcd" where
  "WaitTaskCompletion t = call (\<lambda>env h. q_waitTask env h t) (EvWaitTask t)"

definition SearchVMAcrossVDCs :: "string \<Rightarrow> string \<Rightarrow> bool \<Rightarrow> vm res vcd" where
  "SearchVMAcrossVDCs name vapp multi =
     call (\<lambda>env h. q_searchVM env h name vapp multi) (EvSearchVM name vapp multi)"

definition UpdateInternalDisks :: "vm \<Rightarrow> disk_setting list \<Rightarrow> unit res vcd" where
  "UpdateInternalDisks v ss = call (\<lambda>env h. q_updateDisks env h v ss) (EvUpdateDisks v ss)"

definition GetOrgByName :: "string \<Rightarrow> string option option res vcd" where
  "GetOrgByName name = call (\<lambda>env h. q_getOrg env h name) (EvGetOrg name)"

definition GetDefinedEntity :: "string \<Rightarrow> string \<Rightarrow> entity_reply vcd" where
  "GetDefinedEntity ident org =
     call (\<lambda>env h. q_getEntity env h ident org) (EvGetEntity ident org)"

definition UpdateDefinedEntity ::
    "defined_entity \<Rightarrow> string \<Rightarrow> string \<Rightarrow> string \<Rightarrow> update_reply vcd" where
  "UpdateDefinedEntity rde etag ident org =
     call (\<lambda>env h. q_putEntity env h rde etag ident org) (EvPutEntity rde etag ident org)"

definition RDE_AddToErrorSet ::
    "string \<Rightarrow> string \<Rightarrow> string \<Rightarrow> string \<Rightarrow> details \<Rightarrow> unit res vcd" where
  "RDE_AddToErrorSet cluster ty rid rname ds =
     call (\<lambda>env h. q_rde env h) (EvAddError cluster ty rid rname ds)"

definition RDE_RemoveErrorByNameOrId ::
    "string \<Rightarrow> string \<Rightarrow> string \<Rightarrow> string \<Rightarrow> unit res vcd" where
  "RDE_RemoveErrorByNameOrId cluster ty rid rname =
     call (\<lambda>env h. q_rde env h) (EvRemoveError cluster ty rid rname)"

definition RDE_AddToEventSet ::
    "string \<Rightarrow> string \<Rightarrow> string \<Rightarrow> string \<Rightarrow> details \<Rightarrow> unit res vcd" where
  "RDE_AddToEventSet cluster ty rid rname ds =
     call (\<lambda>env h. q_rde env h) (EvAddEvent cluster ty rid rname ds)"

definition RDE_AddToVCDResourceSet ::
    "string \<Rightarrow> string \<Rightarrow> string \<Rightarrow> string \<Rightarrow> unit res vcd" where
  "RDE_AddToVCDResourceSet cluster ty rname rid =
     call (\<lambda>env h. q_rde env h) (EvAddResource cluster ty rname rid)"

definition RDE_RemoveFromVCDResourceSet :: "string \<Rightarrow> string \<Rightarrow> string \<Rightarrow> unit res vcd" where
  "RDE_RemoveFromVCDResourceSet cluster ty rname =
     call (\<lambda>env h. q_rde env h) (EvRemoveResource cluster ty rname)"

lemmas vcd_calls = range_over_def DriverVersion_def TimeText_def Lock_def Unlock_def RefreshBearerToken_def RefreshVDC_def
  GetDiskRequest_def GetVmsRequest_def FindStorageProfileReference_def PostDiskRequest_def
  DeleteDiskRequest_def PutDiskRequest_def AttachDisk_def DetachDisk_def
  WaitTaskCompletion_def SearchVMAcrossVDCs_def UpdateInternalDisks_def GetOrgByName_def
  GetDefinedEntity_def UpdateDefinedEntity_def RDE_AddToErrorSet_def
  RDE_RemoveErrorByNameOrId_def RDE_AddToEventSet_def RDE_AddToVCDResourceSet_def
  RDE_RemoveFromVCDResourceSet_def

section \<open>Classes of events\<close>

text \<open>Requests that change disks or the machines they are attached to.\<close>

fun is_storage_write :: "vcd_event \<Rightarrow> bool" where
  "is_storage_write (EvPostDisk _ _ _) = True"
| "is_storage_write (EvDeleteDisk _ _) = True"
| "is_storage_write (EvPutDisk _ _ _) = True"
| "is_storage_write (EvAttach _ _ _) = True"
| "is_storage_write (EvDetach _ _ _) = True"
| "is_storage_write (EvUpdateDisks _ _ _) = True"
| "is_storage_write _ = False"

text \<open>Requests of the RDE bookkeeping: errors, events and the list of volumes.\<close>

fun is_rde_event :: "vcd_event \<Rightarrow> bool" where
  "is_rde_event (EvGetOrg _ _) = True"
| "is_rde_event (EvGetEntity _ _ _) = True"
| "is_rde_event (EvPutEntity _ _ _ _ _) = True"
| "is_rde_event (EvAddError _ _ _ _ _ _) = True"
| "is_rde_event (EvRemoveError _ _ _ _ _) = True"
| "is_rde_event (EvAddEvent _ _ _ _ _ _) = True"
| "is_rde_event (EvAddResource _ _ _ _ _) = True"
| "is_rde_event (EvRemoveResource _ _ _ _) = True"
| "is_rde_event _ = False"

fun is_lock_event :: "vcd_event \<Rightarrow> bool" where
  "is_lock_event EvLock = True"
| "is_lock_event EvUnlock = True"
| "is_lock_event _ = False"

text \<open>Queries: they read disks, machines and data centers.\<close>

fun is_query :: "vcd_event \<Rightarrow> bool" where
  "is_query (EvGetVDC _ _) = True"
| "is_query (EvRefreshVDC _ _) = True"
| "is_query (EvGetDisk _ _) = True"
| "is_query (EvGetVms _ _) = True"
| "is_query _ = False"

lemma is_query_disjoint [simp]:
  "is_query e \<Longrightarrow> \<not> is_storage_write e" "is_query e \<Longrightarrow> \<not> is_lock_event e"
  "is_query e \<Longrightarrow> \<not> is_rde_event e"
  by (cases e; simp)+

lemma is_rde_event_disjoint [simp]:
  "is_rde_event e \<Longrightarrow> \<not> is_storage_write e" "is_rde_event e \<Longrightarrow> \<not> is_lock_event e"
  by (cases e; simp)+

section \<open>Rules for the calls\<close>

lemma emits_range_over [trace_rules]: "emits P (range_over m)"
  by (simp add: range_over_def emits_pick)

lemma emits_picks [trace_rules]: "emits P DriverVersion" "emits P TimeText"
  by (simp_all add: DriverVersion_def TimeText_def emits_pick)

lemma emits_vcd_calls [trace_rules]:
  "P EvLock \<Longrightarrow> emits P Lock"
  "P EvUnlock \<Longrightarrow> emits P Unlock"
  "(\<And>r. P (EvRefreshToken r)) \<Longrightarrow> emits P RefreshBearerToken"
  "(\<And>r. P (EvRefreshVDC (vName v) r)) \<Longrightarrow> emits P (RefreshVDC v)"
  "(\<And>r. P (EvGetDisk href r)) \<Longrightarrow> emits P (GetDiskRequest href)"
  "(\<And>r. P (EvGetVms l r)) \<Longrightarrow> emits P (GetVmsRequest l)"
  "(\<And>r. P (EvFindProfile (vName v) n r)) \<Longrightarrow> emits P (FindStorageProfileReference v n)"
  "(\<And>r. P (EvPostDisk l p r)) \<Longrightarrow> emits P (PostDiskRequest l p)"
  "(\<And>r. P (EvDeleteDisk href r)) \<Longrightarrow> emits P (DeleteDiskRequest href)"
  "(\<And>r. P (EvPutDisk l d r)) \<Longrightarrow> emits P (PutDiskRequest l d)"
  "(\<And>r. P (EvAttach m href r)) \<Longrightarrow> emits P (AttachDisk m href)"
  "(\<And>r. P (EvDetach m href r)) \<Longrightarrow> emits P (DetachDisk m href)"
  "(\<And>r. P (EvWaitTask t r)) \<Longrightarrow> emits P (WaitTaskCompletion t)"
  "(\<And>r. P (EvSearchVM n a b r)) \<Longrightarrow> emits P (SearchVMAcrossVDCs n a b)"
  "(\<And>r. P (EvUpdateDisks m ss r)) \<Longrightarrow> emits P (UpdateInternalDisks m ss)"
  "(\<And>r. P (EvGetOrg n r)) \<Longrightarrow> emits P (GetOrgByName n)"
  "(\<And>r. P (EvGetEntity i g r)) \<Longrightarrow> emits P (GetDefinedEntity i g)"
  "(\<And>r. P (EvPutEntity e tag i g r)) \<Longrightarrow> emits P (UpdateDefinedEntity e tag i g)"
  "(\<And>r. P (EvAddError c ty i n ds r)) \<Longrightarrow> emits P (RDE_AddToErrorSet c ty i n ds)"
  "(\<And>r. P (EvRemoveError c ty i n r)) \<Longrightarrow> emits P (RDE_RemoveErrorByNameOrId c ty i n)"
  "(\<And>r. P (EvAddEvent c ty i n ds r)) \<Longrightarrow> emits P (RDE_AddToEventSet c ty i n ds)"
  "(\<And>r. P (EvAddResource c ty n i r)) \<Longrightarrow> emits P (RDE_AddToVCDResourceSet c ty n i)"
  "(\<And>r. P (EvRemoveResource c ty n r)) \<Longrightarrow> emits P (RDE_RemoveFromVCDResourceSet c ty n)"
  by (simp_all add: vcd_calls emits_call)

lemma emits_GetVDC [trace_rules]:
  "(\<And>r. P (EvGetVDC i r)) \<Longrightarrow> emits P (GetVDCByNameOrId dm i)"
  by (auto simp: GetVDCByNameOrId_def intro!: trace_rules)

lemma sat_GetVDC_Some [wp]:
  "Org dm = Some org \<Longrightarrow> sat (GetVDCByNameOrId dm i) env h Q =
     Q (Done (q_getVDC env h i)) [EvGetVDC i (q_getVDC env h i)]"
  by (simp add: GetVDCByNameOrId_def sat_call)

section \<open>Operations that hold the client's lock\<close>

text \<open>\<open>RWLock.Lock(); defer RWLock.Unlock(); body\<close>\<close>

definition with_lock :: "'a vcd \<Rightarrow> 'a vcd" where
  "with_lock body = bind Lock (\<lambda>_. deferred Unlock body)"

lemma sat_with_lock [wp]:
  "sat (with_lock m) env h Q =
     sat m env (h @ [EvLock]) (\<lambda>r es. Q r (EvLock # es @ [EvUnlock]))"
  by (simp add: with_lock_def wp vcd_calls)

lemma with_lock_apply [run_simps]:
  "with_lock m env h = (case m env (h @ [EvLock]) of (r, es) \<Rightarrow> (r, EvLock # es @ [EvUnlock]))"
  by (simp add: with_lock_def run_simps vcd_calls split: prod.splits)

lemma emits_with_lock [trace_rules]:
  "P EvLock \<Longrightarrow> P EvUnlock \<Longrightarrow> emits P m \<Longrightarrow> emits P (with_lock m)"
  unfolding with_lock_def by (auto intro!: trace_rules)

section \<open>Concrete environments\<close>

text \<open>An environment in which every request fails: concrete instances override what they need.\<close>

definition down_env :: vcd_env where
  "down_env = (let e = Inl (ApiError ''down'' False) in
     \<lparr>q_rank = (\<lambda>_ _. 0), q_refreshToken = (\<lambda>_. Inr ()), q_getVDC = (\<lambda>_ _. e),
      q_refreshVDC = (\<lambda>_ _. Inl (ApiError ''down'' False)),
      q_getDisk = (\<lambda>_ _. Inl (ApiError ''down'' False)),
      q_getVms = (\<lambda>_ _. Inl (ApiError ''down'' False)),
      q_findProfile = (\<lambda>_ _ _. Inl (ApiError ''down'' False)),
      q_postDisk = (\<lambda>_ _ _. Inl (ApiError ''down'' False)),
      q_deleteDisk = (\<lambda>_ _. Inl (ApiError ''down'' False)),
      q_putDisk = (\<lambda>_ _ _. Inl (ApiError ''down'' False)),
      q_attach = (\<lambda>_ _ _. Inl (ApiError ''down'' False)),
      q_detach = (\<lambda>_ _ _. Inl (ApiError ''down'' False)),
      q_waitTask = (\<lambda>_ _. Inl (ApiError ''down'' False)),
      q_searchVM = (\<lambda>_ _ _ _. Inl (ApiError ''down'' False)),
      q_updateDisks = (\<lambda>_ _ _. Inl (ApiError ''down'' False)),
      q_getOrg = (\<lambda>_ _. Inl (ApiError ''down'' False)),
      q_getEntity = (\<lambda>_ _ _. (\<lparr>rdeId = [], rdeEntityType = [], rdeName = [], rdeEntity = fmempty\<rparr>,
        None, [], Some (ApiError ''down'' False))),
      q_putEntity = (\<lambda>_ e _ _ _. (e, None, Some (ApiError ''down'' False))),
      q_rde = (\<lambda>_. Inr ()), q_version = ''1.6'', q_timeText = Some\<rparr>)"

definition dm0 :: disk_manager where
  "dm0 = \<lparr>VCDClient = \<lparr>ClusterOrgName = ''org'', ClusterOVDCIdentifier = ''ovdc''\<rparr>,
     ClusterID = [], Org = Some ''org'', IsZoneEnabledCluster = False, ZoneMap = None\<rparr>"

definition vdc0 :: vdc where
  "vdc0 = \<lparr>vName = ''ovdc'', vLink = [],
     vResourceEntities = [[\<lparr>eHREF = ''href1'', eID = ''id1'', eType = MimeDisk, eName = ''pvc1''\<rparr>]]\<rparr>"

definition disk0 :: disk where
  "disk0 = zero_disk\<lparr>dHREF := ''href1'', dId := ''id1'', dName := ''pvc1'', dSizeMb := 1024,
     dBusType := VCDBusTypeSCSI, dBusSubType := VCDBusSubTypeVirtualSCSI,
     dLink := [\<lparr>lHREF = ''vms1'', lID = [], lType = MimeVMs, lName = [], lRel = ''down''\<rparr>,
               \<lparr>lHREF = ''del1'', lID = [], lType = [], lName = [], lRel = RelRemove\<rparr>,
               \<lparr>lHREF = ''put1'', lID = [], lType = MimeDisk, lName = [], lRel = RelEdit\<rparr>],
     dStorageProfile := Some \<lparr>rHREF = ''sp'', rID = [], rType = [], rName = ''gold''\<rparr>\<rparr>"

text \<open>One data center with the disk \<open>pvc1\<close>, attached to the given machines.\<close>

definition one_disk_env :: "reference list \<Rightarrow> vcd_env" where
  "one_disk_env vms = down_env\<lparr>
     q_getVDC := (\<lambda>_ _. Inr vdc0), q_refreshVDC := (\<lambda>_ v. Inr v),
     q_getDisk := (\<lambda>_ _. Inr disk0), q_getVms := (\<lambda>_ _. Inr vms),
     q_deleteDisk := (\<lambda>_ _. Inr \<lparr>tHREF = ''task'', tOwner = None\<rparr>),
     q_putDisk := (\<lambda>_ _ _. Inr \<lparr>tHREF = ''task'', tOwner = None\<rparr>),
     q_attach := (\<lambda>_ _ _. Inr \<lparr>tHREF = ''task'', tOwner = None\<rparr>),
     q_detach := (\<lambda>_ _ _. Inr \<lparr>tHREF = ''task'', tOwner = None\<rparr>),
     q_waitTask := (\<lambda>_ t. Inr t)\<rparr>"

lemmas example_defs = down_env_def dm0_def vdc0_def disk0_def one_disk_env_def zero_disk_def Let_def

end
