(* ===== verification/DiskLookup.thy ===== *)
theory DiskLookup
  imports VcdApi
begin

text \<open>
  Finding a disk (pkg/vcdcsiclient/disks.go): by its HREF, by ID or by name among the
  resource entities of a virtual data center, by name or ID in one data center, and
  GetDiskByNameOrId, which searches the data centers of the zones, or the cluster's one.
\<close>

section \<open>One disk by HREF, by ID, by name\<close>

definition govcdGetDiskByHref :: "string \<Rightarrow> disk res vcd" where
  "govcdGetDiskByHref href = bind (GetDiskRequest href) (\<lambda>r. case r of
     Inl e \<Rightarrow> if contains (error_text e) ''MajorErrorCode:403'' then fail ErrorEntityNotFound
              else fail e
   | Inr d \<Rightarrow> ok d)"

text \<open>
  The nested loops over \<open>ResourceEntities\<close> and \<open>ResourceEntity\<close> visit the entities of all
  groups in order. A refreshed data center replaces the one that was passed in, so it is
  returned beside the result.
\<close>

fun findDiskById :: "string \<Rightarrow> resource_reference list \<Rightarrow> disk res vcd" where
  "findDiskById ident [] = fail ErrorEntityNotFound"
| "findDiskById ident (x # xs) =
     (if eID x = ident \<and> eType x = MimeDisk then
        attempt (govcdGetDiskByHref (eHREF x)) (\<lambda>e. fail e) (\<lambda>d. ok d)
      else findDiskById ident xs)"

definition govcdGetDiskById :: "string \<Rightarrow> vdc \<Rightarrow> bool \<Rightarrow> (disk res \<times> vdc) vcd" where
  "govcdGetDiskById ident v refresh =
     bind (if refresh then RefreshVDC v else ok v) (\<lambda>r. case r of
       Inl e \<Rightarrow> ret (Inl (Errorf ''error when refreshing vdc'' [e]), v)
     | Inr v' \<Rightarrow> bind (findDiskById ident (concat (vResourceEntities v'))) (\<lambda>d. ret (d, v')))"

fun collectDisksByName :: "string \<Rightarrow> resource_reference list \<Rightarrow> disk list \<Rightarrow> disk list res vcd" where
  "collectDisksByName name [] acc = ok acc"
| "collectDisksByName name (x # xs) acc =
     (if eName x = name \<and> eType x = MimeDisk then
        attempt (govcdGetDiskByHref (eHREF x)) (\<lambda>e. fail e)
          (\<lambda>d. collectDisksByName name xs (acc @ [d]))
      else collectDisksByName name xs acc)"

definition govcdGetDisksByName :: "string \<Rightarrow> vdc \<Rightarrow> bool \<Rightarrow> (disk list res \<times> vdc) vcd" where
  "govcdGetDisksByName name v refresh =
     bind (if refresh then RefreshVDC v else ok v) (\<lambda>r. case r of
       Inl e \<Rightarrow> ret (Inl (Errorf ''unable ot refresh VDC'' [e]), v)
     | Inr v' \<Rightarrow>
         bind (collectDisksByName name (concat (vResourceEntities v')) []) (\<lambda>ds. case ds of
           Inl e \<Rightarrow> ret (Inl e, v')
         | Inr [] \<Rightarrow> ret (Inl ErrorEntityNotFound, v')
         | Inr (d # ds') \<Rightarrow> ret (Inr (d # ds'), v')))"

section \<open>By name or ID\<close>

definition isUrn :: "string \<Rightarrow> bool" where
  "isUrn identifier =
     (if identifier = [] then False
      else let ss = split_on (CHR '':'') identifier in
        if length ss \<noteq> 4 then False
        else if ss ! 0 \<noteq> ''urn'' \<and> \<not> IsUuid (ss ! 3) then False
        else True)"

text \<open>
  What a getter returns as \<open>interface{}\<close>: nil, a \<open>*Disk\<close>, or a \<open>*[]Disk\<close> (either pointer
  may be nil inside a non-nil interface value), with its error.
\<close>

datatype iface = IfaceNil | IfaceDisk "disk option" | IfaceDisks "disk list option"

type_synonym getter = "string \<Rightarrow> bool \<Rightarrow> vdc \<Rightarrow> ((iface \<times> goerr option) \<times> vdc) vcd"

definition getEntityByNameOrIdSkipNonId :: "getter \<Rightarrow> getter \<Rightarrow> string \<Rightarrow> bool \<Rightarrow> vdc \<Rightarrow>
    ((iface \<times> goerr option) \<times> vdc) vcd" where
  "getEntityByNameOrIdSkipNonId getByName getById identifier refresh v =
     bind (if isUrn identifier \<or> IsUuid identifier then getById identifier refresh v
           else ret ((IfaceNil, None), v))
       (\<lambda>((entity, byIdErr), v').
          if (isUrn identifier \<or> IsUuid identifier) \<and> byIdErr = None then
            ret ((entity, None), v')
          else if byIdErr = Some ErrorEntityNotFound \<or> byIdErr = None then
            getByName identifier False v'
          else ret ((IfaceNil, byIdErr), v'))"

definition disks_getter :: getter where
  "disks_getter name refresh v = bind (govcdGetDisksByName name v refresh) (\<lambda>(r, v').
     ret (case r of Inl e \<Rightarrow> ((IfaceDisks None, Some e), v')
                  | Inr ds \<Rightarrow> ((IfaceDisks (Some ds), None), v')))"

definition disk_getter :: getter where
  "disk_getter ident refresh v = bind (govcdGetDiskById ident v refresh) (\<lambda>(r, v').
     ret (case r of Inl e \<Rightarrow> ((IfaceDisk None, Some e), v')
                  | Inr d \<Rightarrow> ((IfaceDisk (Some d), None), v')))"

text \<open>The assertion \<open>entity.(*[]vcdtypes.Disk)\<close> panics on any other dynamic type.\<close>

definition govcdGetDisksByNameOrId :: "string \<Rightarrow> vdc \<Rightarrow> bool \<Rightarrow>
    (disk list option \<times> goerr option) vcd" where
  "govcdGetDisksByNameOrId identifier v refresh =
     bind (getEntityByNameOrIdSkipNonId disks_getter disk_getter identifier refresh v)
       (\<lambda>((entity, err), v'). case entity of
          IfaceNil \<Rightarrow> ret (None, err)
        | IfaceDisks ds \<Rightarrow> ret (ds, err)
        | IfaceDisk _ \<Rightarrow> panic ''interface conversion'')"

section \<open>GetDiskByNameOrId\<close>

text \<open>The loop over the zones: any failure in a data center moves on to the next one.\<close>

fun searchZones :: "disk_manager \<Rightarrow> string \<Rightarrow> (string \<times> string) list \<Rightarrow> disk res vcd" where
  "searchZones dm name [] = fail ErrorEntityNotFound"
| "searchZones dm name ((ovdcName, zone) # zs) =
     attempt (GetVDCByNameOrId dm ovdcName) (\<lambda>e. searchZones dm name zs)
       (\<lambda>v. bind (govcdGetDisksByName name v True) (\<lambda>(r, v'). case r of
          Inl e \<Rightarrow> searchZones dm name zs
        | Inr [] \<Rightarrow> searchZones dm name zs
        | Inr [d] \<Rightarrow> ok d
        | Inr (d # d' # ds) \<Rightarrow> searchZones dm name zs))"

definition searchClusterVDC :: "disk_manager \<Rightarrow> string \<Rightarrow> string \<Rightarrow> disk res vcd" where
  "searchClusterVDC dm name vdcIdentifier =
     attempt (GetVDCByNameOrId dm vdcIdentifier)
       (\<lambda>e. fail (Errorf ''unable to find vdc'' [e]))
       (\<lambda>v. bind (govcdGetDisksByNameOrId name v True) (\<lambda>(disks, err). case err of
          Some e \<Rightarrow> if errors_Is_NotFound e then fail ErrorEntityNotFound
                    else fail (Errorf ''error looking for disk'' [e])
        | None \<Rightarrow> (case disks of
            None \<Rightarrow> fail ErrorEntityNotFound
          | Some [] \<Rightarrow> fail ErrorEntityNotFound
          | Some [d] \<Rightarrow> ok d
          | Some (d # d' # ds) \<Rightarrow> fail (Errorf ''found > 1 disks'' []))))"

text \<open>
  The guard \<open>vdcIdentifier == "" && zm == nil && len(zm.VdcToZoneMap) == 0\<close> dereferences
  \<open>zm\<close> exactly when it is nil.
\<close>

definition zones_of :: "zone_map option \<Rightarrow> (string \<times> string) list" where
  "zones_of zm = (case zm of None \<Rightarrow> [] | Some z \<Rightarrow> VdcToZoneMap z)"

definition GetDiskByNameOrId :: "disk_manager \<Rightarrow> string \<Rightarrow> zone_map option \<Rightarrow> string \<Rightarrow> disk res vcd"
where
  "GetDiskByNameOrId dm name zm vdcIdentifier =
     (if name = [] then fail (Errorf ''disk identifier should not be empty'' [])
      else if vdcIdentifier = [] \<and> zm = None then panic ''nil ZoneMap''
      else if zm \<noteq> None \<and> zones_of zm \<noteq> [] then
        bind (range_over (zones_of zm)) (\<lambda>zs. searchZones dm name zs)
      else searchClusterVDC dm name vdcIdentifier)"

section \<open>Lookups only query\<close>

lemma emits_govcdGetDiskByHref [trace_rules]: "emits is_query (govcdGetDiskByHref href)"
  unfolding govcdGetDiskByHref_def by (auto intro!: trace_rules)

lemma emits_findDiskById [trace_rules]: "emits is_query (findDiskById ident xs)"
  by (induction xs) (auto intro!: trace_rules)

lemma emits_collectDisksByName [trace_rules]: "emits is_query (collectDisksByName name xs acc)"
  by (induction xs arbitrary: acc) (auto intro!: trace_rules)

lemma emits_refresh_if [trace_rules]: "emits is_query (if b then RefreshVDC v else ok v)"
  by (auto intro!: trace_rules)

lemma emits_govcdGetDiskById [trace_rules]: "emits is_query (govcdGetDiskById ident v b)"
  unfolding govcdGetDiskById_def by (auto intro!: trace_rules simp del: split_paired_All)

lemma emits_govcdGetDisksByName [trace_rules]: "emits is_query (govcdGetDisksByName name v b)"
  unfolding govcdGetDisksByName_def by (auto intro!: trace_rules)

lemma emits_govcdGetDisksByNameOrId [trace_rules]:
  "emits is_query (govcdGetDisksByNameOrId name v b)"
  unfolding govcdGetDisksByNameOrId_def getEntityByNameOrIdSkipNonId_def disks_getter_def
    disk_getter_def
  by (auto intro!: trace_rules split: iface.splits)

lemma emits_searchZones [trace_rules]: "emits is_query (searchZones dm name zs)"
proof (induction zs)
  case Nil
  show ?case by (simp add: emits_ret)
next
  case (Cons z zs)
  then show ?case by (cases z) (auto intro!: trace_rules)
qed

lemma emits_searchClusterVDC [trace_rules]: "emits is_query (searchClusterVDC dm name i)"
  unfolding searchClusterVDC_def by (auto intro!: trace_rules)

lemma emits_GetDiskByNameOrId [trace_rules]: "emits is_query (GetDiskByNameOrId dm name zm i)"
  unfolding GetDiskByNameOrId_def by (auto intro!: trace_rules)

section \<open>What a lookup finds\<close>

text \<open>The entities of a data center that are disks with the given name.\<close>

definition named :: "string \<Rightarrow> resource_reference list \<Rightarrow> resource_reference list" where
  "named name = filter (\<lambda>x. eName x = name \<and> eType x = MimeDisk)"

definition disk_refs :: "string \<Rightarrow> vdc \<Rightarrow> resource_reference list" where
  "disk_refs name v = named name (concat (vResourceEntities v))"

definition reads :: "resource_reference list \<Rightarrow> disk list \<Rightarrow> vcd_event list" where
  "reads xs ds = map2 (\<lambda>x d. EvGetDisk (eHREF x) (Inr d)) xs ds"

lemma named_simps [simp]:
  "named name [] = []"
  "named name (x # xs) =
     (if eName x = name \<and> eType x = MimeDisk then x # named name xs else named name xs)"
  by (simp_all add: named_def)

lemma reads_simps [simp]:
  "reads [] ds = []" "reads xs [] = []"
  "reads (x # xs) (d # ds) = EvGetDisk (eHREF x) (Inr d) # reads xs ds"
  by (simp_all add: reads_def)

text \<open>
  \<open>fetched_unique name es d\<close>: the events \<open>es\<close> end with the read of \<open>d\<close>, and a data center
  read before it has exactly one disk of that name, the one that was read.
\<close>

definition vdc_read :: "vcd_event \<Rightarrow> vdc \<Rightarrow> bool" where
  "vdc_read e v \<longleftrightarrow> (\<exists>n. e = EvGetVDC n (Inr v) \<or> e = EvRefreshVDC n (Inr v))"

definition fetched_unique :: "string \<Rightarrow> vcd_event list \<Rightarrow> disk \<Rightarrow> bool" where
  "fetched_unique name es d \<longleftrightarrow> (\<exists>pre e v x.
     es = pre @ [EvGetDisk (eHREF x) (Inr d)] \<and> e \<in> set pre \<and> vdc_read e v \<and>
     disk_refs name v = [x])"

lemma vdc_read_simps [simp]:
  "vdc_read (EvGetVDC n (Inr v)) v" "vdc_read (EvRefreshVDC n (Inr v)) v"
  by (simp_all add: vdc_read_def)

lemma fetched_unique_prepend: "fetched_unique name es d \<Longrightarrow> fetched_unique name (es' @ es) d"
  unfolding fetched_unique_def by (metis Un_iff append.assoc set_append)

lemma fetched_unique_Cons: "fetched_unique name es d \<Longrightarrow> fetched_unique name (e # es) d"
  using fetched_unique_prepend [of name es d "[e]"] by simp

lemma sat_getDiskByHref [wp]:
  "sat (govcdGetDiskByHref href) env h Q = (case q_getDisk env h href of
     Inl e \<Rightarrow> Q (Done (Inl (if contains (error_text e) ''MajorErrorCode:403''
                  then ErrorEntityNotFound else e))) [EvGetDisk href (Inl e)]
   | Inr d \<Rightarrow> Q (Done (Inr d)) [EvGetDisk href (Inr d)])"
  by (simp add: govcdGetDiskByHref_def wp vcd_calls split: sum.splits)

text \<open>The disks of that name are read one by one, in the order of the entities.\<close>

lemma sat_collect:
  "sat (collectDisksByName name xs acc) env h (\<lambda>r es. (\<exists>x. r = Done x) \<and>
     (\<forall>ds. r = Done (Inr ds) \<longrightarrow> (\<exists>ds'. ds = acc @ ds' \<and>
        length ds' = length (named name xs) \<and> es = reads (named name xs) ds')))"
proof (induction xs arbitrary: acc h)
  case Nil
  show ?case by (simp add: wp)
next
  case (Cons x xs)
  have "sat (collectDisksByName name xs (acc @ [d])) env h' (\<lambda>r es. (\<exists>x. r = Done x) \<and>
     (\<forall>ds. r = Done (Inr ds) \<longrightarrow> (\<exists>ds'. ds = acc @ ds' \<and>
        length ds' = Suc (length (named name xs)) \<and>
        EvGetDisk (eHREF x) (Inr d) # es = reads (x # named name xs) ds')))" for d h'
    by (rule sat_mono [OF Cons.IH [of "acc @ [d]" h']]) auto
  then show ?case
    using Cons.IH [of acc h] by (auto simp: wp split: sum.splits)
qed

lemma sat_byName:
  "sat (govcdGetDisksByName name v b) env h (\<lambda>r es. (\<exists>x. r = Done x) \<and>
     (\<forall>ds v'. r = Done (Inr ds, v') \<longrightarrow> ds \<noteq> [] \<and> length ds = length (disk_refs name v') \<and>
       (b \<longrightarrow> (\<exists>n. es = EvRefreshVDC n (Inr v') # reads (disk_refs name v') ds)) \<and>
       (\<not> b \<longrightarrow> v' = v \<and> es = reads (disk_refs name v') ds)))"
  unfolding govcdGetDisksByName_def disk_refs_def
  by (auto simp: wp vcd_calls split: sum.splits outcome.splits list.splits
      intro!: sat_mono [OF sat_collect])

lemma fetched_uniqueI:
  assumes "length (disk_refs name v) = Suc 0" "vdc_read e v"
  shows "fetched_unique name (e # es @ reads (disk_refs name v) [d]) d"
proof -
  obtain x where "disk_refs name v = [x]"
    using assms by (auto simp: length_Suc_conv)
  then show ?thesis
    unfolding fetched_unique_def using assms(2)
    by (intro exI [of _ "e # es"] exI [of _ e] exI [of _ v] exI [of _ x]) simp
qed

lemma sat_byName_unique:
  "sat (govcdGetDisksByName name v True) env h (\<lambda>r es. \<exists>res v'. r = Done (res, v') \<and>
     (\<forall>d. res = Inr [d] \<longrightarrow> fetched_unique name es d))"
  by (rule sat_mono [OF sat_byName])
    (auto simp: eq_commute [of "Suc 0"] intro!: fetched_uniqueI [where es = "[]", simplified])

lemma sat_byName_read:
  assumes "vdc_read e v"
  shows "sat (govcdGetDisksByName name v False) env h (\<lambda>r es'. \<exists>res w. r = Done (res, w) \<and>
      (\<forall>d. res = Inr [d] \<longrightarrow> fetched_unique name (e # es @ es') d))"
  by (rule sat_mono [OF sat_byName])
    (auto simp: eq_commute [of "Suc 0"] assms intro!: fetched_uniqueI)

text \<open>
  By name or ID: a single disk can only come from the search by name, in the data center
  as it was read last; a name that does not look like an ID never panics.
\<close>

lemma sat_findDiskById: "sat (findDiskById ident xs) env h (\<lambda>r es. \<exists>x. r = Done x)"
  by (induction xs) (auto simp: wp split: sum.splits)

lemma sat_byId:
  "sat (govcdGetDiskById name v True) env h (\<lambda>r es. \<exists>res v'. r = Done (res, v') \<and>
      (res = Inl ErrorEntityNotFound \<longrightarrow> (\<exists>n es'. es = EvRefreshVDC n (Inr v') # es')))"
  unfolding govcdGetDiskById_def
  by (auto simp: wp vcd_calls split: sum.splits outcome.splits
      intro!: sat_mono [OF sat_findDiskById])

lemma sat_disks_getter:
  assumes "vdc_read e v"
  shows "sat (disks_getter name False v) env h (\<lambda>r es'. \<exists>ds er w. r = Done ((IfaceDisks ds, er), w) \<and>
      (\<forall>d. ds = Some [d] \<longrightarrow> fetched_unique name (e # es @ es') d))"
  unfolding disks_getter_def
  by (auto simp: wp split: sum.splits intro!: sat_mono [OF sat_byName_read [OF assms, of _ _ _ es]])

lemma sat_disk_getter:
  "sat (disk_getter name True v) env h (\<lambda>r es. \<exists>d er w. r = Done ((IfaceDisk d, er), w) \<and>
      (er = Some ErrorEntityNotFound \<longrightarrow> (\<exists>n es'. es = EvRefreshVDC n (Inr w) # es')))"
  unfolding disk_getter_def
  by (auto simp: wp split: sum.splits intro!: sat_mono [OF sat_byId])

lemma sat_getEntity:
  assumes "vdc_read e v"
  shows "sat (getEntityByNameOrIdSkipNonId disks_getter disk_getter name True v) env h (\<lambda>r es.
     \<exists>ent er w. r = Done ((ent, er), w) \<and>
       (isUrn name \<or> IsUuid name \<or> (\<forall>x. ent \<noteq> IfaceDisk x)) \<and>
       (\<forall>d. ent = IfaceDisks (Some [d]) \<longrightarrow> fetched_unique name (e # es) d))"
proof (cases "isUrn name \<or> IsUuid name")
  case False
  then show ?thesis
    unfolding getEntityByNameOrIdSkipNonId_def
    by (auto simp: wp intro!: sat_mono [OF sat_disks_getter [OF assms, of _ _ _ "[]"]])
next
  case True
  have *: "sat (disks_getter name False w) env h' (\<lambda>r es'.
      \<exists>ent er w. r = Done ((ent, er), w) \<and>
       (\<forall>d. ent = IfaceDisks (Some [d]) \<longrightarrow>
          fetched_unique name (e # EvRefreshVDC n (Inr w') # es @ es') d))" if "w = w'" for w w' n es h'
    by (rule sat_mono [OF sat_disks_getter [of "EvRefreshVDC n (Inr w')" _ _ _ _ es]])
      (auto simp: that intro!: fetched_unique_Cons [of name "EvRefreshVDC n (Inr w') # es @ es'" for es'])
  show ?thesis
    unfolding getEntityByNameOrIdSkipNonId_def
    using True * by (auto simp: wp intro!: sat_mono [OF sat_disk_getter])
qed

lemma sat_byNameOrId:
  assumes "vdc_read e v"
  shows "sat (govcdGetDisksByNameOrId name v True) env h (\<lambda>r es.
     (isUrn name \<or> IsUuid name \<or> (\<exists>x. r = Done x)) \<and>
     (\<forall>d. r = Done (Some [d], None) \<longrightarrow> fetched_unique name (e # es) d))"
  unfolding govcdGetDisksByNameOrId_def
  by (auto simp: wp split: iface.splits intro!: sat_mono [OF sat_getEntity [OF assms]])

lemma sat_GetVDC [wp]:
  "sat (GetVDCByNameOrId dm i) env h Q = (case Org dm of
     None \<Rightarrow> Q (Panic ''nil Org'') []
   | Some _ \<Rightarrow> Q (Done (q_getVDC env h i)) [EvGetVDC i (q_getVDC env h i)])"
  by (simp add: GetVDCByNameOrId_def wp split: option.splits)

lemma sat_searchZones:
  "sat (searchZones dm name zs) env h (\<lambda>r es. (Org dm \<noteq> None \<longrightarrow> (\<exists>x. r = Done x)) \<and>
     (\<forall>d. r = Done (Inr d) \<longrightarrow> fetched_unique name es d) \<and>
     (\<forall>e. r = Done (Inl e) \<longrightarrow> e = ErrorEntityNotFound))"
  (is "sat _ _ _ ?Q")
proof (induction zs arbitrary: h)
  case Nil
  show ?case by (simp add: wp)
next
  case (Cons z zs)
  have next': "sat (searchZones dm name zs) env h' (\<lambda>r es'. ?Q r (e # es @ es'))" for h' e es
    by (rule sat_mono [OF Cons.IH])
      (auto intro: fetched_unique_prepend [of name _ _ "e # es" for e es, simplified])
  obtain o' zn where z: "z = (o', zn)" by (cases z)
  show ?case
  proof (cases "q_getVDC env h o'")
    case (Inl e)
    then show ?thesis
      using next' [of _ _ "[]"] by (auto simp: z wp split: option.splits)
  next
    case (Inr v)
    then show ?thesis
      using next'
      by (auto simp: z wp split: sum.splits list.splits option.splits
          intro!: sat_mono [OF sat_byName_unique] fetched_unique_Cons)
  qed
qed

lemma sat_searchClusterVDC:
  "sat (searchClusterVDC dm name i) env h (\<lambda>r es.
     (Org dm \<noteq> None \<longrightarrow> isUrn name \<or> IsUuid name \<or> (\<exists>x. r = Done x)) \<and>
     (\<forall>d. r = Done (Inr d) \<longrightarrow> fetched_unique name es d))"
  unfolding searchClusterVDC_def
  by (auto simp: wp split: sum.splits list.splits option.splits outcome.splits
      intro!: sat_mono [OF sat_byNameOrId])

lemma sat_GetDiskByNameOrId:
  "sat (GetDiskByNameOrId dm name zm i) env h (\<lambda>r es. list_all is_query es \<and>
     (Org dm \<noteq> None \<longrightarrow> i \<noteq> [] \<or> zm \<noteq> None \<longrightarrow> isUrn name \<or> IsUuid name \<or> (\<exists>x. r = Done x)) \<and>
     (\<forall>d. r = Done (Inr d) \<longrightarrow> fetched_unique name es d))"
proof (rule sat_conj [THEN iffD2, OF conjI])
  show "sat (GetDiskByNameOrId dm name zm i) env h (\<lambda>r es. list_all is_query es)"
    using emits_GetDiskByNameOrId by (simp add: emits_sat)
  show "sat (GetDiskByNameOrId dm name zm i) env h (\<lambda>r es. 
     (Org dm \<noteq> None \<longrightarrow> i \<noteq> [] \<or> zm \<noteq> None \<longrightarrow> isUrn name \<or> IsUuid name \<or> (\<exists>x. r = Done x)) \<and>
     (\<forall>d. r = Done (Inr d) \<longrightarrow> fetched_unique name es d))"
    unfolding GetDiskByNameOrId_def
    by (auto simp: wp range_over_def intro!: sat_mono [OF sat_searchZones]
        sat_mono [OF sat_searchClusterVDC])
qed

section \<open>Searching the zones of a service that does not change\<close>

text \<open>
  While the reads are stable, a data center of a zone holds a disk for the search when it
  can be read and has exactly one disk of that name that can be read.
\<close>

definition stable_reads :: "vcd_env \<Rightarrow> bool" where
  "stable_reads env \<longleftrightarrow> (\<forall>h. q_getVDC env h = q_getVDC env [] \<and>
     q_refreshVDC env h = q_refreshVDC env [] \<and> q_getDisk env h = q_getDisk env [])"

definition zone_disk :: "vcd_env \<Rightarrow> string \<Rightarrow> string \<Rightarrow> disk option" where
  "zone_disk env name ovdc = (case q_getVDC env [] ovdc of
     Inl _ \<Rightarrow> None
   | Inr v \<Rightarrow> (case q_refreshVDC env [] v of
       Inl _ \<Rightarrow> None
     | Inr v' \<Rightarrow> (case disk_refs name v' of
         [x] \<Rightarrow> (case q_getDisk env [] (eHREF x) of Inl _ \<Rightarrow> None | Inr d \<Rightarrow> Some d)
       | _ \<Rightarrow> None)))"

lemma stable_readsD:
  assumes "stable_reads env"
  shows "q_getVDC env h = q_getVDC env []" "q_refreshVDC env h = q_refreshVDC env []"
    "q_getDisk env h = q_getDisk env []"
  using assms unfolding stable_reads_def by metis+

lemma sat_collect_stable:
  assumes "stable_reads env"
  shows "sat (collectDisksByName name xs acc) env h (\<lambda>r es.
     r = Done (Inr ds) \<longleftrightarrow> (\<exists>ds'. ds = acc @ ds' \<and>
       map (\<lambda>x. q_getDisk env [] (eHREF x)) (named name xs) = map Inr ds'))"
proof (induction xs arbitrary: acc h)
  case Nil
  show ?case by (auto simp: wp)
next
  case (Cons x xs)
  have *: "(\<exists>ds'. ds = acc @ d # ds' \<and> m = map Inr ds') =
      (\<exists>ds'. ds = acc @ ds' \<and> Inr d # m = map Inr ds')" for d m and ds :: "disk list"
    by (auto simp: Cons_eq_map_conv)
  show ?case
    using Cons.IH [of acc h] Cons.IH [of "acc @ [d]" h' for d h']
    by (auto simp: wp stable_readsD [OF assms, of h] * Cons_eq_map_conv split: sum.splits)
qed

lemma sat_byName_stable:
  assumes "stable_reads env"
  shows "sat (govcdGetDisksByName name v True) env h (\<lambda>r es. \<exists>res w. r = Done (res, w) \<and>
     (res = Inr [d] \<longleftrightarrow> (\<exists>v' x. q_refreshVDC env [] v = Inr v' \<and> disk_refs name v' = [x] \<and>
        q_getDisk env [] (eHREF x) = Inr d)))"
proof -
  have *: "sat (collectDisksByName name xs []) env h' (\<lambda>r es. \<exists>res. r = Done res \<and>
      (res = Inr [d] \<longleftrightarrow> (\<exists>x. named name xs = [x] \<and> q_getDisk env [] (eHREF x) = Inr d)))" for xs h'
    by (rule sat_mono [OF sat_conj [THEN iffD2, OF conjI,
          OF sat_collect sat_collect_stable [OF assms, of _ _ _ _ "[d]"]]])
      (auto simp: map_eq_Cons_conv)
  show ?thesis
    unfolding govcdGetDisksByName_def disk_refs_def
    by (auto simp: wp vcd_calls stable_readsD [OF assms, of h]
        split: sum.splits list.splits intro!: sat_mono [OF *])
qed

lemma zone_disk_iff:
  "zone_disk env name ovdc = Some d \<longleftrightarrow> (\<exists>v v' x. q_getVDC env [] ovdc = Inr v \<and>
     q_refreshVDC env [] v = Inr v' \<and> disk_refs name v' = [x] \<and>
     q_getDisk env [] (eHREF x) = Inr d)"
  unfolding zone_disk_def by (auto split: sum.splits list.splits)

primrec first_hit :: "('a \<Rightarrow> 'b option) \<Rightarrow> 'a list \<Rightarrow> 'b option" where
  "first_hit f [] = None"
| "first_hit f (x # xs) = (case f x of Some y \<Rightarrow> Some y | None \<Rightarrow> first_hit f xs)"

lemma first_hit_None: "first_hit f xs = None \<longleftrightarrow> (\<forall>x\<in>set xs. f x = None)"
  by (induction xs) (auto split: option.splits)

lemma first_hit_unique:
  "x \<in> set xs \<Longrightarrow> f x = Some y \<Longrightarrow> (\<And>z. z \<in> set xs \<Longrightarrow> z \<noteq> x \<Longrightarrow> f z = None) \<Longrightarrow> first_hit f xs = Some y"
  by (induction xs) (auto split: option.splits, metis option.distinct(1) option.inject)

lemma sat_searchZones_stable:
  assumes "stable_reads env" and "Org dm = Some org"
  shows "sat (searchZones dm name zs) env h (\<lambda>r es. r = Done
     (case first_hit (zone_disk env name) (map fst zs) of
        Some d \<Rightarrow> Inr d | None \<Rightarrow> Inl ErrorEntityNotFound))"
  (is "sat _ _ _ (\<lambda>r es. r = Done (?res zs))")
proof (induction zs arbitrary: h)
  case Nil
  show ?case by (simp add: wp)
next
  case (Cons z zs)
  obtain o' zn where z: "z = (o', zn)" by (cases z)
  show ?case
  proof (cases "q_getVDC env [] o'")
    case (Inl e)
    then have "zone_disk env name o' = None" by (simp add: zone_disk_def)
    with Inl show ?thesis
      using Cons.IH by (simp add: z wp assms(2) stable_readsD [OF assms(1), of h])
  next
    case (Inr v)
    have hit: "sat (govcdGetDisksByName name v True) env h' (\<lambda>r es. \<exists>res w. r = Done (res, w) \<and>
        (res = Inr [d] \<longleftrightarrow> zone_disk env name o' = Some d))" for h' d
      using sat_byName_stable [OF assms(1), of name v h' d] Inr by (simp add: zone_disk_iff)
    show ?thesis
    proof (cases "zone_disk env name o'")
      case None
      have miss: "sat (govcdGetDisksByName name v True) env h' (\<lambda>r es. \<exists>res w. r = Done (res, w) \<and>
          (\<forall>d. res \<noteq> Inr [d]))" for h'
        using hit [of h'] None by (simp add: sat_iff) (metis outcome.inject(1) prod.inject)
      then show ?thesis
        using Cons.IH Inr None
        by (auto simp: z wp assms(2) stable_readsD [OF assms(1), of h]
            split: sum.splits list.splits intro!: sat_mono [OF miss])
    next
      case (Some d)
      with Inr show ?thesis
        using Cons.IH
        by (auto simp: z wp assms(2) stable_readsD [OF assms(1), of h] split: sum.splits
            intro!: sat_mono [OF hit [of _ d]])
    qed
  qed
qed

section \<open>The interface of the lookup\<close>

text \<open>
  What the operations on disks rely on: a lookup only queries, and a disk it returns was
  read by its last request, as the only one of that name in some data center.
\<close>

locale disk_finder =
  fixes find_disk :: "string \<Rightarrow> disk res vcd"
  assumes find_queries: "emits is_query (find_disk name)"
    and find_fetched: "sat (find_disk name) env h
      (\<lambda>r es. \<forall>d. r = Done (Inr d) \<longrightarrow> fetched_unique name es d)"
begin

lemma find_rule:
  assumes "\<And>s es. list_all is_query es \<Longrightarrow> Q (Panic s) es"
    and "\<And>e es. list_all is_query es \<Longrightarrow> Q (Done (Inl e)) es"
    and "\<And>d es. list_all is_query es \<Longrightarrow> fetched_unique name es d \<Longrightarrow> Q (Done (Inr d)) es"
  shows "sat (find_disk name) env h Q"
proof -
  have "sat (find_disk name) env h (\<lambda>r es. list_all is_query es \<and>
      (\<forall>d. r = Done (Inr d) \<longrightarrow> fetched_unique name es d))"
    using find_queries find_fetched by (simp add: sat_conj emits_sat)
  then show ?thesis
  proof (rule sat_mono)
    fix r :: "disk res outcome" and es
    assume *: "list_all is_query es \<and> (\<forall>d. r = Done (Inr d) \<longrightarrow> fetched_unique name es d)"
    show "Q r es"
    proof (cases r)
      case (Done x)
      then show ?thesis using assms(2,3) * by (cases x) auto
    qed (use assms(1) * in auto)
  qed
qed

text \<open>A client that looks a disk up and goes on with it.\<close>

lemma attempt_find_rule:
  assumes "\<And>s es. list_all is_query es \<Longrightarrow> Q (Panic s) es"
    and "\<And>e es. list_all is_query es \<Longrightarrow> sat (onerr e) env (h @ es) (\<lambda>r es'. Q r (es @ es'))"
    and "\<And>d es. list_all is_query es \<Longrightarrow> fetched_unique name es d \<Longrightarrow>
      sat (k d) env (h @ es) (\<lambda>r es'. Q r (es @ es'))"
  shows "sat (attempt (find_disk name) onerr k) env h Q"
  by (simp only: sat_attempt, rule find_rule) (use assms in auto)

end

interpretation disk_lookup: disk_finder "\<lambda>name. GetDiskByNameOrId dm name zm i" for dm zm i
proof
  show "emits is_query (GetDiskByNameOrId dm name zm i)" for name
    by (rule emits_GetDiskByNameOrId)
  show "sat (GetDiskByNameOrId dm name zm i) env h
      (\<lambda>r es. \<forall>d. r = Done (Inr d) \<longrightarrow> fetched_unique name es d)" for name env h
    by (rule sat_mono [OF sat_GetDiskByNameOrId]) simp
qed

section \<open>Properties\<close>

text \<open>
  A disk that GetDiskByNameOrId returns was read by the last request of the search, and
  it is the only disk entity of that name in a data center which the search had read before,
  in every environment and for every way of searching.
\<close>

theorem GetDiskByNameOrId_found:
  assumes "GetDiskByNameOrId dm name zm i env h = (Done (Inr d), es)"
  shows "\<exists>pre e v x. es = pre @ [EvGetDisk (eHREF x) (Inr d)] \<and> e \<in> set pre \<and> vdc_read e v \<and>
    disk_refs name v = [x]"
  using disk_lookup.find_fetched [of dm name zm i env h] assms
  by (auto simp: sat_iff fetched_unique_def)

lemma lookup_example:
  "GetDiskByNameOrId dm0 ''pvc1'' None ''ovdc'' (one_disk_env vms) h =
     (Done (Inr disk0), [EvGetVDC ''ovdc'' (Inr vdc0), EvGetDisk ''href1'' (Inr disk0)])"
proof -
  have "\<not> isUrn ''pvc1''" "\<not> IsUuid ''pvc1''" by code_simp+
  then show ?thesis
    by (simp add: GetDiskByNameOrId_def searchClusterVDC_def govcdGetDisksByNameOrId_def
        getEntityByNameOrIdSkipNonId_def disks_getter_def govcdGetDisksByName_def
        govcdGetDiskByHref_def GetVDCByNameOrId_def GetDiskRequest_def run_simps one_disk_env_def
        vdc0_def dm0_def)
qed

theorem GetDiskByNameOrId_found_witness:
  "\<exists>pre e v x. snd (GetDiskByNameOrId dm0 ''pvc1'' None ''ovdc'' (one_disk_env []) []) =
     pre @ [EvGetDisk (eHREF x) (Inr disk0)] \<and> e \<in> set pre \<and> vdc_read e v \<and>
     disk_refs ''pvc1'' v = [x]"
  using GetDiskByNameOrId_found [OF lookup_example [of "[]" "[]"]]
  by (simp add: lookup_example)

definition zoned_env :: vcd_env where
  "zoned_env = (one_disk_env [])\<lparr>q_getVDC := (\<lambda>_ i. if i = ''ovdc2'' then Inr vdc0
     else Inr (vdc0\<lparr>vResourceEntities := []\<rparr>))\<rparr>"

definition zm0 :: zone_map where
  "zm0 = \<lparr>VdcToZoneMap = [(''ovdc1'', ''zone1''), (''ovdc2'', ''zone2'')]\<rparr>"

lemma zoned_example:
  "stable_reads zoned_env" "zone_disk zoned_env ''pvc1'' ''ovdc2'' = Some disk0"
  "zone_disk zoned_env ''pvc1'' ''ovdc1'' = None" "zone_disk zoned_env ''pvc2'' ovdc = None"
  by (auto simp: stable_reads_def zone_disk_def zoned_env_def one_disk_env_def down_env_def vdc0_def
      Let_def disk_refs_def)

text \<open>
  C34: over zones, while reads are stable, a disk held by exactly one of the data centers is
  found whatever order Go picks for the range over the map.
\<close>

theorem zone_search_finds:
  assumes "stable_reads env" and "Org dm = Some org" and "name \<noteq> []"
    and "(ovdc, zone) \<in> set (VdcToZoneMap z)" and "zone_disk env name ovdc = Some d"
    and "\<And>ovdc' zone'. (ovdc', zone') \<in> set (VdcToZoneMap z) \<Longrightarrow> ovdc' \<noteq> ovdc \<Longrightarrow>
      zone_disk env name ovdc' = None"
  shows "fst (GetDiskByNameOrId dm name (Some z) i env h) = Done (Inr d)"
proof -
  have "first_hit (zone_disk env name)
      (map fst (sort_key (\<lambda>kv. q_rank env h (fst kv)) (VdcToZoneMap z))) = Some d"
    using assms(4-6) by (intro first_hit_unique [of ovdc]) force+
  moreover have "VdcToZoneMap z \<noteq> []"
    using assms(4) by auto
  ultimately show ?thesis
    using sat_searchZones_stable [OF assms(1,2), of name _ h] assms(3)
    by (simp add: GetDiskByNameOrId_def zones_of_def range_over_def sat_iff run_simps
        split: prod.splits)
qed

theorem zone_search_finds_witness:
  "fst (GetDiskByNameOrId dm0 ''pvc1'' (Some zm0) ''ovdc'' zoned_env []) = Done (Inr disk0)"
proof (rule zone_search_finds [OF zoned_example(1)])
  show "Org dm0 = Some ''org''" by (simp add: dm0_def)
  show "(''ovdc2'', ''zone2'') \<in> set (VdcToZoneMap zm0)" by (simp add: zm0_def)
  show "zone_disk zoned_env ''pvc1'' ''ovdc2'' = Some disk0" by (rule zoned_example)
  show "zone_disk zoned_env ''pvc1'' o' = None"
    if "(o', z) \<in> set (VdcToZoneMap zm0)" "o' \<noteq> ''ovdc2''" for o' z
    using that by (auto simp: zm0_def zoned_example)
qed simp

text \<open>
  Over zones, while reads are stable, the search reports that the disk does not exist
  exactly when no data center of a zone holds it, and it never reports anything else when it
  returns no disk: a data center that cannot be read, a disk that cannot be read and two
  disks of one name all count as not holding it.
\<close>

theorem zone_search_not_found:
  assumes "stable_reads env" and "Org dm = Some org" and "name \<noteq> []" and "VdcToZoneMap z \<noteq> []"
  shows "(fst (GetDiskByNameOrId dm name (Some z) i env h) = Done (Inl e)) \<longleftrightarrow>
    e = ErrorEntityNotFound \<and> (\<forall>(ovdc, zone)\<in>set (VdcToZoneMap z). zone_disk env name ovdc = None)"
proof -
  have "first_hit (zone_disk env name)
      (map fst (sort_key (\<lambda>kv. q_rank env h (fst kv)) (VdcToZoneMap z))) = None \<longleftrightarrow>
      (\<forall>(ovdc, zone)\<in>set (VdcToZoneMap z). zone_disk env name ovdc = None)"
    by (auto simp: first_hit_None)
  then show ?thesis
    using sat_searchZones_stable [OF assms(1,2), of name _ h] assms(3,4)
    by (auto simp: GetDiskByNameOrId_def zones_of_def range_over_def sat_iff run_simps
        split: prod.splits option.splits)
qed

theorem zone_search_not_found_witness:
  "fst (GetDiskByNameOrId dm0 ''pvc2'' (Some zm0) ''ovdc'' zoned_env []) =
     Done (Inl ErrorEntityNotFound)"
  by (subst zone_search_not_found [OF zoned_example(1), of dm0 "''org''"])
    (auto simp: dm0_def zm0_def zoned_example)

text \<open>
  C35: a search for a non-empty name that does not look like an ID returns, in every
  environment, provided the organisation is set and a data center or a zone map is given.
\<close>

theorem GetDiskByNameOrId_returns:
  assumes "Org dm = Some org" and "i \<noteq> [] \<or> zm \<noteq> None" and "\<not> isUrn name" and "\<not> IsUuid name"
  shows "\<exists>r. fst (GetDiskByNameOrId dm name zm i env h) = Done r"
  using sat_GetDiskByNameOrId [of dm name zm i env h] assms by (auto simp: sat_iff)

theorem GetDiskByNameOrId_returns_witness:
  "\<exists>r. fst (GetDiskByNameOrId dm0 ''pvc1'' None ''ovdc'' down_env []) = Done r"
proof (rule GetDiskByNameOrId_returns)
  show "Org dm0 = Some ''org''" by (simp add: dm0_def)
  show "\<not> isUrn ''pvc1''" "\<not> IsUuid ''pvc1''" by code_simp+
qed simp

text \<open>
  C36: looking a disk up by an ID that looks like one panics whenever the disk is found: the
  getter by ID returns one disk, and the caller asserts that it holds a list.
\<close>

theorem GetDiskByNameOrId_by_id_panics:
  assumes "isUrn ident \<or> IsUuid ident" and "ident \<noteq> []" and "i \<noteq> []" and "zones_of zm = []"
    and "Org dm = Some org" and "stable_reads env" and "q_getVDC env [] i = Inr v"
    and "q_refreshVDC env [] v = Inr v'"
    and "List.find (\<lambda>x. eID x = ident \<and> eType x = MimeDisk) (concat (vResourceEntities v')) = Some x"
    and "q_getDisk env [] (eHREF x) = Inr d"
  shows "fst (GetDiskByNameOrId dm ident zm i env h) = Panic ''interface conversion''"
proof -
  have reads: "q_getVDC env h' i = Inr v" "q_refreshVDC env h' v = Inr v'"
    "q_getDisk env h' (eHREF x) = Inr d" for h'
    using stable_readsD [OF assms(6), of h'] assms(7,8,10) by auto
  have find: "sat (findDiskById ident xs) env h' Q = Q (Done (Inr d)) [EvGetDisk (eHREF x) (Inr d)]"
    if "List.find (\<lambda>x. eID x = ident \<and> eType x = MimeDisk) xs = Some x" for xs h' Q
    using that by (induction xs) (auto simp: wp reads split: if_splits)
  have "sat (GetDiskByNameOrId dm ident zm i) env h (\<lambda>r es. r = Panic ''interface conversion'')"
    using assms(1-5)
    by (auto simp: GetDiskByNameOrId_def searchClusterVDC_def govcdGetDisksByNameOrId_def
        getEntityByNameOrIdSkipNonId_def disk_getter_def govcdGetDiskById_def vcd_calls
        wp reads find [OF assms(9)])
  then show ?thesis
    by (simp add: sat_iff)
qed

definition urn_ref :: resource_reference where
  "urn_ref = \<lparr>eHREF = ''href1'', eID = ''urn:vcloud:disk:1'', eType = MimeDisk, eName = ''pvc1''\<rparr>"

definition id_env :: vcd_env where
  "id_env = (one_disk_env [])\<lparr>q_getVDC := (\<lambda>_ _. Inr (vdc0\<lparr>vResourceEntities := [[urn_ref]]\<rparr>))\<rparr>"

theorem GetDiskByNameOrId_by_id_panics_witness:
  "fst (GetDiskByNameOrId dm0 ''urn:vcloud:disk:1'' None ''ovdc'' id_env []) =
     Panic ''interface conversion''"
proof (rule GetDiskByNameOrId_by_id_panics
    [where x = urn_ref and v' = "vdc0\<lparr>vResourceEntities := [[urn_ref]]\<rparr>"])
  show "isUrn ''urn:vcloud:disk:1'' \<or> IsUuid ''urn:vcloud:disk:1''" by code_simp
  show "stable_reads id_env"
    by (simp add: stable_reads_def id_env_def one_disk_env_def)
qed (simp_all add: zones_of_def dm0_def id_env_def one_disk_env_def urn_ref_def)

text \<open>
  IsUrn accepts exactly the strings of four colon-separated parts that start with urn or
  end with a UUID; the or is the code's, where the SDK's function of this name asks for both.
\<close>

theorem isUrn_iff:
  "isUrn s \<longleftrightarrow> (\<exists>a b c d. s = a @ CHR '':'' # b @ CHR '':'' # c @ CHR '':'' # d \<and>
     CHR '':'' \<notin> set (a @ b @ c @ d) \<and> (a = ''urn'' \<or> IsUuid d))"
proof
  assume *: "isUrn s"
  then have "length (split_on (CHR '':'') s) = 4"
    by (auto simp: isUrn_def Let_def split: if_splits)
  then obtain a b c d where ss: "split_on (CHR '':'') s = [a, b, c, d]"
    by (auto simp: length_Suc_conv eval_nat_numeral)
  then have "s = a @ CHR '':'' # b @ CHR '':'' # c @ CHR '':'' # d"
    using join_split [of "CHR '':''" s] by simp
  moreover have "CHR '':'' \<notin> set (a @ b @ c @ d)"
    using split_on_no_sep [of _ "CHR '':''" s] ss by auto
  moreover have "a = ''urn'' \<or> IsUuid d"
    using * ss by (auto simp: isUrn_def Let_def split: if_splits)
  ultimately show "\<exists>a b c d. s = a @ CHR '':'' # b @ CHR '':'' # c @ CHR '':'' # d \<and>
     CHR '':'' \<notin> set (a @ b @ c @ d) \<and> (a = ''urn'' \<or> IsUuid d)"
    by blast
next
  assume "\<exists>a b c d. s = a @ CHR '':'' # b @ CHR '':'' # c @ CHR '':'' # d \<and>
     CHR '':'' \<notin> set (a @ b @ c @ d) \<and> (a = ''urn'' \<or> IsUuid d)"
  then show "isUrn s"
    by (auto simp: isUrn_def split_on_append split_on_single)
qed

end
