(* ===== verification/GoJson.thy ===== *)
theory GoJson
  imports VcdTypes "HOL-Library.List_Lexorder" "HOL-Library.Char_ord"
begin

text \<open>
  Go's encoding/json on the values of an entity: what a value is after it has been marshalled and
  decoded again as \<open>interface{}\<close>. A string is written as UTF-8: each byte that is not part of a
  valid sequence becomes the replacement character. A map is written in the order of its keys, so
  that of two keys which become the same the last one wins. A typed slice becomes a slice of
  untyped values, and the struct of a resource becomes a map without its empty fields. Numbers and
  booleans are what they were.
\<close>

section \<open>UTF-8\<close>

definition byte :: "char \<Rightarrow> nat" where "byte c = of_char c"

text \<open>How many continuation bytes a first byte asks for, and the range of the first of them.\<close>

definition tail_length :: "nat \<Rightarrow> nat option" where
  "tail_length n = (if n < 0x80 then Some 0 else if 0xC2 \<le> n \<and> n \<le> 0xDF then Some 1
     else if 0xE0 \<le> n \<and> n \<le> 0xEF then Some 2 else if 0xF0 \<le> n \<and> n \<le> 0xF4 then Some 3 else None)"

definition tail_range :: "nat \<Rightarrow> nat \<times> nat" where
  "tail_range n = (if n = 0xE0 then 0xA0 else if n = 0xF0 then 0x90 else 0x80,
     if n = 0xED then 0x9F else if n = 0xF4 then 0x8F else 0xBF)"

fun good_tail :: "nat \<times> nat \<Rightarrow> string \<Rightarrow> bool" where
  "good_tail r [] \<longleftrightarrow> True"
| "good_tail (lo, hi) (b # bs) \<longleftrightarrow> lo \<le> byte b \<and> byte b \<le> hi \<and>
     list_all (\<lambda>c. 0x80 \<le> byte c \<and> byte c \<le> 0xBF) bs"

text \<open>The length of the sequence at the start of a text, after its first byte; None: not valid.\<close>

definition rune_tail :: "char \<Rightarrow> string \<Rightarrow> nat option" where
  "rune_tail a t = (case tail_length (byte a) of
     None \<Rightarrow> None
   | Some k \<Rightarrow> if k \<le> length t \<and> good_tail (tail_range (byte a)) (take k t) then Some k else None)"

definition replacement :: string where "replacement = [CHR 0xEF, CHR 0xBF, CHR 0xBD]"

function utf8 :: "string \<Rightarrow> string" where
  "utf8 [] = []"
| "utf8 (a # t) = (case rune_tail a t of
     None \<Rightarrow> replacement @ utf8 t
   | Some k \<Rightarrow> a # take k t @ utf8 (drop k t))"
  by pat_completeness auto
termination by (relation "measure length") (simp_all add: less_Suc_eq_le)

lemma rune_tail_ascii: "byte a < 0x80 \<Longrightarrow> rune_tail a t = Some 0"
  by (simp add: rune_tail_def tail_length_def)

lemma rune_tail_length: "rune_tail a t = Some k \<Longrightarrow> k \<le> length t"
  by (auto simp: rune_tail_def split: option.splits if_splits)

lemma rune_tail_again: "rune_tail a t = Some k \<Longrightarrow> rune_tail a (take k t @ t') = Some k"
  by (auto simp: rune_tail_def split: option.splits if_splits)

lemma replacement_valid: "rune_tail (CHR 0xEF) (CHR 0xBF # CHR 0xBD # t) = Some 2"
  by (simp add: rune_tail_def tail_length_def tail_range_def byte_def)

lemma utf8_replacement: "utf8 (replacement @ t) = replacement @ utf8 t"
  by (simp add: replacement_def replacement_valid)

lemma utf8_idem [simp]: "utf8 (utf8 s) = utf8 s"
proof (induction s rule: utf8.induct)
  case 1
  show ?case by simp
next
  case (2 a t)
  show ?case
  proof (cases "rune_tail a t")
    case None
    then show ?thesis using "2.IH"(1) utf8_replacement by simp
  next
    case (Some k)
    then show ?thesis
      using "2.IH"(2) [OF Some] rune_tail_again [OF Some] rune_tail_length [OF Some] by simp
  qed
qed

text \<open>ASCII texts are what they were, and no other text becomes one.\<close>

definition ascii :: "string \<Rightarrow> bool" where
  "ascii s \<longleftrightarrow> list_all (\<lambda>c. byte c < 0x80) s"

lemma utf8_ascii_iff: "ascii k \<Longrightarrow> utf8 x = k \<longleftrightarrow> x = k"
proof (induction x arbitrary: k rule: utf8.induct)
  case 1
  show ?case by auto
next
  case (2 a t)
  show ?case
  proof (cases "byte a < 0x80")
    case True
    then show ?thesis
      using "2.IH"(2) [OF rune_tail_ascii [OF True]] "2.prems"
      by (cases k) (auto simp: rune_tail_ascii ascii_def)
  next
    case False
    have "byte (CHR 0xEF) = 0xEF" by (simp add: byte_def)
    then show ?thesis
      using False "2.prems" by (cases k) (auto simp: ascii_def replacement_def split: option.splits)
  qed
qed

lemma utf8_ascii: "ascii k \<Longrightarrow> utf8 k = k"
  by (simp add: utf8_ascii_iff)

lemma utf8_empty [simp]: "utf8 s = [] \<longleftrightarrow> s = []"
  using utf8_ascii_iff [of "[]" s] by (simp add: ascii_def)

section \<open>Fields that are left out\<close>

text \<open>A field with omitempty is left out when it is empty.\<close>

definition put_string :: "string \<Rightarrow> string \<Rightarrow> status_map \<Rightarrow> status_map" where
  "put_string k s m = (if s = [] then m else fmupd k (VStr s) m)"

definition put_map :: "string \<Rightarrow> status_map option \<Rightarrow> status_map \<Rightarrow> status_map" where
  "put_map k d m = (case d of None \<Rightarrow> m | Some x \<Rightarrow> if x = fmempty then m else fmupd k (VMap x) m)"

definition put_list :: "string \<Rightarrow> goval list \<Rightarrow> status_map \<Rightarrow> status_map" where
  "put_list k vs m = (if vs = [] then m else fmupd k (VSlice vs) m)"

section \<open>Values\<close>

definition text_keys :: "(string, 'a) fmap \<Rightarrow> (string, 'a) fmap" where
  "text_keys m = fmap_of_list (rev (map (apfst utf8) (sorted_list_of_fmap m)))"

primrec as_json :: "goval \<Rightarrow> goval" and as_json_resource :: "vcd_resource \<Rightarrow> goval" where
  "as_json VNil = VNil"
| "as_json (VBool b) = VBool b"
| "as_json (VNum n) = VNum n"
| "as_json (VStr s) = VStr (utf8 s)"
| "as_json (VSlice vs) = VSlice (map as_json vs)"
| "as_json (VMap m) = VMap (text_keys (fmmap as_json m))"
| "as_json (VStrings ss) = VSlice (map (\<lambda>s. VStr (utf8 s)) ss)"
| "as_json (VResources rs) = VSlice (map as_json_resource rs)"
| "as_json_resource (VCDResource t i n d) =
     VMap (put_string ''type'' (utf8 t) (put_string ''id'' (utf8 i) (put_string ''name'' (utf8 n)
       (put_map ''additionalDetails'' (map_option text_keys (map_option (fmmap as_json) d)) fmempty))))"

definition json_map :: "status_map \<Rightarrow> status_map" where
  "json_map m = text_keys (fmmap as_json m)"

lemma distinct_sorted_keys: "distinct (map fst (sorted_list_of_fmap m))"
  by (simp add: sorted_list_of_fmap_def comp_def sorted_list_of_fset.rep_eq)

lemma text_keys_lookup: "ascii k \<Longrightarrow> fmlookup (text_keys m) k = fmlookup m k"
proof -
  have "map_of (rev (map (apfst utf8) xs)) k = map_of xs k" if "distinct (map fst xs)" "ascii k"
    for xs :: "(string \<times> 'a) list"
    using that
  proof (induction xs)
    case (Cons x xs)
    obtain a v where x: "x = (a, v)" by (cases x)
    have "map_of xs k = None" if "a = k"
      using Cons.prems(1) that by (auto simp: x map_of_eq_None_iff image_iff)
    then show ?case
      using Cons utf8_ascii_iff [OF Cons.prems(2), of a] by (auto simp: x map_add_def split: option.splits)
  qed simp
  then show "ascii k \<Longrightarrow> fmlookup (text_keys m) k = fmlookup m k"
    by (simp add: text_keys_def fmap_of_list.rep_eq distinct_sorted_keys)
qed

lemma json_map_lookup: "ascii k \<Longrightarrow> fmlookup (json_map m) k = map_option as_json (fmlookup m k)"
  by (simp add: json_map_def text_keys_lookup)

lemma map_of_rev_distinct: "distinct (map fst xs) \<Longrightarrow> map_of (rev xs) = map_of xs"
proof (induction xs)
  case (Cons x xs)
  then have "map_of xs (fst x) = None" by (auto simp: map_of_eq_None_iff)
  then show ?case using Cons by (cases x) (auto simp: fun_eq_iff map_add_def split: option.splits)
qed simp

lemma text_keys_fixed: "(\<And>k. k |\<in>| fmdom m \<Longrightarrow> utf8 k = k) \<Longrightarrow> text_keys m = m"
proof -
  assume fixed: "\<And>k. k |\<in>| fmdom m \<Longrightarrow> utf8 k = k"
  have "map (apfst utf8) (sorted_list_of_fmap m) = sorted_list_of_fmap m"
    using fixed by (auto simp: sorted_list_of_fmap_def)
  then show ?thesis
    by (intro fmap_ext) (simp add: text_keys_def fmap_of_list.rep_eq map_of_rev_distinct distinct_sorted_keys)
qed

lemma text_keys_dom: "k |\<in>| fmdom (text_keys m) \<Longrightarrow> utf8 k = k"
  by (auto simp: text_keys_def fmdom_fmap_of_list)

lemma text_keys_values: "fmlookup (text_keys m) k = Some v \<Longrightarrow> v \<in> fmran' m"
  by (auto simp: text_keys_def fmap_of_list.rep_eq sorted_list_of_fmap_def fmlookup_dom_iff fmran'I
      dest!: map_of_SomeD)

text \<open>A map of JSON values under UTF-8 keys is what it was.\<close>

definition json_ok :: "status_map \<Rightarrow> bool" where
  "json_ok m \<longleftrightarrow> (\<forall>k v. fmlookup m k = Some v \<longrightarrow> utf8 k = k \<and> as_json v = v)"

lemma json_map_fixed:
  assumes "json_ok m"
  shows "json_map m = m"
proof -
  have "fmmap as_json m = m"
    by (rule fmap_ext) (use assms in \<open>auto simp: json_ok_def map_option_case split: option.splits\<close>)
  then show ?thesis
    unfolding json_map_def using assms by (auto intro: text_keys_fixed simp: json_ok_def fmlookup_dom_iff)
qed

lemma json_ok_empty [simp]: "json_ok fmempty"
  by (simp add: json_ok_def)

lemma json_ok_put [simp]:
  "json_ok m \<Longrightarrow> ascii k \<Longrightarrow> as_json v = v \<Longrightarrow> json_ok (fmupd k v m)"
  "json_ok m \<Longrightarrow> ascii k \<Longrightarrow> json_ok (put_string k (utf8 t) m)"
  "json_ok m \<Longrightarrow> ascii k \<Longrightarrow> \<forall>x. d = Some x \<longrightarrow> json_map x = x \<Longrightarrow> json_ok (put_map k d m)"
  "json_ok m \<Longrightarrow> ascii k \<Longrightarrow> list_all (\<lambda>v. as_json v = v) vs \<Longrightarrow> json_ok (put_list k vs m)"
  by (auto simp: json_ok_def put_string_def put_map_def put_list_def utf8_ascii list_all_iff map_idI
      simp flip: json_map_def split: option.splits)

lemma json_ok_text_keys:
  assumes "\<And>v. v \<in> fmran' m \<Longrightarrow> as_json (as_json v) = as_json v"
  shows "json_ok (text_keys (fmmap as_json m))"
  unfolding json_ok_def
proof (intro allI impI conjI)
  fix k v
  assume v: "fmlookup (text_keys (fmmap as_json m)) k = Some v"
  then show "utf8 k = k" by (intro text_keys_dom [of k "fmmap as_json m"]) (simp add: fmdomI)
  have "v \<in> fmran' (fmmap as_json m)" using text_keys_values [OF v] .
  then show "as_json v = v" using assms by (auto simp: fmran'_def)
qed

lemma ascii_names [simp]:
  "ascii ''type''" "ascii ''id''" "ascii ''name''" "ascii ''additionalDetails''" "ascii ''occurredAt''"
  "ascii ''vcdResourceId''" "ascii ''vcdResourceName''" "ascii ''version''" "ascii ''errorSet''"
  "ascii ''eventSet''" "ascii ''vcdResourceSet''" "ascii ''status''" "ascii ''persistentVolumes''"
  by (simp_all add: ascii_def byte_def)

lemma as_json_idem: "as_json (as_json v) = as_json v" "as_json (as_json_resource r) = as_json_resource r"
proof (induction v and r rule: goval.induct vcd_resource.induct)
  case (VMap m)
  have "json_ok (text_keys (fmmap as_json m))" by (rule json_ok_text_keys) (rule VMap)
  then show ?case using json_map_fixed by (simp add: json_map_def)
next
  case (VCDResource t i n d)
  have "json_ok (text_keys (fmmap as_json m))" if "d = Some m" for m
    by (rule json_ok_text_keys) (use VCDResource that in auto)
  then have "json_ok (put_string ''type'' (utf8 t) (put_string ''id'' (utf8 i) (put_string ''name'' (utf8 n)
      (put_map ''additionalDetails'' (map_option text_keys (map_option (fmmap as_json) d)) fmempty))))"
    using json_map_fixed by (intro json_ok_put) auto
  then show ?case using json_map_fixed by (simp add: json_map_def)
qed simp_all

lemma json_map_idem [simp]: "json_map (json_map m) = json_map m"
  using json_map_fixed [OF json_ok_text_keys] as_json_idem by (simp add: json_map_def)

lemma text_keys_empty [simp]: "text_keys m = fmempty \<longleftrightarrow> m = fmempty"
proof
  show "text_keys m = fmempty" if "m = fmempty"
    by (simp add: that text_keys_def sorted_list_of_fmap_def sorted_list_of_fset.rep_eq)
  show "m = fmempty" if "text_keys m = fmempty"
  proof (rule ccontr)
    assume "m \<noteq> fmempty"
    then obtain k v where "fmlookup m k = Some v" by (metis fmap_ext fmempty_lookup not_None_eq)
    then have "k \<in> set (map fst (sorted_list_of_fmap m))"
      by (auto simp: sorted_list_of_fmap_def sorted_list_of_fset.rep_eq image_iff fmlookup_dom_iff)
    then have "sorted_list_of_fmap m \<noteq> []" by auto
    then obtain x xs where "sorted_list_of_fmap m = xs @ [x]" by (metis rev_exhaust)
    then have "fmlookup (text_keys m) (utf8 (fst x)) = Some (snd x)"
      by (cases x) (simp add: text_keys_def fmap_of_list.rep_eq)
    then show False using that by simp
  qed
qed

lemma json_map_empty [simp]: "json_map m = fmempty \<longleftrightarrow> m = fmempty"
proof -
  have "fmmap as_json m = fmempty \<longleftrightarrow> m = fmempty"
    by (metis fmap_ext fmempty_lookup fmlookup_map map_option_is_None fmmap_empty)
  then show ?thesis by (simp add: json_map_def)
qed

end
