(* ===== verification/RdeStatus.thy ===== *)
theory RdeStatus
  imports GoJson
begin

text \<open>
  The status section of a runtime-defined entity (pkg/util/defined_entity_util.go, without
  network calls): the list of persistent volumes of a native cluster, its conversion into
  the resource set of the CSI section, and the CSI section as the struct CSIStatus.

  The conversions marshal what they are given and decode the bytes (theory GoJson). Decoding into
  a struct goes by the exact field names (Go also accepts names that differ in case only). A
  \<open>time.Time\<close> is kept as the text it is encoded as: the argument \<open>tt\<close> gives for a text the
  encoding of the time it decodes to, or None when it does not decode; a time that has no encoding
  (its year has more than four digits) is kept as a text that does not decode.
\<close>

section \<open>Names\<close>

definition ResourcePersistentVolume :: string where "ResourcePersistentVolume = ''named-disk''"
definition CSIName :: string where "CSIName = ''cloud-director-named-disk-csi-driver''"
definition OldPersistentVolumeKey :: string where "OldPersistentVolumeKey = ''persistentVolumes''"
definition ComponentCSI :: string where "ComponentCSI = ''csi''"

definition IsCAPVCDEntityType :: "string \<Rightarrow> bool" where
  "IsCAPVCDEntityType ty = (let ss = split_on (CHR '':'') ty in
     length ss = 6 \<and> ss ! 3 = ''vmware'' \<and> ss ! 4 = ''capvcdCluster'')"

definition IsNativeClusterEntityType :: "string \<Rightarrow> bool" where
  "IsNativeClusterEntityType ty = (let ss = split_on (CHR '':'') ty in
     length ss = 6 \<and> ss ! 3 = ''cse'' \<and> ss ! 4 = ''nativeCluster'')"

lemma entity_types_disjoint: "IsNativeClusterEntityType ty \<Longrightarrow> \<not> IsCAPVCDEntityType ty"
  by (auto simp: IsNativeClusterEntityType_def IsCAPVCDEntityType_def Let_def)

section \<open>The persistent volumes of a native cluster\<close>

text \<open>The loop that converts each element of the slice to a string, or fails.\<close>

fun pv_strings :: "goval list \<Rightarrow> string list res" where
  "pv_strings [] = Inr []"
| "pv_strings (VStr s # vs) =
     (case pv_strings vs of Inl e \<Rightarrow> Inl e | Inr ss \<Rightarrow> Inr (s # ss))"
| "pv_strings (v # vs) = Inl (Errorf ''unable to convert to string'' [])"

definition GetPVsFromRDE :: "defined_entity \<Rightarrow> string list res" where
  "GetPVsFromRDE rde = (case fmlookup (rdeEntity rde) ''status'' of
     None \<Rightarrow> Inl (Errorf ''could not find status entry in defined entity'' [])
   | Some (VMap statusMap) \<Rightarrow>
       (if IsNativeClusterEntityType (rdeEntityType rde) then
          (case fmlookup statusMap ''persistentVolumes'' of
             None \<Rightarrow> Inr []
           | Some VNil \<Rightarrow> Inr []
           | Some (VSlice vs) \<Rightarrow> pv_strings vs
           | Some _ \<Rightarrow> Inl (Errorf ''unable to convert to slice of interface'' []))
        else Inl (Errorf ''only native cluster is supported here'' []))
   | Some _ \<Rightarrow> Inl (Errorf ''unable to convert to map'' []))"

definition AddPVsInRDE :: "defined_entity \<Rightarrow> string list \<Rightarrow> defined_entity res" where
  "AddPVsInRDE rde updatedPvs =
     (if \<not> IsNativeClusterEntityType (rdeEntityType rde) then
        Inl (Errorf ''entity type not supported by CSI'' [])
      else (case fmlookup (rdeEntity rde) ''status'' of
        None \<Rightarrow> Inl (Errorf ''could not find status entry in defined entity'' [])
      | Some (VMap statusMap) \<Rightarrow> Inr (rde\<lparr>rdeEntity := fmupd ''status''
          (VMap (fmupd ''persistentVolumes'' (VStrings updatedPvs) statusMap)) (rdeEntity rde)\<rparr>)
      | Some _ \<Rightarrow> Inl (Errorf ''unable to convert to map'' [])))"

definition RemovePVInRDE :: "defined_entity \<Rightarrow> string list \<Rightarrow> defined_entity res" where
  "RemovePVInRDE rde updatedPvs =
     (if \<not> IsNativeClusterEntityType (rdeEntityType rde) then
        Inl (Errorf ''entity type not supported by CSI'' [])
      else (case fmlookup (rdeEntity rde) ''status'' of
        None \<Rightarrow> Inl (Errorf ''could not find status entry in defined entity'' [])
      | Some (VMap statusMap) \<Rightarrow> Inr (rde\<lparr>rdeEntity := fmupd ''status''
          (VMap (fmupd ''persistentVolumes'' (VStrings updatedPvs) statusMap)) (rdeEntity rde)\<rparr>)
      | Some _ \<Rightarrow> Inl (Errorf ''unable to convert to map'' [])))"

definition GetOldPVsFromRDE :: "status_map \<Rightarrow> string \<Rightarrow> string list res" where
  "GetOldPVsFromRDE statusMap ident = (case fmlookup statusMap OldPersistentVolumeKey of
     None \<Rightarrow> Inr []
   | Some VNil \<Rightarrow> Inr []
   | Some (VSlice vs) \<Rightarrow> pv_strings vs
   | Some _ \<Rightarrow> Inl (Errorf ''unable to convert to slice of interface'' []))"

section \<open>JSON: structs of the CSI section\<close>

record backend =  \<comment> \<open>BackendError and BackendEvent, which have the same fields\<close>
  bName :: string
  bOccurredAt :: string
  bResId :: string
  bResName :: string
  bDetails :: "status_map option"

record csi_status =
  csName :: string
  csVersion :: string
  csErrorSet :: "backend list"
  csEventSet :: "backend list"
  csVCDResourceSet :: "vcd_resource list"

definition zero_time :: string where "zero_time = ''0001-01-01T00:00:00Z''"

text \<open>Decoding a field: None is the error of \<open>json.Unmarshal\<close>; null leaves the zero value.\<close>

definition dec_string :: "goval option \<Rightarrow> string option" where
  "dec_string v = (case v of None \<Rightarrow> Some [] | Some VNil \<Rightarrow> Some [] | Some (VStr s) \<Rightarrow> Some s
     | Some _ \<Rightarrow> None)"

definition dec_map :: "goval option \<Rightarrow> status_map option option" where
  "dec_map v = (case v of None \<Rightarrow> Some None | Some VNil \<Rightarrow> Some None
     | Some (VMap m) \<Rightarrow> Some (Some m) | Some _ \<Rightarrow> None)"

definition dec_time :: "(string \<Rightarrow> string option) \<Rightarrow> goval option \<Rightarrow> string option" where
  "dec_time tt v = (case v of None \<Rightarrow> Some zero_time | Some VNil \<Rightarrow> Some zero_time
     | Some (VStr s) \<Rightarrow> tt s | Some _ \<Rightarrow> None)"

definition dec_list :: "(goval \<Rightarrow> 'a option) \<Rightarrow> goval option \<Rightarrow> 'a list option" where
  "dec_list f v = (case v of None \<Rightarrow> Some [] | Some VNil \<Rightarrow> Some []
     | Some (VSlice vs) \<Rightarrow> those (map f vs) | Some _ \<Rightarrow> None)"

definition dec_resource :: "goval \<Rightarrow> vcd_resource option" where
  "dec_resource v = (case v of
     VNil \<Rightarrow> Some (VCDResource [] [] [] None)
   | VMap m \<Rightarrow> (case (dec_string (fmlookup m ''type''), dec_string (fmlookup m ''id''),
         dec_string (fmlookup m ''name''), dec_map (fmlookup m ''additionalDetails'')) of
       (Some t, Some i, Some n, Some d) \<Rightarrow> Some (VCDResource t i n d)
     | _ \<Rightarrow> None)
   | _ \<Rightarrow> None)"

definition dec_backend :: "(string \<Rightarrow> string option) \<Rightarrow> goval \<Rightarrow> backend option" where
  "dec_backend tt v = (case v of
     VNil \<Rightarrow> Some \<lparr>bName = [], bOccurredAt = zero_time, bResId = [], bResName = [], bDetails = None\<rparr>
   | VMap m \<Rightarrow> (case (dec_string (fmlookup m ''name''), dec_time tt (fmlookup m ''occurredAt''),
         dec_string (fmlookup m ''vcdResourceId''), dec_string (fmlookup m ''vcdResourceName''),
         dec_map (fmlookup m ''additionalDetails'')) of
       (Some n, Some t, Some i, Some r, Some d) \<Rightarrow> Some
         \<lparr>bName = n, bOccurredAt = t, bResId = i, bResName = r, bDetails = d\<rparr>
     | _ \<Rightarrow> None)
   | _ \<Rightarrow> None)"

text \<open>Every value of a status map has an encoding, so that only the decoding can fail.\<close>

definition ConvertMapToCSIStatus ::
    "(string \<Rightarrow> string option) \<Rightarrow> status_map \<Rightarrow> csi_status res" where
  "ConvertMapToCSIStatus tt csiStatusMap = (let m = json_map csiStatusMap in
     case (dec_string (fmlookup m ''name''),
       dec_string (fmlookup m ''version''),
       dec_list (dec_backend tt) (fmlookup m ''errorSet''),
       dec_list (dec_backend tt) (fmlookup m ''eventSet''),
       dec_list dec_resource (fmlookup m ''vcdResourceSet'')) of
     (Some n, Some v, Some es, Some evs, Some rs) \<Rightarrow> Inr
       \<lparr>csName = n, csVersion = v, csErrorSet = es, csEventSet = evs, csVCDResourceSet = rs\<rparr>
   | _ \<Rightarrow> Inl (Errorf ''failed to marshal entity byte array to CSI entity'' []))"

text \<open>
  The struct ComponentStatus of the SDK has the three sets only; the caller uses the
  resources.
\<close>

definition convertMapToComponentStatus ::
    "(string \<Rightarrow> string option) \<Rightarrow> status_map \<Rightarrow> vcd_resource list res" where
  "convertMapToComponentStatus tt componentStatusMap = (let m = json_map componentStatusMap in
     case (dec_list (dec_backend tt) (fmlookup m ''errorSet''),
       dec_list (dec_backend tt) (fmlookup m ''eventSet''),
       dec_list dec_resource (fmlookup m ''vcdResourceSet'')) of
     (Some es, Some evs, Some rs) \<Rightarrow> Inr rs
   | _ \<Rightarrow> Inl (Errorf ''failed to read bytes from componentStatus'' []))"

text \<open>
  Encoding the struct, and decoding the bytes into a map: the error is that of a time that has no
  encoding. A field with omitempty is left out when it is empty; a time never is.
\<close>

definition enc_backend :: "(string \<Rightarrow> string option) \<Rightarrow> backend \<Rightarrow> goval option" where
  "enc_backend tt b = map_option (\<lambda>t. VMap (put_string ''name'' (utf8 (bName b))
     (fmupd ''occurredAt'' (VStr t) (put_string ''vcdResourceId'' (utf8 (bResId b))
     (put_string ''vcdResourceName'' (utf8 (bResName b))
     (put_map ''additionalDetails'' (map_option json_map (bDetails b)) fmempty))))))
     (tt (bOccurredAt b))"

definition ConvertCSIStatusToMap :: "(string \<Rightarrow> string option) \<Rightarrow> csi_status \<Rightarrow> status_map res" where
  "ConvertCSIStatusToMap tt s = (case (those (map (enc_backend tt) (csErrorSet s)),
       those (map (enc_backend tt) (csEventSet s))) of
     (Some es, Some evs) \<Rightarrow> Inr (put_string ''name'' (utf8 (csName s))
       (put_string ''version'' (utf8 (csVersion s)) (put_list ''errorSet'' es (put_list ''eventSet'' evs
       (put_list ''vcdResourceSet'' (map as_json_resource (csVCDResourceSet s)) fmempty)))))
   | _ \<Rightarrow> Inl (Errorf ''failed to unmarshal CSI entity to byte array'' []))"

section \<open>The resource set of a component\<close>

text \<open>
  Go updates the maps in place and returns the outer one. On the error path the component's
  name and version have been overwritten too; the caller drops the entity then.
\<close>

definition addToVCDResourceSet :: "(string \<Rightarrow> string option) \<Rightarrow> string \<Rightarrow> string \<Rightarrow> string \<Rightarrow>
    status_map \<Rightarrow> vcd_resource list \<Rightarrow> status_map res" where
  "addToVCDResourceSet tt component componentName componentVersion statusMap rs =
     (case fmlookup statusMap component of
        None \<Rightarrow> Inr (fmupd component (VMap (fmap_of_list [(''name'', VStr componentName),
          (''version'', VStr componentVersion), (''vcdResourceSet'', VResources rs)])) statusMap)
      | Some (VMap m) \<Rightarrow>
          (let m' = fmupd ''version'' (VStr componentVersion) (fmupd ''name'' (VStr componentName) m) in
           case convertMapToComponentStatus tt m' of
             Inl e \<Rightarrow> Inl (Errorf ''failed to convert component status map to'' [])
           | Inr old \<Rightarrow> Inr (fmupd component (VMap (fmupd ''vcdResourceSet''
               (VResources (if old = [] then rs else old @ rs)) m')) statusMap))
      | Some _ \<Rightarrow> Inl (Errorf ''failed to convert the status belonging to component'' []))"

text \<open>An empty list gives a nil map and no error.\<close>

definition UpgradeStatusMapOfRdeToLatestFormat :: "(string \<Rightarrow> string option) \<Rightarrow> string \<Rightarrow>
    status_map \<Rightarrow> vcd_resource list \<Rightarrow> string \<Rightarrow> status_map option res" where
  "UpgradeStatusMapOfRdeToLatestFormat tt version statusMap rs ident =
     (if rs = [] then Inr None
      else (case addToVCDResourceSet tt ComponentCSI CSIName version statusMap rs of
        Inl e \<Rightarrow> Inl (Errorf ''error occurred when updating VCDResource set'' [e])
      | Inr m \<Rightarrow> Inr (Some m)))"

section \<open>Lemmas\<close>

lemma pv_strings_map [simp]: "pv_strings (map VStr ss) = Inr ss"
  by (induction ss) auto

lemma pv_stringsD: "pv_strings vs = Inr ss \<Longrightarrow> vs = map VStr ss"
  by (induction vs arbitrary: ss rule: pv_strings.induct) (auto split: sum.splits)

lemma pv_strings_iff: "pv_strings vs = Inr ss \<longleftrightarrow> vs = map VStr ss"
  using pv_stringsD by auto

lemma those_map_some: "(\<And>x. x \<in> set xs \<Longrightarrow> f x = Some (g x)) \<Longrightarrow> those (map f xs) = Some (map g xs)"
  by (induction xs) auto

lemma those_none: "those (map f xs) = None \<longleftrightarrow> (\<exists>x\<in>set xs. f x = None)"
  by (induction xs) (auto split: option.splits)

text \<open>
  The entity as the server keeps it: typed slices become slices of untyped values. Its texts come
  from documents in UTF-8 and are what they were; for other texts see AddPVs_as_json below.
\<close>

primrec stored :: "goval \<Rightarrow> goval" and stored_resource :: "vcd_resource \<Rightarrow> goval" where
  "stored VNil = VNil"
| "stored (VBool b) = VBool b"
| "stored (VNum n) = VNum n"
| "stored (VStr s) = VStr s"
| "stored (VSlice vs) = VSlice (map stored vs)"
| "stored (VMap m) = VMap (fmmap stored m)"
| "stored (VStrings ss) = VSlice (map VStr ss)"
| "stored (VResources rs) = VSlice (map stored_resource rs)"
| "stored_resource (VCDResource t i n d) =
     VMap (put_string ''type'' t (put_string ''id'' i (put_string ''name'' n
       (put_map ''additionalDetails'' (map_option (fmmap stored) d) fmempty))))"

definition stored_entity :: "defined_entity \<Rightarrow> defined_entity" where
  "stored_entity rde = rde\<lparr>rdeEntity := fmmap stored (rdeEntity rde)\<rparr>"

lemma GetPVsFromRDE_iff:
  "GetPVsFromRDE rde = Inr pvs \<longleftrightarrow> IsNativeClusterEntityType (rdeEntityType rde) \<and>
     (\<exists>m. fmlookup (rdeEntity rde) ''status'' = Some (VMap m) \<and>
        (fmlookup m ''persistentVolumes'' \<in> {None, Some VNil} \<and> pvs = [] \<or>
         fmlookup m ''persistentVolumes'' = Some (VSlice (map VStr pvs))))"
  by (auto simp: GetPVsFromRDE_def pv_strings_iff split: option.splits goval.splits)

lemma AddPVsInRDE_ok:
  assumes "GetPVsFromRDE rde = Inr pvs"
  obtains m where "fmlookup (rdeEntity rde) ''status'' = Some (VMap m)"
    and "AddPVsInRDE rde pvs' = Inr (rde\<lparr>rdeEntity := fmupd ''status''
          (VMap (fmupd ''persistentVolumes'' (VStrings pvs') m)) (rdeEntity rde)\<rparr>)"
    and "RemovePVInRDE rde pvs' = AddPVsInRDE rde pvs'"
  using assms by (auto simp: GetPVsFromRDE_iff AddPVsInRDE_def RemovePVInRDE_def)

lemma AddPVs_stored: "AddPVsInRDE rde pvs = Inr rde' \<Longrightarrow> GetPVsFromRDE (stored_entity rde') = Inr pvs"
  by (auto simp: AddPVsInRDE_def GetPVsFromRDE_iff stored_entity_def comp_def
      split: if_splits option.splits goval.splits)

text \<open>What is read from the entity after the marshalling of Go, for texts of any bytes.\<close>

lemma AddPVs_as_json:
  "AddPVsInRDE rde pvs = Inr rde' \<Longrightarrow>
   GetPVsFromRDE (rde'\<lparr>rdeEntity := json_map (rdeEntity rde')\<rparr>) = Inr (map utf8 pvs)"
  by (auto simp: AddPVsInRDE_def GetPVsFromRDE_iff json_map_lookup comp_def simp flip: json_map_def
      split: if_splits option.splits goval.splits)

section \<open>Examples\<close>

definition native0 :: defined_entity where
  "native0 = \<lparr>rdeId = ''rde1'', rdeEntityType = ''urn:vcloud:type:cse:nativeCluster:2.0.0'',
     rdeName = ''c1'', rdeEntity = fmap_of_list [(''status'',
       VMap (fmap_of_list [(''persistentVolumes'', VSlice [VStr ''id0''])]))]\<rparr>"

definition capvcd0 :: defined_entity where
  "capvcd0 = \<lparr>rdeId = ''rde2'', rdeEntityType = ''urn:vcloud:type:vmware:capvcdCluster:1.1.0'',
     rdeName = ''c2'', rdeEntity = fmap_of_list [(''status'', VMap (fmap_of_list
       [(''csi'', VMap (fmap_of_list [(''name'', VStr ''csi''), (''version'', VStr ''1.4''),
          (''vcdResourceSet'', VSlice [VMap (fmap_of_list [(''name'', VStr ''pvc0'')])])]))]))]\<rparr>"

definition csi0 :: csi_status where
  "csi0 = \<lparr>csName = ''csi'', csVersion = ''1.4'',
     csErrorSet = [\<lparr>bName = ''DiskQueryError'', bOccurredAt = zero_time, bResId = [], bResName = [],
       bDetails = None\<rparr>], csEventSet = [],
     csVCDResourceSet = [VCDResource ResourcePersistentVolume ''id1'' ''pvc1'' None]\<rparr>"

lemma entity_type_examples [simp]:
  "IsNativeClusterEntityType (rdeEntityType native0)"
  "IsCAPVCDEntityType (rdeEntityType capvcd0)"
  by (code_simp, code_simp)

section \<open>Properties\<close>

text \<open>
  The list of volumes round-trips: what AddPVsInRDE puts into an entity is what
  GetPVsFromRDE reads from it once the server has stored it, and the rest of the entity and
  of its status is what it was.
\<close>

theorem AddPVs_roundtrip:
  assumes "AddPVsInRDE rde pvs = Inr rde'"
  shows "GetPVsFromRDE (stored_entity rde') = Inr pvs \<and>
    (\<forall>k. k \<noteq> ''status'' \<longrightarrow> fmlookup (rdeEntity rde') k = fmlookup (rdeEntity rde) k)"
  using assms AddPVs_stored [OF assms]
  by (auto simp: AddPVsInRDE_def split: if_splits option.splits goval.splits)

theorem AddPVs_roundtrip_witness:
  "\<exists>rde'. AddPVsInRDE native0 [''id0'', ''id1''] = Inr rde' \<and>
     GetPVsFromRDE (stored_entity rde') = Inr [''id0'', ''id1'']"
proof -
  obtain rde' where *: "AddPVsInRDE native0 [''id0'', ''id1''] = Inr rde'"
    by (simp add: AddPVsInRDE_def) (simp add: native0_def fmap_of_list.rep_eq)
  then show ?thesis
    using AddPVs_roundtrip [OF *] by blast
qed

text \<open>
  Adding to the resource set of a component appends the new resources to the ones that
  were there, records the component's name and version, and leaves every other component of
  the status as it was.
\<close>

theorem addToVCDResourceSet_appends:
  assumes "addToVCDResourceSet tt component n v m rs = Inr m'"
  shows "\<exists>cm old. fmlookup m' component = Some (VMap cm) \<and>
      fmlookup cm ''vcdResourceSet'' = Some (VResources (old @ rs)) \<and>
      fmlookup cm ''name'' = Some (VStr n) \<and> fmlookup cm ''version'' = Some (VStr v) \<and>
      (case fmlookup m component of
         Some (VMap om) \<Rightarrow> convertMapToComponentStatus tt om = Inr old \<and>
           (\<forall>k. k \<notin> {''vcdResourceSet'', ''name'', ''version''} \<longrightarrow> fmlookup cm k = fmlookup om k)
       | _ \<Rightarrow> old = []) \<and>
      (\<forall>k. k \<noteq> component \<longrightarrow> fmlookup m' k = fmlookup m k)"
proof (cases "fmlookup m component")
  case None
  then show ?thesis
    using assms by (auto simp: addToVCDResourceSet_def fmap_of_list.rep_eq)
next
  case (Some x)
  then obtain om where x: "fmlookup m component = Some (VMap om)"
    using assms by (cases x) (auto simp: addToVCDResourceSet_def)
  let ?m = "fmupd ''version'' (VStr v) (fmupd ''name'' (VStr n) om)"
  have "fmlookup (json_map ?m) ''errorSet'' = fmlookup (json_map om) ''errorSet''"
    "fmlookup (json_map ?m) ''eventSet'' = fmlookup (json_map om) ''eventSet''"
    "fmlookup (json_map ?m) ''vcdResourceSet'' = fmlookup (json_map om) ''vcdResourceSet''"
    by (simp_all add: json_map_lookup)
  then have same: "convertMapToComponentStatus tt ?m = convertMapToComponentStatus tt om"
    unfolding convertMapToComponentStatus_def Let_def by (simp only:)
  with assms x obtain old where old: "convertMapToComponentStatus tt om = Inr old"
    by (cases "convertMapToComponentStatus tt om")
      (auto simp: addToVCDResourceSet_def Let_def)
  show ?thesis
    using assms x same old
    by (intro exI [of _ "fmupd ''vcdResourceSet'' (VResources (old @ rs)) ?m"] exI [of _ old])
      (auto simp: addToVCDResourceSet_def Let_def split: if_splits)
qed

theorem addToVCDResourceSet_appends_witness:
  "\<exists>m' cm. addToVCDResourceSet Some ''csi'' ''n'' ''v'' fmempty [VCDResource [] ''id'' [] None] = Inr m' \<and>
     fmlookup m' ''csi'' = Some (VMap cm) \<and>
     fmlookup cm ''vcdResourceSet'' = Some (VResources [VCDResource [] ''id'' [] None])"
proof -
  obtain m' where *: "addToVCDResourceSet Some ''csi'' ''n'' ''v'' fmempty
      [VCDResource [] ''id'' [] None] = Inr m'"
    by (simp add: addToVCDResourceSet_def)
  then show ?thesis
    using addToVCDResourceSet_appends [OF *] by auto
qed

text \<open>
  What a struct is after the round trip: its texts in UTF-8, its details decoded, and details
  without an entry left out; and when that changes nothing.
\<close>

definition normal_details :: "status_map option \<Rightarrow> status_map option" where
  "normal_details d = (case d of None \<Rightarrow> None | Some m \<Rightarrow> if m = fmempty then None else Some (json_map m))"

definition normal_backend :: "backend \<Rightarrow> backend" where
  "normal_backend b = b\<lparr>bName := utf8 (bName b), bResId := utf8 (bResId b), bResName := utf8 (bResName b),
     bDetails := normal_details (bDetails b)\<rparr>"

definition normal_resource :: "vcd_resource \<Rightarrow> vcd_resource" where
  "normal_resource r = VCDResource (utf8 (resType r)) (utf8 (resID r)) (utf8 (resName r))
     (normal_details (resDetails r))"

definition normal_status :: "csi_status \<Rightarrow> csi_status" where
  "normal_status s = \<lparr>csName = utf8 (csName s), csVersion = utf8 (csVersion s),
     csErrorSet = map normal_backend (csErrorSet s), csEventSet = map normal_backend (csEventSet s),
     csVCDResourceSet = map normal_resource (csVCDResourceSet s)\<rparr>"

definition plain_details :: "status_map option \<Rightarrow> bool" where
  "plain_details d \<longleftrightarrow> (case d of None \<Rightarrow> True | Some m \<Rightarrow> m \<noteq> fmempty \<and> json_map m = m)"

definition plain_status :: "csi_status \<Rightarrow> bool" where
  "plain_status s \<longleftrightarrow> utf8 (csName s) = csName s \<and> utf8 (csVersion s) = csVersion s \<and>
     list_all (\<lambda>b. utf8 (bName b) = bName b \<and> utf8 (bResId b) = bResId b \<and> utf8 (bResName b) = bResName b \<and>
       plain_details (bDetails b)) (csErrorSet s @ csEventSet s) \<and>
     list_all (\<lambda>r. utf8 (resType r) = resType r \<and> utf8 (resID r) = resID r \<and> utf8 (resName r) = resName r \<and>
       plain_details (resDetails r)) (csVCDResourceSet s)"

text \<open>The text of a time is its own encoding, in UTF-8.\<close>

definition time_text :: "(string \<Rightarrow> string option) \<Rightarrow> string \<Rightarrow> bool" where
  "time_text tt t \<longleftrightarrow> tt t = Some t \<and> utf8 t = t"

lemma plain_normal: "plain_status s \<Longrightarrow> normal_status s = s"
proof -
  have details: "plain_details d \<Longrightarrow> normal_details d = d" for d
    by (auto simp: plain_details_def normal_details_def split: option.splits)
  assume "plain_status s"
  then show ?thesis
    unfolding plain_status_def normal_status_def
    by (cases s) (auto simp: list_all_iff normal_backend_def normal_resource_def details intro!: map_idI)
qed

lemma as_json_resource_fields: "as_json_resource r = VMap (put_string ''type'' (utf8 (resType r))
     (put_string ''id'' (utf8 (resID r)) (put_string ''name'' (utf8 (resName r))
     (put_map ''additionalDetails'' (map_option json_map (resDetails r)) fmempty))))"
proof -
  have "json_map = (\<lambda>x. text_keys (fmmap as_json x))" by (simp add: fun_eq_iff json_map_def)
  then show ?thesis by (cases r) (simp add: option.map_comp comp_def)
qed

lemma dec_enc_resource: "dec_resource (as_json_resource r) = Some (normal_resource r)"
  unfolding as_json_resource_fields
  by (auto simp: dec_resource_def normal_resource_def normal_details_def
      put_string_def put_map_def dec_string_def dec_map_def split: option.splits)

lemma dec_enc_backend:
  assumes "time_text tt (bOccurredAt b)"
  obtains v where "enc_backend tt b = Some v" and "as_json v = v" and "dec_backend tt v = Some (normal_backend b)"
proof -
  let ?m = "put_string ''name'' (utf8 (bName b)) (fmupd ''occurredAt'' (VStr (bOccurredAt b))
     (put_string ''vcdResourceId'' (utf8 (bResId b)) (put_string ''vcdResourceName'' (utf8 (bResName b))
     (put_map ''additionalDetails'' (map_option json_map (bDetails b)) fmempty))))"
  have "json_ok ?m" using assms by (intro json_ok_put) (auto simp: time_text_def)
  then have "as_json (VMap ?m) = VMap ?m" using json_map_fixed by (simp flip: json_map_def)
  moreover have "dec_backend tt (VMap ?m) = Some (normal_backend b)"
    using assms by (cases b) (auto simp: dec_backend_def normal_backend_def normal_details_def time_text_def
        put_string_def put_map_def dec_string_def dec_map_def dec_time_def split: option.splits)
  moreover have "enc_backend tt b = Some (VMap ?m)" using assms by (simp add: enc_backend_def time_text_def)
  ultimately show thesis using that by blast
qed

lemma dec_enc_backends:
  assumes "\<forall>b\<in>set bs. time_text tt (bOccurredAt b)"
  obtains vs where "those (map (enc_backend tt) bs) = Some vs" and "list_all (\<lambda>v. as_json v = v) vs"
    and "those (map (dec_backend tt) vs) = Some (map normal_backend bs)" and "vs = [] \<longleftrightarrow> bs = []"
proof -
  have "\<exists>v. enc_backend tt b = Some v \<and> as_json v = v \<and> dec_backend tt v = Some (normal_backend b)"
    if "b \<in> set bs" for b
    using assms that dec_enc_backend by metis
  then obtain f where f: "\<And>b. b \<in> set bs \<Longrightarrow> enc_backend tt b = Some (f b) \<and> as_json (f b) = f b \<and>
      dec_backend tt (f b) = Some (normal_backend b)"
    by metis
  show thesis
    by (rule that [of "map f bs"])
      (use f in \<open>auto simp: list_all_iff intro!: those_map_some those_map_some [of bs _ normal_backend, simplified]\<close>)
qed

text \<open>
  C39: the CSI section through the struct and back. A status with a time that has no encoding is
  an error; for any other the map that it becomes is decoded into the same struct, but for what
  JSON cannot keep: texts become UTF-8, details become decoded values, and details without an
  entry are left out. So a status whose texts are UTF-8 and whose details are decoded values
  with an entry comes back as it was.
\<close>

theorem CSIStatus_roundtrip:
  assumes "\<forall>b\<in>set (csErrorSet s) \<union> set (csEventSet s). time_text tt (bOccurredAt b) \<or> tt (bOccurredAt b) = None"
  shows "(if \<exists>b\<in>set (csErrorSet s) \<union> set (csEventSet s). tt (bOccurredAt b) = None
     then \<exists>e. ConvertCSIStatusToMap tt s = Inl e
     else \<exists>m. ConvertCSIStatusToMap tt s = Inr m \<and> ConvertMapToCSIStatus tt m = Inr (normal_status s)) \<and>
    (plain_status s \<longrightarrow> normal_status s = s)"
proof (cases "\<exists>b\<in>set (csErrorSet s) \<union> set (csEventSet s). tt (bOccurredAt b) = None")
  case True
  then have "those (map (enc_backend tt) (csErrorSet s)) = None \<or> those (map (enc_backend tt) (csEventSet s)) = None"
    by (auto simp: those_none enc_backend_def)
  then have "\<exists>e. ConvertCSIStatusToMap tt s = Inl e"
    by (auto simp: ConvertCSIStatusToMap_def split: option.splits)
  then show ?thesis using True plain_normal by simp
next
  case False
  then have "time_text tt (bOccurredAt b)" if "b \<in> set (csErrorSet s) \<union> set (csEventSet s)" for b
    using assms that by blast
  then have times: "\<forall>b\<in>set (csErrorSet s). time_text tt (bOccurredAt b)"
      "\<forall>b\<in>set (csEventSet s). time_text tt (bOccurredAt b)"
    by simp_all
  obtain es where es: "those (map (enc_backend tt) (csErrorSet s)) = Some es" "list_all (\<lambda>v. as_json v = v) es"
      "those (map (dec_backend tt) es) = Some (map normal_backend (csErrorSet s))" "es = [] \<longleftrightarrow> csErrorSet s = []"
    using dec_enc_backends [OF times(1)] .
  obtain evs where evs: "those (map (enc_backend tt) (csEventSet s)) = Some evs" "list_all (\<lambda>v. as_json v = v) evs"
      "those (map (dec_backend tt) evs) = Some (map normal_backend (csEventSet s))" "evs = [] \<longleftrightarrow> csEventSet s = []"
    using dec_enc_backends [OF times(2)] .
  have rs: "those (map dec_resource (map as_json_resource rs)) = Some (map normal_resource rs)" for rs
    by (induction rs) (simp_all add: dec_enc_resource)
  let ?m = "put_string ''name'' (utf8 (csName s)) (put_string ''version'' (utf8 (csVersion s))
     (put_list ''errorSet'' es (put_list ''eventSet'' evs
     (put_list ''vcdResourceSet'' (map as_json_resource (csVCDResourceSet s)) fmempty))))"
  have "ConvertCSIStatusToMap tt s = Inr ?m" using es(1) evs(1) by (simp add: ConvertCSIStatusToMap_def)
  moreover have "json_map ?m = ?m"
    by (intro json_map_fixed json_ok_put) (use es(2) evs(2) in \<open>simp_all add: list_all_iff as_json_idem\<close>)
  then have "ConvertMapToCSIStatus tt ?m = Inr (normal_status s)"
    unfolding ConvertMapToCSIStatus_def Let_def
    using es(3,4) evs(3,4) rs by (simp add: put_string_def put_list_def dec_string_def dec_list_def normal_status_def)
  ultimately show ?thesis using False plain_normal by simp
qed

text \<open>An example with typed details and a text that is not UTF-8.\<close>

definition tt0 :: "string \<Rightarrow> string option" where
  "tt0 t = (if t = zero_time then Some t else None)"

definition csi1 :: csi_status where
  "csi1 = csi0\<lparr>csVersion := [CHR 0xFF], csVCDResourceSet := [VCDResource ResourcePersistentVolume ''id1'' ''pvc1''
     (Some (fmap_of_list [(''old'', VStrings [''id0''])]))]\<rparr>"

theorem CSIStatus_roundtrip_witness:
  "(\<exists>m. ConvertCSIStatusToMap tt0 csi1 = Inr m \<and> ConvertMapToCSIStatus tt0 m = Inr (normal_status csi1)) \<and>
   csVersion (normal_status csi1) = replacement \<and>
   fmlookup (the (resDetails (csVCDResourceSet (normal_status csi1) ! 0))) ''old'' = Some (VSlice [VStr ''id0''])"
proof -
  have a: "ascii zero_time" "ascii ''old''" "ascii ''id0''" by (simp_all add: zero_time_def ascii_def byte_def)
  have time: "bOccurredAt b = zero_time" if "b \<in> set (csErrorSet csi1) \<union> set (csEventSet csi1)" for b
    using that by (auto simp: csi1_def csi0_def)
  have "time_text tt0 zero_time" using utf8_ascii [OF a(1)] by (simp add: time_text_def tt0_def)
  then have "\<exists>m. ConvertCSIStatusToMap tt0 csi1 = Inr m \<and> ConvertMapToCSIStatus tt0 m = Inr (normal_status csi1)"
    using CSIStatus_roundtrip [of csi1 tt0] time by (auto simp: tt0_def split: if_splits)
  moreover have "csVersion (normal_status csi1) = replacement"
    by (simp add: csi1_def normal_status_def rune_tail_def tail_length_def byte_def)
  moreover have "fmlookup (json_map (fmap_of_list [(''old'', VStrings [''id0''])])) ''old'' =
      Some (VSlice [VStr ''id0''])"
    using utf8_ascii [OF a(3)] by (simp add: json_map_lookup [OF a(2)] fmap_of_list.rep_eq)
  then have "fmlookup (the (resDetails (csVCDResourceSet (normal_status csi1) ! 0))) ''old'' = Some (VSlice [VStr ''id0''])"
    by (auto simp: csi1_def normal_status_def normal_resource_def normal_details_def split: option.splits)
  ultimately show ?thesis by blast
qed

end
