(* ===== verification/RdeSync.thy ===== *)
theory RdeSync
  imports DiskLookup RdeStatus
begin

text \<open>
  Keeping a cluster's runtime-defined entity up to date (the second half of
  pkg/vcdcsiclient/disks.go): the error and event sets, adding and removing a persistent
  volume, the upgrade of the old list of volumes, and the conversion of the CSI section. The
  updates are loops that read the entity and its etag, change the copy, and write it back,
  again after a conflict, at most MaxRDEUpdateRetries times.
\<close>

section \<open>Error and event sets\<close>

definition AddToErrorSet :: "disk_manager \<Rightarrow> string \<Rightarrow> string \<Rightarrow> string \<Rightarrow> details \<Rightarrow> unit res vcd"
where
  "AddToErrorSet dm errorType rid rname ds = RDE_AddToErrorSet (ClusterID dm) errorType rid rname ds"

definition RemoveFromErrorSet :: "disk_manager \<Rightarrow> string \<Rightarrow> string \<Rightarrow> string \<Rightarrow> unit res vcd" where
  "RemoveFromErrorSet dm errorType rid rname =
     RDE_RemoveErrorByNameOrId (ClusterID dm) errorType rid rname"

definition AddToEventSet :: "disk_manager \<Rightarrow> string \<Rightarrow> string \<Rightarrow> string \<Rightarrow> details \<Rightarrow> unit res vcd"
where
  "AddToEventSet dm eventType rid rname ds = RDE_AddToEventSet (ClusterID dm) eventType rid rname ds"

lemma sat_sets [wp]:
  "sat (AddToErrorSet dm ty rid rn ds) env h Q =
     Q (Done (q_rde env h)) [EvAddError (ClusterID dm) ty rid rn ds (q_rde env h)]"
  "sat (RemoveFromErrorSet dm ty rid rn) env h Q =
     Q (Done (q_rde env h)) [EvRemoveError (ClusterID dm) ty rid rn (q_rde env h)]"
  "sat (AddToEventSet dm ty rid rn ds) env h Q =
     Q (Done (q_rde env h)) [EvAddEvent (ClusterID dm) ty rid rn ds (q_rde env h)]"
  by (simp_all add: AddToErrorSet_def RemoveFromErrorSet_def AddToEventSet_def vcd_calls wp)

lemma emits_sets [trace_rules]:
  "(\<And>r. P (EvAddError (ClusterID dm) ty rid rn ds r)) \<Longrightarrow> emits P (AddToErrorSet dm ty rid rn ds)"
  "(\<And>r. P (EvRemoveError (ClusterID dm) ty rid rn r)) \<Longrightarrow> emits P (RemoveFromErrorSet dm ty rid rn)"
  "(\<And>r. P (EvAddEvent (ClusterID dm) ty rid rn ds r)) \<Longrightarrow> emits P (AddToEventSet dm ty rid rn ds)"
  by (simp_all add: AddToErrorSet_def RemoveFromErrorSet_def AddToEventSet_def emits_vcd_calls)

section \<open>Volumes of a native or a CAPVCD cluster\<close>

definition MaxRDEUpdateRetries :: nat where "MaxRDEUpdateRetries = 10"
definition StatusOK :: int where "StatusOK = 200"
definition StatusPreconditionFailed :: int where "StatusPreconditionFailed = 412"

text \<open>The organisation of the cluster, which every update looks up first.\<close>

definition clusterOrgId :: "disk_manager \<Rightarrow> string res vcd" where
  "clusterOrgId dm = attempt (GetOrgByName (ClusterOrgName (VCDClient dm)))
     (\<lambda>e. fail (Errorf ''failed to get org by name'' [e]))
     (\<lambda>clusterOrg. case clusterOrg of
        Some (Some orgId) \<Rightarrow> ok orgId
      | _ \<Rightarrow> fail (Errorf ''obtained nil org when getting org by name'' []))"

definition GetRDEPersistentVolumes :: "defined_entity \<Rightarrow> string list res" where
  "GetRDEPersistentVolumes rde = (case GetPVsFromRDE rde of
     Inl e \<Rightarrow> Inl (Errorf ''failed to retrieve PVs from RDE'' [e])
   | Inr pvs \<Rightarrow> Inr pvs)"

text \<open>Both functions return the response, which is nil when no request was sent, and the error.\<close>

definition addRDEPersistentVolumes :: "disk_manager \<Rightarrow> string list \<Rightarrow> string \<Rightarrow> defined_entity \<Rightarrow>
    (int option \<times> goerr option) vcd" where
  "addRDEPersistentVolumes dm updatedPvs etag defEnt = (case AddPVsInRDE defEnt updatedPvs of
     Inl e \<Rightarrow> ret (None, Some (Errorf ''failed to replace persistentVolumes section'' [e]))
   | Inr updatedRDE \<Rightarrow> attempt (clusterOrgId dm) (\<lambda>e. ret (None, Some e))
       (\<lambda>org. bind (UpdateDefinedEntity updatedRDE etag (ClusterID dm) org) (\<lambda>(_, resp, err).
          case err of
            Some e \<Rightarrow> ret (resp, Some (Errorf ''error when updating defined entity'' [e]))
          | None \<Rightarrow> ret (resp, None))))"

definition removeRDEPersistentVolumes :: "disk_manager \<Rightarrow> string list \<Rightarrow> string \<Rightarrow> defined_entity \<Rightarrow>
    (int option \<times> goerr option) vcd" where
  "removeRDEPersistentVolumes dm updatedPvs etag defEnt = (case RemovePVInRDE defEnt updatedPvs of
     Inl e \<Rightarrow> ret (None, Some (Errorf ''failed to replace persistentVolumes section'' [e]))
   | Inr updatedRDE \<Rightarrow> attempt (clusterOrgId dm) (\<lambda>e. ret (None, Some e))
       (\<lambda>org. bind (UpdateDefinedEntity updatedRDE etag (ClusterID dm) org) (\<lambda>(_, resp, err).
          case err of
            Some e \<Rightarrow> ret (resp, Some (Errorf ''error when updating defined entity'' [e]))
          | None \<Rightarrow> ret (resp, None))))"

text \<open>One round of each loop: Some is a return, None goes on to the next round.\<close>

definition addPvRound :: "disk_manager \<Rightarrow> string \<Rightarrow> string \<Rightarrow> unit res option vcd" where
  "addPvRound dm addPvId addPvName = attempt (clusterOrgId dm) (\<lambda>e. ret (Some (Inl e)))
     (\<lambda>org. bind (GetDefinedEntity (ClusterID dm) org) (\<lambda>(defEnt, _, etag, err). case err of
        Some e \<Rightarrow> ret (Some (Inl (Errorf ''error when getting defined entity'' [e])))
      | None \<Rightarrow>
          if IsNativeClusterEntityType (rdeEntityType defEnt) then
            (case GetRDEPersistentVolumes defEnt of
               Inl e \<Rightarrow> ret (Some (Inl (Errorf ''error for getting current RDE PVs'' [e])))
             | Inr currPvs \<Rightarrow>
                 if addPvName \<in> set currPvs then ret (Some (Inr ()))
                 else bind (addRDEPersistentVolumes dm (currPvs @ [addPvId]) etag defEnt)
                   (\<lambda>(resp, err). case err of
                      None \<Rightarrow> ret (Some (Inr ()))
                    | Some e \<Rightarrow> (case resp of
                        None \<Rightarrow> panic ''nil response''
                      | Some st \<Rightarrow> if st = StatusPreconditionFailed then ret None
                          else ret (Some (Inl (Errorf ''error when adding pv'' [e]))))))
          else if IsCAPVCDEntityType (rdeEntityType defEnt) then
            attempt (RDE_AddToVCDResourceSet (ClusterID dm) ResourcePersistentVolume addPvName addPvId)
              (\<lambda>e. ret (Some (Inl (Errorf ''failed to add persistent volume to VCDResourceSet'' []))))
              (\<lambda>_. ret (Some (Inr ())))
          else ret (Some (Inl (Errorf ''entity type not supported by CSI'' [])))))"

definition addPvToRDE :: "disk_manager \<Rightarrow> string \<Rightarrow> string \<Rightarrow> unit res vcd" where
  "addPvToRDE dm addPvId addPvName = retry MaxRDEUpdateRetries (addPvRound dm addPvId addPvName)
     (Inl (Errorf ''unable to update rde due to incorrect etag'' []))"

fun index_of :: "string \<Rightarrow> string list \<Rightarrow> nat option" where
  "index_of x [] = None"
| "index_of x (y # ys) = (if y = x then Some 0 else map_option Suc (index_of x ys))"

definition removePvRound :: "disk_manager \<Rightarrow> string \<Rightarrow> string \<Rightarrow> unit res option vcd" where
  "removePvRound dm removePvId removePvName = attempt (clusterOrgId dm) (\<lambda>e. ret (Some (Inl e)))
     (\<lambda>org. bind (GetDefinedEntity (ClusterID dm) org) (\<lambda>(defEnt, _, etag, err). case err of
        Some e \<Rightarrow> ret (Some (Inl (Errorf ''error when getting defined entity'' [e])))
      | None \<Rightarrow>
          if IsNativeClusterEntityType (rdeEntityType defEnt) then
            (case GetRDEPersistentVolumes defEnt of
               Inl e \<Rightarrow> ret (Some (Inl (Errorf ''error for getting current RDE PVs'' [e])))
             | Inr currPvs \<Rightarrow> (case index_of removePvId currPvs of
                 None \<Rightarrow> ret (Some (Inr ()))
               | Some foundIdx \<Rightarrow>
                   bind (removeRDEPersistentVolumes dm
                       (take foundIdx currPvs @ drop (foundIdx + 1) currPvs) etag defEnt)
                     (\<lambda>(resp, err). case err of
                        None \<Rightarrow> ret (Some (Inr ()))
                      | Some e \<Rightarrow> (case resp of
                          None \<Rightarrow> panic ''nil response''
                        | Some st \<Rightarrow> if st \<noteq> StatusPreconditionFailed
                            then ret (Some (Inl (Errorf ''error when removing pv'' [e])))
                            else ret None))))
          else if IsCAPVCDEntityType (rdeEntityType defEnt) then
            attempt (RDE_RemoveFromVCDResourceSet (ClusterID dm) ResourcePersistentVolume removePvName)
              (\<lambda>e. ret (Some (Inl (Errorf ''failed to remove persistent volume from VCDResourceSet'' []))))
              (\<lambda>_. ret (Some (Inr ())))
          else ret None))"

definition removePvFromRDE :: "disk_manager \<Rightarrow> string \<Rightarrow> string \<Rightarrow> unit res vcd" where
  "removePvFromRDE dm removePvId removePvName =
     retry MaxRDEUpdateRetries (removePvRound dm removePvId removePvName)
       (Inl (Errorf ''unable to update rde due to incorrect etag'' []))"

section \<open>Upgrade of the old list of volumes\<close>

text \<open>
  Each old volume ID is looked up; one that cannot be found is kept by its ID without a name
  and its error is reported after the update.
\<close>

fun pvDetails :: "disk_manager \<Rightarrow> string list \<Rightarrow> (vcd_resource list \<times> (string \<times> goerr) list) vcd"
where
  "pvDetails dm [] = ret ([], [])"
| "pvDetails dm (oldPVId # ids) =
     bind (GetDiskByNameOrId dm oldPVId (ZoneMap dm) (ClusterOVDCIdentifier (VCDClient dm)))
       (\<lambda>r. bind (pvDetails dm ids) (\<lambda>(rs, errs). case r of
          Inl e \<Rightarrow> ret (VCDResource ResourcePersistentVolume oldPVId [] None # rs, (oldPVId, e) # errs)
        | Inr d \<Rightarrow> ret (VCDResource ResourcePersistentVolume (dId d) (dName d) None # rs, errs)))"

fun reportQueryErrors :: "disk_manager \<Rightarrow> (string \<times> goerr) list \<Rightarrow> unit vcd" where
  "reportQueryErrors dm [] = ret ()"
| "reportQueryErrors dm ((oldPVId, e) # errs) =
     ignore (RDE_AddToErrorSet (ClusterID dm) ''DiskQueryError'' oldPVId []
        [(''Detailed Error'', DText (error_text e))])
       (reportQueryErrors dm errs)"

definition reportFormatError :: "disk_manager \<Rightarrow> details \<Rightarrow> unit res option vcd" where
  "reportFormatError dm ds =
     ignore (RDE_AddToErrorSet (ClusterID dm) ''RdeIncorrectFormatError'' [] [] ds) (ret (Some (Inr ())))"

definition putUpgradedStatus :: "disk_manager \<Rightarrow> string \<Rightarrow> string \<Rightarrow> defined_entity \<Rightarrow>
    status_map option \<Rightarrow> (string \<times> goerr) list \<Rightarrow> unit res option vcd" where
  "putUpgradedStatus dm org etag rde updatedMap errs =
     (let status = (case updatedMap of None \<Rightarrow> VNil | Some m \<Rightarrow> VMap (fmdrop OldPersistentVolumeKey m)) in
      bind (UpdateDefinedEntity (rde\<lparr>rdeEntity := fmupd ''status'' status (rdeEntity rde)\<rparr>) etag
          (ClusterID dm) org)
        (\<lambda>(_, resp, err). ignore (reportQueryErrors dm errs)
           (case resp of
              Some st \<Rightarrow> if st \<noteq> StatusOK then ret None else ret (Some (Inr ()))
            | None \<Rightarrow> ret (Some (Inr ())))))"

definition upgradeOldPvs :: "disk_manager \<Rightarrow> string \<Rightarrow> string \<Rightarrow> defined_entity \<Rightarrow> status_map \<Rightarrow>
    string list \<Rightarrow> unit res option vcd" where
  "upgradeOldPvs dm org etag rde statusMap oldPvs =
     (if oldPvs = [] then putUpgradedStatus dm org etag rde (Some statusMap) []
      else bind (pvDetails dm oldPvs) (\<lambda>(rs, errs).
        bind DriverVersion (\<lambda>v. bind TimeText (\<lambda>tt.
          case UpgradeStatusMapOfRdeToLatestFormat tt v statusMap rs (ClusterID dm) of
            Inl e \<Rightarrow> reportFormatError dm []
          | Inr updatedMap \<Rightarrow> putUpgradedStatus dm org etag rde updatedMap errs))))"

definition upgradeRound :: "disk_manager \<Rightarrow> unit res option vcd" where
  "upgradeRound dm = attempt (clusterOrgId dm) (\<lambda>e. ret (Some (Inl e)))
     (\<lambda>org. bind (GetDefinedEntity (ClusterID dm) org) (\<lambda>(rde, _, etag, err). case err of
        Some e \<Rightarrow> ret (Some (Inl (Errorf ''error when getting defined entity from VCD'' [e])))
      | None \<Rightarrow> (case fmlookup (rdeEntity rde) ''status'' of
          None \<Rightarrow> ret (Some (Inr ()))
        | Some (VMap statusMap) \<Rightarrow>
            (case GetOldPVsFromRDE statusMap (ClusterID dm) of
               Inl e \<Rightarrow> reportFormatError dm [(''Detailed Error'', DText (error_text e))]
             | Inr oldPvs \<Rightarrow> upgradeOldPvs dm org etag rde statusMap oldPvs)
        | Some _ \<Rightarrow> reportFormatError dm [])))"

definition UpgradeRDEPersistentVolumes :: "disk_manager \<Rightarrow> unit res vcd" where
  "UpgradeRDEPersistentVolumes dm = retry MaxRDEUpdateRetries (upgradeRound dm)
     (Inl (Errorf ''failed to upgrade CSI Persistent Volumes section of the RDE'' []))"

section \<open>Conversion of the CSI section to a new version\<close>

definition convertRound :: "disk_manager \<Rightarrow> string \<Rightarrow> string \<Rightarrow> defined_entity res option vcd" where
  "convertRound dm dstVersion org = bind (GetDefinedEntity (ClusterID dm) org)
     (\<lambda>(src, resp, etag, err). case err of
        Some e \<Rightarrow> ret (Some (Inl (Errorf ''error when getting defined entity'' [e])))
      | None \<Rightarrow> (case resp of
          None \<Rightarrow> ret (Some (Inl (Errorf ''unexpected response when fetching the defined entity'' [])))
        | Some st \<Rightarrow>
            if st \<noteq> StatusOK then ret (Some (Inl (Errorf ''obtained unexpected response status code'' [])))
            else (case fmlookup (rdeEntity src) ''status'' of
              None \<Rightarrow> ret (Some (Inl (Errorf ''key Status is missing in the RDE'' [])))
            | Some (VMap srcStatus) \<Rightarrow> (case fmlookup srcStatus ComponentCSI of
                Some (VMap csi) \<Rightarrow> bind TimeText (\<lambda>tt. case ConvertMapToCSIStatus tt csi of
                  Inl e \<Rightarrow> ret (Some (Inl (Errorf ''failed to convert RDE CSI status map'' [e])))
                | Inr cs \<Rightarrow> (case ConvertCSIStatusToMap tt (cs\<lparr>csVersion := dstVersion\<rparr>) of
                    Inl e \<Rightarrow> ret (Some (Inl (Errorf ''failed to convert upgraded RDE CAPVCD Status'' [])))
                  | Inr dstCSIStatusMap \<Rightarrow>
                    bind (UpdateDefinedEntity (src\<lparr>rdeEntity := fmupd ''status''
                        (VMap (fmupd ComponentCSI (VMap dstCSIStatusMap) srcStatus)) (rdeEntity src)\<rparr>)
                        etag (ClusterID dm) org)
                      (\<lambda>(updatedRde, resp, err). case err of
                         Some e \<Rightarrow> ret (Some (Inl (Errorf ''error when upgrading CSI'' [e])))
                       | None \<Rightarrow> (case resp of
                           None \<Rightarrow> ret (Some (Inl (Errorf ''obtained nil response'' [])))
                         | Some st \<Rightarrow>
                             if st = StatusPreconditionFailed then ret None
                             else if st \<noteq> StatusOK then ret None
                             else ret (Some (Inr updatedRde))))))
              | _ \<Rightarrow> ret (Some (Inr src)))
            | Some _ \<Rightarrow> ret (Some (Inl (Errorf ''failed to convert RDE Status'' []))))))"

definition ConvertToLatestCSIVersionFormat :: "disk_manager \<Rightarrow> string \<Rightarrow> defined_entity res vcd" where
  "ConvertToLatestCSIVersionFormat dm dstVersion = attempt (clusterOrgId dm) (\<lambda>e. fail e)
     (\<lambda>org. retry MaxRDEUpdateRetries (convertRound dm dstVersion org)
        (Inl (Errorf ''failed to upgrade CSI of RDE'' [])))"

section \<open>The calls of the bookkeeping\<close>

lemma emits_clusterOrgId [trace_rules]: "emits is_rde_event (clusterOrgId dm)"
  unfolding clusterOrgId_def by (auto intro!: trace_rules split: option.splits)

lemma emits_updates [trace_rules]:
  "emits is_rde_event (addRDEPersistentVolumes dm pvs etag ent)"
  "emits is_rde_event (removeRDEPersistentVolumes dm pvs etag ent)"
  unfolding addRDEPersistentVolumes_def removeRDEPersistentVolumes_def
  by (auto intro!: trace_rules)

lemma emits_addPvToRDE [trace_rules]: "emits is_rde_event (addPvToRDE dm i n)"
  unfolding addPvToRDE_def addPvRound_def by (auto intro!: trace_rules)

lemma emits_removePvFromRDE [trace_rules]: "emits is_rde_event (removePvFromRDE dm i n)"
  unfolding removePvFromRDE_def removePvRound_def by (auto intro!: trace_rules)

end
