(* ===== verification/RdeLoops.thy ===== *)
theory RdeLoops
  imports RdeSync
begin

text \<open>
  The update loops of RdeSync as optimistic concurrency: the contract of a loop that reads,
  changes and writes an entity, with the proof that each of the four loops meets it.
\<close>

section \<open>The contract of an update loop\<close>

fun is_put :: "vcd_event \<Rightarrow> bool" where
  "is_put (EvPutEntity _ _ _ _ _) = True"
| "is_put _ = False"

fun is_get :: "vcd_event \<Rightarrow> bool" where
  "is_get (EvGetEntity _ _ _) = True"
| "is_get _ = False"

definition puts :: "vcd_event list \<Rightarrow> nat" where
  "puts es = length (filter is_put es)"

lemma puts_simps [simp]:
  "puts [] = 0" "puts (e # es) = (if is_put e then Suc (puts es) else puts es)"
  "puts (xs @ ys) = puts xs + puts ys"
  by (simp_all add: puts_def)

lemma puts_none: "list_all P es \<Longrightarrow> (\<And>e. P e \<Longrightarrow> \<not> is_put e) \<Longrightarrow> puts es = 0"
  by (auto simp: puts_def list_all_iff)

text \<open>
  A write is well-founded when it carries the etag of the last read of the same entity, nothing
  was written since, and \<open>R\<close> relates the history up to that read, the events since, the entity
  read and the one written.
\<close>

type_synonym update_rel =
  "vcd_event list \<Rightarrow> vcd_event list \<Rightarrow> defined_entity \<Rightarrow> defined_entity \<Rightarrow> bool"

fun read_guard :: "update_rel \<Rightarrow> vcd_event list \<Rightarrow> vcd_event \<Rightarrow> bool" where
  "read_guard R pre (EvPutEntity e tag i g r) \<longleftrightarrow> (\<exists>pre' ent st g' mid.
     pre = pre' @ EvGetEntity i g' (ent, st, tag, None) # mid \<and>
     (\<forall>x\<in>set mid. \<not> is_put x \<and> \<not> is_get x) \<and>
     R (pre' @ [EvGetEntity i g' (ent, st, tag, None)]) mid ent e)"
| "read_guard R pre _ \<longleftrightarrow> True"

text \<open>The same, when the entity that is written depends on the one that was read alone.\<close>

abbreviation cas_guard :: "(defined_entity \<Rightarrow> defined_entity \<Rightarrow> bool) \<Rightarrow> vcd_event list \<Rightarrow> vcd_event \<Rightarrow> bool"
where
  "cas_guard R \<equiv> read_guard (\<lambda>_ _. R)"

lemma read_guard_other: "\<not> is_put e \<Longrightarrow> read_guard R pre e"
  by (cases e) auto

lemma read_guard_mono:
  "(\<And>h es a b. R h es a b \<Longrightarrow> R' h es a b) \<Longrightarrow> guard_ok (read_guard R) pre es \<Longrightarrow> guard_ok (read_guard R') pre es"
proof (induction es arbitrary: pre)
  case (Cons e es)
  have "read_guard R pre e \<Longrightarrow> read_guard R' pre e"
    using Cons.prems(1) by (cases e; simp; blast)
  then show ?case using Cons by simp
qed simp

lemma guard_ok_no_puts: "(\<forall>e\<in>set es. \<not> is_put e) \<Longrightarrow> guard_ok (read_guard R) pre es"
  by (auto intro!: guard_ok_all read_guard_other)

locale cas_loop =
  fixes body :: "'a res option vcd"
    and R :: "vcd_env \<Rightarrow> update_rel"
    and good :: "vcd_event list \<Rightarrow> 'a \<Rightarrow> bool"
  assumes guarded: "sat body env h (\<lambda>r es. guard_ok (read_guard (R env)) h es)"
    and one_put: "sat body env h (\<lambda>r es. puts es \<le> 1)"
    and success: "sat body env h (\<lambda>r es. \<forall>x. r = Done (Some (Inr x)) \<longrightarrow> good es x)"
    and good_suffix: "good es x \<Longrightarrow> good (es' @ es) x"
begin

lemma round:
  "sat body env h (\<lambda>r es. guard_ok (read_guard (R env)) h es \<and> puts es \<le> 1 \<and>
     (\<forall>x. r = Done (Some (Inr x)) \<longrightarrow> good es x))"
  using guarded one_put success by (simp add: sat_conj)

lemma loop:
  "sat (retry n body (Inl e)) env h (\<lambda>r es. guard_ok (read_guard (R env)) h es \<and> puts es \<le> n \<and>
     (\<forall>x. r = Done (Inr x) \<longrightarrow> good es x))"
proof (induction n arbitrary: h)
  case 0
  show ?case by (simp add: wp)
next
  case (Suc n)
  have next': "sat (retry n body (Inl e)) env (h @ es) (\<lambda>r es'. guard_ok (read_guard (R env)) (h @ es) es' \<and>
      puts (es @ es') \<le> Suc n \<and> (\<forall>x. r = Done (Inr x) \<longrightarrow> good (es @ es') x))" if "puts es \<le> 1" for es
    by (rule sat_mono [OF Suc.IH]) (use that good_suffix in auto)
  show ?case
    by (auto simp: wp split: outcome.splits option.splits
        intro!: sat_mono [OF round] sat_mono [OF next'])
qed

end

section \<open>The loops meet the contract\<close>

lemma sat_clusterOrgId [wp]:
  "sat (clusterOrgId dm) env h Q = (let n = ClusterOrgName (VCDClient dm); r = q_getOrg env h n in
     case r of
       Inl e \<Rightarrow> Q (Done (Inl (Errorf ''failed to get org by name'' [e]))) [EvGetOrg n r]
     | Inr (Some (Some i)) \<Rightarrow> Q (Done (Inr i)) [EvGetOrg n r]
     | Inr _ \<Rightarrow> Q (Done (Inl (Errorf ''obtained nil org when getting org by name'' []))) [EvGetOrg n r])"
  by (simp add: clusterOrgId_def vcd_calls wp Let_def split: sum.splits option.splits)

definition add_rel :: "string \<Rightarrow> string \<Rightarrow> defined_entity \<Rightarrow> defined_entity \<Rightarrow> bool" where
  "add_rel ident name ent e \<longleftrightarrow> (\<exists>pvs. GetPVsFromRDE ent = Inr pvs \<and> name \<notin> set pvs \<and>
     AddPVsInRDE ent (pvs @ [ident]) = Inr e)"

definition remove_rel :: "string \<Rightarrow> defined_entity \<Rightarrow> defined_entity \<Rightarrow> bool" where
  "remove_rel ident ent e \<longleftrightarrow> (\<exists>pvs. GetPVsFromRDE ent = Inr pvs \<and> ident \<in> set pvs \<and>
     AddPVsInRDE ent (remove1 ident pvs) = Inr e)"

lemma index_of_remove1:
  "index_of x ys = Some i \<Longrightarrow> x \<in> set ys \<and> take i ys @ drop (Suc i) ys = remove1 x ys"
  "index_of x ys = None \<longleftrightarrow> x \<notin> set ys"
  by (induction ys arbitrary: i) (auto split: if_splits)

text \<open>What the last request of a successful addition or removal was.\<close>

fun added_by :: "string \<Rightarrow> string \<Rightarrow> vcd_event \<Rightarrow> bool" where
  "added_by ident name (EvGetEntity _ _ (ent, _, _, err)) \<longleftrightarrow>
     (\<exists>pvs. err = None \<and> GetPVsFromRDE ent = Inr pvs \<and> name \<in> set pvs)"
| "added_by ident name (EvPutEntity _ _ _ _ (_, _, err)) \<longleftrightarrow> err = None"
| "added_by ident name (EvAddResource _ ty n i r) \<longleftrightarrow>
     ty = ResourcePersistentVolume \<and> n = name \<and> i = ident \<and> r = Inr ()"
| "added_by ident name _ \<longleftrightarrow> False"

fun removed_by :: "string \<Rightarrow> string \<Rightarrow> vcd_event \<Rightarrow> bool" where
  "removed_by ident name (EvGetEntity _ _ (ent, _, _, err)) \<longleftrightarrow>
     (\<exists>pvs. err = None \<and> GetPVsFromRDE ent = Inr pvs \<and> ident \<notin> set pvs)"
| "removed_by ident name (EvPutEntity _ _ _ _ (_, _, err)) \<longleftrightarrow> err = None"
| "removed_by ident name (EvRemoveResource _ ty n r) \<longleftrightarrow>
     ty = ResourcePersistentVolume \<and> n = name \<and> r = Inr ()"
| "removed_by ident name _ \<longleftrightarrow> False"

definition last_is :: "('ev \<Rightarrow> bool) \<Rightarrow> 'ev list \<Rightarrow> bool" where
  "last_is P es \<longleftrightarrow> es \<noteq> [] \<and> P (last es)"

lemma last_is_simps [simp]:
  "\<not> last_is P []" "last_is P [e] = P e" "es \<noteq> [] \<Longrightarrow> last_is P (e # es) = last_is P es"
  by (simp_all add: last_is_def)

lemma last_is_suffix: "last_is P es \<Longrightarrow> last_is P (es' @ es)"
  by (simp add: last_is_def)

lemma read_guardI:
  assumes "R (pre @ [EvGetEntity i g' (ent, st, tag, None)]) mid ent e" "\<forall>x\<in>set mid. \<not> is_put x \<and> \<not> is_get x"
  shows "read_guard R (pre @ EvGetEntity i g' (ent, st, tag, None) # mid) (EvPutEntity e tag i g r)"
  unfolding read_guard.simps(1) using assms by blast

lemma cas_guard_org:
  "R ent e \<Longrightarrow> cas_guard R (pre @ [a, EvGetEntity i g' (ent, st, tag, None), EvGetOrg n x])
     (EvPutEntity e tag i g r)"
  using read_guardI [of "\<lambda>_ _. R" "pre @ [a]" i g' ent st tag "[EvGetOrg n x]" e] by simp

declare read_guard.simps(1) [simp del]

lemma addPvRound_loop:
  "sat (addPvRound dm i n) env h (\<lambda>r es. guard_ok (cas_guard (add_rel i n)) h es \<and> puts es \<le> 1 \<and>
     (\<forall>x. r = Done (Some (Inr x)) \<longrightarrow> last_is (added_by i n) es))"
  unfolding addPvRound_def addRDEPersistentVolumes_def GetRDEPersistentVolumes_def
  by (auto simp: wp vcd_calls Let_def add_rel_def intro!: cas_guard_org
      split: sum.splits option.splits prod.splits)

lemma RemovePV_AddPV: "RemovePVInRDE ent pvs = AddPVsInRDE ent pvs"
  by (simp add: RemovePVInRDE_def AddPVsInRDE_def)

lemma removePvRound_loop:
  "sat (removePvRound dm i n) env h (\<lambda>r es. guard_ok (cas_guard (remove_rel i)) h es \<and> puts es \<le> 1 \<and>
     (\<forall>x. r = Done (Some (Inr x)) \<longrightarrow> last_is (removed_by i n) es))"
  unfolding removePvRound_def removeRDEPersistentVolumes_def GetRDEPersistentVolumes_def RemovePV_AddPV
  by (auto simp: wp vcd_calls Let_def remove_rel_def index_of_remove1 intro!: cas_guard_org
      split: sum.splits option.splits prod.splits)

text \<open>A lookup that an operation starts with: its outcome and its requests.\<close>

lemma lookup_cases:
  obtains (panic) s qs where "\<And>Q. sat (GetDiskByNameOrId dm name zm i) env h Q = Q (Panic s) qs"
      "list_all is_query qs"
  | (error) e qs where "\<And>Q. sat (GetDiskByNameOrId dm name zm i) env h Q = Q (Done (Inl e)) qs"
      "list_all is_query qs" "GetDiskByNameOrId dm name zm i env h = (Done (Inl e), qs)"
  | (found) d qs where "\<And>Q. sat (GetDiskByNameOrId dm name zm i) env h Q = Q (Done (Inr d)) qs"
      "list_all is_query qs" "fetched_unique name qs d" "GetDiskByNameOrId dm name zm i env h = (Done (Inr d), qs)"
proof -
  obtain r0 qs where run: "GetDiskByNameOrId dm name zm i env h = (r0, qs)" by (meson surj_pair)
  then have lookup: "sat (GetDiskByNameOrId dm name zm i) env h Q = Q r0 qs" for Q
    by (simp add: sat_def)
  have q: "list_all is_query qs" and f: "r0 = Done (Inr d) \<Longrightarrow> fetched_unique name qs d" for d
    using sat_GetDiskByNameOrId [of dm name zm i env h] by (simp_all add: lookup)
  show thesis
  proof (cases r0)
    case (Done x)
    then show thesis using that(2,3) lookup q f run by (cases x) auto
  qed (use that(1) lookup q in blast)
qed

text \<open>
  \<open>looked_up dm env h ids rs es\<close>: after the history \<open>h\<close> the IDs are looked up in their order, with the
  events \<open>es\<close>, and \<open>rs\<close> has one resource for each: with the ID and the name of the unique disk that
  was found for it, or with the ID and no name when the lookup failed.
\<close>

fun looked_up :: "disk_manager \<Rightarrow> vcd_env \<Rightarrow> vcd_event list \<Rightarrow> string list \<Rightarrow> vcd_resource list \<Rightarrow>
    vcd_event list \<Rightarrow> bool" where
  "looked_up dm env h [] rs es \<longleftrightarrow> rs = [] \<and> es = []"
| "looked_up dm env h (i # ids) rs es \<longleftrightarrow> (\<exists>res seg rs' es'. es = seg @ es' \<and>
     GetDiskByNameOrId dm i (ZoneMap dm) (ClusterOVDCIdentifier (VCDClient dm)) env h = (Done res, seg) \<and>
     (\<forall>d. res = Inr d \<longrightarrow> fetched_unique i seg d) \<and>
     rs = (case res of Inl _ \<Rightarrow> VCDResource ResourcePersistentVolume i [] None
       | Inr d \<Rightarrow> VCDResource ResourcePersistentVolume (dId d) (dName d) None) # rs' \<and>
     looked_up dm env (h @ seg) ids rs' es')"

text \<open>
  What the upgrade writes for the entity that it read: the status without the old list, and, when
  that was not empty, with the resources of the disks looked up since appended to the CSI section's.
\<close>

definition upgrade_rel :: "disk_manager \<Rightarrow> vcd_env \<Rightarrow> update_rel" where
  "upgrade_rel dm env h es ent e \<longleftrightarrow> (\<exists>sm ids sm' rs. fmlookup (rdeEntity ent) ''status'' = Some (VMap sm) \<and>
     GetOldPVsFromRDE sm (ClusterID dm) = Inr ids \<and> looked_up dm env h ids rs es \<and>
     (if ids = [] then sm' = sm
      else addToVCDResourceSet (q_timeText env) ComponentCSI CSIName (q_version env) sm rs = Inr sm') \<and>
     e = ent\<lparr>rdeEntity := fmupd ''status'' (VMap (fmdrop OldPersistentVolumeKey sm')) (rdeEntity ent)\<rparr>)"

lemma emits_pvDetails [trace_rules]: "emits is_query (pvDetails dm ids)"
  by (induction ids) (auto intro!: trace_rules)

fun is_report :: "vcd_event \<Rightarrow> bool" where
  "is_report (EvAddError _ _ _ _ _ _) = True"
| "is_report _ = False"

lemma is_report_disjoint [simp]:
  "is_report e \<Longrightarrow> \<not> is_put e" "is_report e \<Longrightarrow> \<not> is_get e" "is_report e \<Longrightarrow> is_rde_event e"
  "is_query e \<Longrightarrow> \<not> is_put e" "is_query e \<Longrightarrow> \<not> is_get e"
  by (cases e; simp)+

lemma emits_reportQueryErrors [trace_rules]: "emits is_report (reportQueryErrors dm errs)"
proof (induction errs)
  case Nil
  show ?case by simp
next
  case (Cons x errs)
  then show ?case by (cases x) (auto intro!: trace_rules)
qed

lemma sat_pvDetails:
  "sat (pvDetails dm ids) env h (\<lambda>r es. list_all is_query es \<and>
     (\<forall>rs errs. r = Done (rs, errs) \<longrightarrow> looked_up dm env h ids rs es))"
proof (rule sat_conj [THEN iffD2, OF conjI])
  show "sat (pvDetails dm ids) env h (\<lambda>r es. list_all is_query es)"
    using emits_pvDetails by (simp add: emits_sat)
  show "sat (pvDetails dm ids) env h (\<lambda>r es. \<forall>rs errs. r = Done (rs, errs) \<longrightarrow> looked_up dm env h ids rs es)"
  proof (induction ids arbitrary: h)
    case Nil
    show ?case by (simp add: wp)
  next
    case (Cons i ids)
    show ?case
    proof (cases rule: lookup_cases [of dm i "ZoneMap dm" "ClusterOVDCIdentifier (VCDClient dm)" env h])
      case (panic s qs)
      then show ?thesis by (simp add: sat_bind)
    next
      case (error e qs)
      then show ?thesis
        by (auto simp: error(1) sat_bind sat_ret split: outcome.split intro!: sat_mono [OF Cons.IH])
    next
      case (found d qs)
      then show ?thesis
        by (auto simp: found(1) sat_bind sat_ret split: outcome.split intro!: sat_mono [OF Cons.IH])
    qed
  qed
qed

lemma puts_queries [simp]: "list_all is_query es \<Longrightarrow> puts es = 0" "list_all is_report es \<Longrightarrow> puts es = 0"
  by (auto intro: puts_none)

lemma guard_queries [simp]:
  "list_all is_query es \<Longrightarrow> guard_ok (read_guard R) pre es"
  "list_all is_report es \<Longrightarrow> guard_ok (read_guard R) pre es"
  by (auto intro!: guard_ok_no_puts simp: list_all_iff)

lemma sat_reportFormatError [wp]:
  "sat (reportFormatError dm ds) env h Q = Q (Done (Some (Inr ())))
     [EvAddError (ClusterID dm) ''RdeIncorrectFormatError'' [] [] ds (q_rde env h)]"
  by (simp add: reportFormatError_def wp vcd_calls)

lemma putUpgradedStatus_loop:
  assumes "list_all is_query es" "updated = Some m"
    and "upgrade_rel dm env (h @ [a, EvGetEntity (ClusterID dm) g (ent, st, etag, None)]) es ent
      (ent\<lparr>rdeEntity := fmupd ''status'' (VMap (fmdrop OldPersistentVolumeKey m)) (rdeEntity ent)\<rparr>)"
  shows "sat (putUpgradedStatus dm org etag ent updated errs) env (h @ a # EvGetEntity (ClusterID dm) g (ent, st, etag, None) # es)
     (\<lambda>r es'. guard_ok (read_guard (upgrade_rel dm env)) (h @ a # EvGetEntity (ClusterID dm) g (ent, st, etag, None) # es) es' \<and>
        puts es' \<le> 1)"
proof -
  have "read_guard (upgrade_rel dm env) (h @ a # EvGetEntity (ClusterID dm) g (ent, st, etag, None) # es)
     (EvPutEntity (ent\<lparr>rdeEntity := fmupd ''status'' (VMap (fmdrop OldPersistentVolumeKey m)) (rdeEntity ent)\<rparr>) etag (ClusterID dm) org x)" for x
    using assms read_guardI [of "upgrade_rel dm env" "h @ [a]" _ _ ent _ _ es] by (auto simp: list_all_iff)
  then show ?thesis
    unfolding putUpgradedStatus_def Let_def
    by (auto simp: wp vcd_calls assms(2) split: prod.splits option.splits outcome.splits
        intro!: emits_rule [OF emits_reportQueryErrors])
qed

lemma upgradeOldPvs_loop:
  assumes "fmlookup (rdeEntity ent) ''status'' = Some (VMap sm)"
    and "GetOldPVsFromRDE sm (ClusterID dm) = Inr ids"
  shows "sat (upgradeOldPvs dm org etag ent sm ids)
     env (h @ [a, EvGetEntity (ClusterID dm) g (ent, st, etag, None)])
     (\<lambda>r es'. guard_ok (read_guard (upgrade_rel dm env))
        (h @ [a, EvGetEntity (ClusterID dm) g (ent, st, etag, None)]) es' \<and> puts es' \<le> Suc 0)"
  (is "sat _ _ ?pre ?Q")
proof (cases "ids = []")
  case True
  have "upgrade_rel dm env ?pre [] ent (ent\<lparr>rdeEntity :=
    fmupd ''status'' (VMap (fmdrop OldPersistentVolumeKey sm)) (rdeEntity ent)\<rparr>)"
    using assms True by (auto simp: upgrade_rel_def)
  from putUpgradedStatus_loop [OF _ refl this, of org "[]"] True
  show ?thesis by (simp add: upgradeOldPvs_def)
next
  case False
  have put: "sat (putUpgradedStatus dm org etag ent updated errs) env (?pre @ es) (\<lambda>r es'. ?Q r (es @ es'))"
    if es: "list_all is_query es" and rs: "looked_up dm env ?pre ids rs es"
    and up: "UpgradeStatusMapOfRdeToLatestFormat (q_timeText env) (q_version env) sm rs (ClusterID dm) = Inr updated"
    for rs errs updated es
  proof -
    have "rs \<noteq> []" using rs False by (cases ids) auto
    then obtain m where m: "updated = Some m"
        "addToVCDResourceSet (q_timeText env) ComponentCSI CSIName (q_version env) sm rs = Inr m"
      using up by (auto simp: UpgradeStatusMapOfRdeToLatestFormat_def split: if_splits sum.splits)
    have "upgrade_rel dm env ?pre es ent
        (ent\<lparr>rdeEntity := fmupd ''status'' (VMap (fmdrop OldPersistentVolumeKey m)) (rdeEntity ent)\<rparr>)"
      unfolding upgrade_rel_def using assms rs m(2) False by auto
    from putUpgradedStatus_loop [OF es m(1) this, of org errs]
    show ?thesis using es by (auto intro: sat_mono)
  qed
  show ?thesis
    unfolding upgradeOldPvs_def
    using False put
    by (auto simp: wp DriverVersion_def TimeText_def split: outcome.splits sum.splits
        intro!: sat_mono [OF sat_pvDetails])
qed

lemma upgradeRound_loop:
  "sat (upgradeRound dm) env h (\<lambda>r es. guard_ok (read_guard (upgrade_rel dm env)) h es \<and> puts es \<le> 1)"
  unfolding upgradeRound_def
  by (auto simp: wp vcd_calls Let_def split: sum.splits option.splits prod.splits goval.splits
      intro!: sat_mono [OF upgradeOldPvs_loop])

definition convert_rel :: "(string \<Rightarrow> string option) \<Rightarrow> string \<Rightarrow> defined_entity \<Rightarrow> defined_entity \<Rightarrow> bool" where
  "convert_rel tt v ent e \<longleftrightarrow> (\<exists>sm csi cs m. fmlookup (rdeEntity ent) ''status'' = Some (VMap sm) \<and>
     fmlookup sm ComponentCSI = Some (VMap csi) \<and> ConvertMapToCSIStatus tt csi = Inr cs \<and>
     ConvertCSIStatusToMap tt (cs\<lparr>csVersion := v\<rparr>) = Inr m \<and>
     e = ent\<lparr>rdeEntity := fmupd ''status'' (VMap (fmupd ComponentCSI (VMap m) sm)) (rdeEntity ent)\<rparr>)"

fun converted_by :: "defined_entity \<Rightarrow> vcd_event \<Rightarrow> bool" where
  "converted_by x (EvGetEntity _ _ (ent, st, _, err)) \<longleftrightarrow> err = None \<and> st = Some StatusOK \<and> x = ent"
| "converted_by x (EvPutEntity _ _ _ _ (u, st, err)) \<longleftrightarrow> err = None \<and> st = Some StatusOK \<and> x = u"
| "converted_by x _ \<longleftrightarrow> False"

lemma cas_guard_next:
  "R ent e \<Longrightarrow> cas_guard R (pre @ [EvGetEntity i g' (ent, st, tag, None)]) (EvPutEntity e tag i g r)"
  using read_guardI [of "\<lambda>_ _. R" pre i g' ent st tag "[]" e] by simp

lemma convertRound_loop:
  "sat (convertRound dm v g) env h (\<lambda>r es. guard_ok (cas_guard (convert_rel (q_timeText env) v)) h es \<and> puts es \<le> 1 \<and>
     (\<forall>x. r = Done (Some (Inr x)) \<longrightarrow> last_is (converted_by x) es))"
proof -
  have rel: "convert_rel tt v ent (ent\<lparr>rdeEntity := fmupd ''status'' (VMap (fmupd ComponentCSI (VMap m) sm))
       (rdeEntity ent)\<rparr>)"
    if "fmlookup (rdeEntity ent) ''status'' = Some (VMap sm)"
      "fmlookup sm ComponentCSI = Some (VMap csi)" "ConvertMapToCSIStatus tt csi = Inr cs"
      "ConvertCSIStatusToMap tt (cs\<lparr>csVersion := v\<rparr>) = Inr m"
    for ent sm csi cs m tt
    using that unfolding convert_rel_def by blast
  show ?thesis
    unfolding convertRound_def
    by (auto simp: wp vcd_calls Let_def intro!: cas_guard_next rel
        split: sum.splits option.splits prod.splits goval.splits)
qed

interpretation add_loop: cas_loop "addPvRound dm i n" "\<lambda>_ _ _. add_rel i n" "\<lambda>es x. last_is (added_by i n) es" for dm i n
  by unfold_locales (auto intro: sat_mono [OF addPvRound_loop] last_is_suffix)

interpretation remove_loop: cas_loop "removePvRound dm i n" "\<lambda>_ _ _. remove_rel i" "\<lambda>es x. last_is (removed_by i n) es" for dm i n
  by unfold_locales (auto intro: sat_mono [OF removePvRound_loop] last_is_suffix)

interpretation upgrade_loop: cas_loop "upgradeRound dm" "upgrade_rel dm" "\<lambda>_ _. True" for dm
  by unfold_locales (use upgradeRound_loop in \<open>auto simp: sat_iff\<close>)

interpretation convert_loop: cas_loop "convertRound dm v g" "\<lambda>env _ _. convert_rel (q_timeText env) v" "\<lambda>es x. last_is (converted_by x) es" for dm v g
  by unfold_locales (auto intro: sat_mono [OF convertRound_loop] last_is_suffix)

section \<open>Properties\<close>

text \<open>
  C37: adding a volume to the entity, in every environment: each write carries the etag of
  the last read and the list that was read with the new ID at its end, and only when the name
  was not in it; there are at most ten writes; and success means that the last request was an
  accepted write, an accepted addition to the resource set, or a read that had the name.
\<close>

theorem addPvToRDE_updates:
  "sat (addPvToRDE dm ident name) env h (\<lambda>r es.
     guard_ok (cas_guard (add_rel ident name)) h es \<and> puts es \<le> 10 \<and>
     (case r of Done (Inr _) \<Rightarrow> last_is (added_by ident name) es | _ \<Rightarrow> True))"
  unfolding addPvToRDE_def MaxRDEUpdateRetries_def
  by (rule sat_mono [OF add_loop.loop]) (auto split: outcome.split sum.split)

text \<open>
  Removing a volume from the entity, in every environment: each write carries the etag
  of the last read and the list that was read without the first occurrence of the ID, there
  are at most ten writes, and success means that the last request was an accepted write, an
  accepted removal from the resource set, or a read without the ID.
\<close>

theorem removePvFromRDE_updates:
  "sat (removePvFromRDE dm ident name) env h (\<lambda>r es.
     guard_ok (cas_guard (remove_rel ident)) h es \<and> puts es \<le> 10 \<and>
     (case r of Done (Inr _) \<Rightarrow> last_is (removed_by ident name) es | _ \<Rightarrow> True))"
  unfolding removePvFromRDE_def MaxRDEUpdateRetries_def
  by (rule sat_mono [OF remove_loop.loop]) (auto split: outcome.split sum.split)

lemma sat_UpgradeRDEPersistentVolumes:
  "sat (UpgradeRDEPersistentVolumes dm) env h (\<lambda>r es.
     guard_ok (read_guard (upgrade_rel dm env)) h es \<and> puts es \<le> 10)"
  unfolding UpgradeRDEPersistentVolumes_def MaxRDEUpdateRetries_def
  by (rule sat_mono [OF upgrade_loop.loop]) auto

lemma sat_ConvertToLatestCSIVersionFormat:
  "sat (ConvertToLatestCSIVersionFormat dm v) env h (\<lambda>r es.
     guard_ok (cas_guard (convert_rel (q_timeText env) v)) h es \<and> puts es \<le> 10 \<and>
     (case r of Done (Inr x) \<Rightarrow> last_is (converted_by x) es | _ \<Rightarrow> True))"
  unfolding ConvertToLatestCSIVersionFormat_def MaxRDEUpdateRetries_def
  by (auto simp: wp Let_def split: sum.splits option.splits outcome.split
      intro!: sat_mono [OF convert_loop.loop] last_is_suffix [of _ _ "[e]" for e, simplified])

text \<open>
  C38: the upgrade of the old list of volumes, in every environment: each write carries the
  etag of the last read; what it writes is the status that was read without the old list. When
  that list was not empty, each of its IDs was looked up after the read, in its order, and the CSI
  resource set has one more resource for each: with the ID and name of the unique disk that was
  found for it, or with the ID alone when its lookup failed. There are at most ten writes.
\<close>

theorem UpgradeRDEPersistentVolumes_updates:
  "sat (UpgradeRDEPersistentVolumes dm) env h (\<lambda>r es.
     guard_ok (read_guard (upgrade_rel dm env)) h es \<and> puts es \<le> 10)"
  by (rule sat_UpgradeRDEPersistentVolumes)

text \<open>
  The conversion of the CSI section, in every environment: each write carries the etag of
  the last read and changes only the CSI section, into the struct that was decoded from it
  with the new version; there are at most ten writes; and the entity it returns is the one
  that the last request, answered with status 200, gave.
\<close>

theorem ConvertToLatestCSIVersionFormat_updates:
  "sat (ConvertToLatestCSIVersionFormat dm v) env h (\<lambda>r es.
     guard_ok (cas_guard (convert_rel (q_timeText env) v)) h es \<and> puts es \<le> 10 \<and>
     (case r of Done (Inr x) \<Rightarrow> last_is (converted_by x) es | _ \<Rightarrow> True))"
  by (rule sat_ConvertToLatestCSIVersionFormat)

text \<open>A service whose entity can be read, and written without a conflict.\<close>

definition serves :: "vcd_env \<Rightarrow> disk_manager \<Rightarrow> string \<Rightarrow> defined_entity \<Rightarrow> string \<Rightarrow> bool" where
  "serves env dm g ent tag \<longleftrightarrow>
     (\<forall>h. q_getOrg env h (ClusterOrgName (VCDClient dm)) = Inr (Some (Some g)) \<and>
        q_getEntity env h (ClusterID dm) g = (ent, Some StatusOK, tag, None))"

lemma servesD:
  assumes "serves env dm g ent tag"
  shows "q_getOrg env h (ClusterOrgName (VCDClient dm)) = Inr (Some (Some g))"
    "q_getEntity env h (ClusterID dm) g = (ent, Some StatusOK, tag, None)"
  using assms by (auto simp: serves_def)

lemma retry_unfold:
  "retry MaxRDEUpdateRetries body final =
     bind body (\<lambda>o'. case o' of Some r \<Rightarrow> ret r | None \<Rightarrow> retry 9 body final)"
proof -
  have *: "MaxRDEUpdateRetries = Suc 9" by (simp add: MaxRDEUpdateRetries_def)
  show ?thesis by (subst *) (rule retry.simps)
qed

definition dm1 :: disk_manager where "dm1 = dm0\<lparr>ClusterID := ''rde1''\<rparr>"

text \<open>One entity, read with the etag t1; writes are accepted.\<close>

definition rde_env :: "defined_entity \<Rightarrow> vcd_env" where
  "rde_env ent = down_env\<lparr>q_getOrg := (\<lambda>_ _. Inr (Some (Some ''org1''))),
     q_getEntity := (\<lambda>_ _ _. (ent, Some 200, ''t1'', None)),
     q_putEntity := (\<lambda>_ e _ _ _. (e, Some 200, None))\<rparr>"

lemma serves_rde_env: "serves (rde_env ent) dm ''org1'' ent ''t1''"
  by (simp add: serves_def rde_env_def StatusOK_def)

text \<open>
  Adding a volume to a native cluster's entity whose list does not have the volume's
  name: one read and one accepted write of the list with the ID at its end. The list holds
  IDs, so an ID that is there already is no obstacle: it is then in the list twice.
\<close>

theorem addPvToRDE_native:
  assumes "serves env dm g ent tag" and "GetPVsFromRDE ent = Inr pvs" and "name \<notin> set pvs"
    and "\<And>h e t. snd (snd (q_putEntity env h e t (ClusterID dm) g)) = None"
  shows "\<exists>e r. addPvToRDE dm ident name env h = (Done (Inr ()),
      [EvGetOrg (ClusterOrgName (VCDClient dm)) (Inr (Some (Some g))),
       EvGetEntity (ClusterID dm) g (ent, Some StatusOK, tag, None),
       EvGetOrg (ClusterOrgName (VCDClient dm)) (Inr (Some (Some g))),
       EvPutEntity e tag (ClusterID dm) g r]) \<and>
    GetPVsFromRDE (stored_entity e) = Inr (pvs @ [ident])"
proof -
  have native: "IsNativeClusterEntityType (rdeEntityType ent)"
    using assms(2) by (simp add: GetPVsFromRDE_iff)
  obtain e where e: "AddPVsInRDE ent (pvs @ [ident]) = Inr e"
    using AddPVsInRDE_ok [OF assms(2)] by metis
  have put: "\<exists>a b. q_putEntity env h' e t (ClusterID dm) g = (a, b, None)" for h' t
    using assms(4) [of h' e t] by (metis prod.collapse)
  have "sat (addPvToRDE dm ident name) env h (\<lambda>r es. \<exists>x. r = Done (Inr ()) \<and> es =
      [EvGetOrg (ClusterOrgName (VCDClient dm)) (Inr (Some (Some g))),
       EvGetEntity (ClusterID dm) g (ent, Some StatusOK, tag, None),
       EvGetOrg (ClusterOrgName (VCDClient dm)) (Inr (Some (Some g))),
       EvPutEntity e tag (ClusterID dm) g x])"
    using put [of "h @ [EvGetOrg (ClusterOrgName (VCDClient dm)) (Inr (Some (Some g))),
       EvGetEntity (ClusterID dm) g (ent, Some StatusOK, tag, None),
       EvGetOrg (ClusterOrgName (VCDClient dm)) (Inr (Some (Some g)))]" tag]
    by (auto simp: addPvToRDE_def retry_unfold addPvRound_def addRDEPersistentVolumes_def
        GetRDEPersistentVolumes_def wp vcd_calls Let_def servesD [OF assms(1)] native assms(2,3) e)
  moreover have "GetPVsFromRDE (stored_entity e) = Inr (pvs @ [ident])"
    using AddPVs_stored [OF e] .
  ultimately show ?thesis
    by (cases "addPvToRDE dm ident name env h") (auto simp: sat_pair)
qed

lemma native0_pvs: "GetPVsFromRDE native0 = Inr [''id0'']"
  by (simp add: GetPVsFromRDE_iff) (simp add: native0_def fmap_of_list.rep_eq)

theorem addPvToRDE_native_witness:
  "\<exists>e r. snd (addPvToRDE dm1 ''id0'' ''pvc0'' (rde_env native0) []) =
      [EvGetOrg ''org'' (Inr (Some (Some ''org1''))),
       EvGetEntity ''rde1'' ''org1'' (native0, Some 200, ''t1'', None),
       EvGetOrg ''org'' (Inr (Some (Some ''org1''))),
       EvPutEntity e ''t1'' ''rde1'' ''org1'' r] \<and>
    GetPVsFromRDE (stored_entity e) = Inr [''id0'', ''id0'']"
proof -
  have "snd (snd (q_putEntity (rde_env native0) h e t (ClusterID dm1) ''org1'')) = None" for h e t
    by (simp add: rde_env_def)
  from addPvToRDE_native [OF serves_rde_env native0_pvs, of "''pvc0''" dm1 "''id0''" "[]", OF _ this]
  show ?thesis by (auto simp: dm1_def dm0_def StatusOK_def)
qed

text \<open>
  Removing a volume from an entity of a type that CSI does not support ends, after ten
  reads and no write, in the error about the etag; adding one to such an entity fails at once.
\<close>

theorem removePvFromRDE_unsupported:
  assumes "serves env dm g ent tag" and "\<not> IsNativeClusterEntityType (rdeEntityType ent)"
    and "\<not> IsCAPVCDEntityType (rdeEntityType ent)"
  shows "removePvFromRDE dm ident name env h =
      (Done (Inl (Errorf ''unable to update rde due to incorrect etag'' [])),
       concat (replicate 10 [EvGetOrg (ClusterOrgName (VCDClient dm)) (Inr (Some (Some g))),
         EvGetEntity (ClusterID dm) g (ent, Some StatusOK, tag, None)])) \<and>
    fst (addPvToRDE dm ident name env h) =
      Done (Inl (Errorf ''entity type not supported by CSI'' []))"
proof -
  let ?es = "[EvGetOrg (ClusterOrgName (VCDClient dm)) (Inr (Some (Some g))),
         EvGetEntity (ClusterID dm) g (ent, Some StatusOK, tag, None)]"
  have round: "removePvRound dm ident name env h = (Done None, ?es)" for h
    by (rule sat_exact) (simp add: removePvRound_def wp vcd_calls Let_def servesD [OF assms(1)] assms(2,3))
  have "retry n (removePvRound dm ident name) (Inl e) env h = (Done (Inl e), concat (replicate n ?es))" for n e h
    by (induction n arbitrary: h) (simp_all add: run_simps round)
  moreover have "sat (addPvToRDE dm ident name) env h (\<lambda>r es.
      r = Done (Inl (Errorf ''entity type not supported by CSI'' [])))"
    by (simp add: addPvToRDE_def retry_unfold addPvRound_def wp vcd_calls Let_def
        servesD [OF assms(1)] assms(2,3))
  ultimately show ?thesis
    by (simp add: removePvFromRDE_def MaxRDEUpdateRetries_def sat_iff)
qed

theorem removePvFromRDE_unsupported_witness:
  "fst (removePvFromRDE dm1 ''id0'' ''pvc0'' (rde_env (native0\<lparr>rdeEntityType := ''other''\<rparr>)) []) =
     Done (Inl (Errorf ''unable to update rde due to incorrect etag'' []))"
proof -
  let ?e = "native0\<lparr>rdeEntityType := ''other''\<rparr>"
  have "\<not> IsNativeClusterEntityType (rdeEntityType ?e)" "\<not> IsCAPVCDEntityType (rdeEntityType ?e)"
    by (code_simp, code_simp)
  from removePvFromRDE_unsupported [OF serves_rde_env this, of dm1 "''id0''" "''pvc0''" "[]"]
  show ?thesis by simp
qed

text \<open>
  When the organisation, found at the start of a round, cannot be found again before the
  write, adding a volume to a native cluster's entity dereferences the nil response.
\<close>

theorem addPvToRDE_nil_response:
  assumes "q_getOrg env h (ClusterOrgName (VCDClient dm)) = Inr (Some (Some g))"
    and "q_getEntity env (h @ [EvGetOrg (ClusterOrgName (VCDClient dm)) (Inr (Some (Some g)))])
      (ClusterID dm) g = (ent, st, tag, None)"
    and "GetPVsFromRDE ent = Inr pvs" and "name \<notin> set pvs"
    and "q_getOrg env (h @ [EvGetOrg (ClusterOrgName (VCDClient dm)) (Inr (Some (Some g))),
      EvGetEntity (ClusterID dm) g (ent, st, tag, None)]) (ClusterOrgName (VCDClient dm)) = Inl e"
  shows "fst (addPvToRDE dm ident name env h) = Panic ''nil response''"
proof -
  have native: "IsNativeClusterEntityType (rdeEntityType ent)"
    using assms(3) by (simp add: GetPVsFromRDE_iff)
  obtain x where x: "AddPVsInRDE ent (pvs @ [ident]) = Inr x"
    using AddPVsInRDE_ok [OF assms(3)] by metis
  have "sat (addPvToRDE dm ident name) env h (\<lambda>r es. r = Panic ''nil response'')"
    by (simp add: addPvToRDE_def retry_unfold addPvRound_def addRDEPersistentVolumes_def
        GetRDEPersistentVolumes_def wp vcd_calls Let_def native assms x)
  then show ?thesis
    by (simp add: sat_iff)
qed

theorem addPvToRDE_nil_response_witness:
  "fst (addPvToRDE dm1 ''id1'' ''pvc1'' ((rde_env native0)\<lparr>q_getOrg := (\<lambda>h _.
     if h = [] then Inr (Some (Some ''org1'')) else Inl (ApiError ''down'' False))\<rparr>) []) =
   Panic ''nil response''"
  by (rule addPvToRDE_nil_response [where g = "''org1''" and ent = native0 and pvs = "[''id0'']"])
    (simp_all add: rde_env_def native0_pvs)

end
