(* ===== verification/DiskOps.thy ===== *)
theory DiskOps
  imports RdeLoops
begin

text \<open>
  The operations of the DiskManager on independent disks (pkg/vcdcsiclient/disks.go): create,
  delete, update, attach and detach, each under the client's lock.
\<close>

section \<open>Names of errors and events\<close>

definition DiskQueryError :: string where "DiskQueryError = ''DiskQueryError''"
definition DiskCreateError :: string where "DiskCreateError = ''DiskCreateError''"
definition DiskDeleteError :: string where "DiskDeleteError = ''DiskDeleteError''"
definition DiskAttachError :: string where "DiskAttachError = ''DiskAttachError''"
definition DiskDetachError :: string where "DiskDetachError = ''DiskDetachError''"
definition DiskCreateEvent :: string where "DiskCreateEvent = ''DiskCreateEvent''"
definition DiskDeleteEvent :: string where "DiskDeleteEvent = ''DiskDeleteEvent''"
definition DiskAttachEvent :: string where "DiskAttachEvent = ''DiskAttachEvent''"
definition DiskDetachEvent :: string where "DiskDetachEvent = ''DiskDetachEvent''"

section \<open>Create\<close>

definition createDisk :: "disk_manager \<Rightarrow> disk_create_params \<Rightarrow> vdc \<Rightarrow> task res vcd" where
  "createDisk dm params v =
     (if dName (pDisk params) = [] then fail (Errorf ''disk name is required'' [])
      else if sint (dSizeMb (pDisk params)) < 1 then
        fail (Errorf ''disk size should be greater than or equal to 1MB'' [])
      else (case List.find (\<lambda>l. lRel l = RelAdd \<and> lType l = MimeDiskCreateParams) (vLink v) of
        None \<Rightarrow> fail (Errorf ''could not find request URL for create disk in vdc Link'' [])
      | Some createDiskLink \<Rightarrow>
          attempt (PostDiskRequest createDiskLink params)
            (\<lambda>e. fail (Errorf ''unable to post create link'' [e]))
            (\<lambda>newDisk. case dTasks newDisk of
               Some (t # _) \<Rightarrow> ok t
             | _ \<Rightarrow> fail (Errorf ''error cannot find disk creation task in API response'' []))))"

text \<open>
  The comparison with a disk that exists stops at the first difference; the storage profile
  is dereferenced only when one was asked for.
\<close>

definition checkExistingDisk :: "disk \<Rightarrow> int64 \<Rightarrow> string \<Rightarrow> string \<Rightarrow> string \<Rightarrow> bool \<Rightarrow> disk res vcd"
where
  "checkExistingDisk d sizeMB busType busSubType storageProfile shareable =
     (let differs = fail (Errorf ''disk already exists but with different properties'' []) in
      if dSizeMb d \<noteq> sizeMB then differs
      else if dBusType d \<noteq> busType then differs
      else if dBusSubType d \<noteq> busSubType then differs
      else if storageProfile \<noteq> [] then
        (case dStorageProfile d of
           None \<Rightarrow> panic ''nil StorageProfile''
         | Some p \<Rightarrow> if rName p \<noteq> storageProfile then differs
             else if dShareable d \<noteq> shareable then differs else ok d)
      else if dShareable d \<noteq> shareable then differs
      else ok d)"

definition newDiskParams :: "string \<Rightarrow> int64 \<Rightarrow> string \<Rightarrow> string \<Rightarrow> string \<Rightarrow> bool \<Rightarrow>
    reference option \<Rightarrow> disk_create_params" where
  "newDiskParams diskName sizeMB busType busSubType description shareable profile =
     \<lparr>pXmlns = XMLNamespaceVCloud,
      pDisk = zero_disk\<lparr>dName := diskName, dSizeMb := sizeMB, dBusType := busType,
        dBusSubType := busSubType, dDescription := description, dShareable := shareable,
        dStorageProfile := profile\<rparr>,
      pLocality = None, pVCloudExtension = None\<rparr>"

definition rdeEnabled :: "disk_manager \<Rightarrow> bool" where
  "rdeEnabled dm \<longleftrightarrow> ClusterID dm \<noteq> [] \<and> \<not> has_prefix (ClusterID dm) NoRdePrefix"

text \<open>From the request to the disk: its task, the disk the task created, its bookkeeping.\<close>

definition createAndRecord :: "disk_manager \<Rightarrow> string \<Rightarrow> disk_create_params \<Rightarrow> vdc \<Rightarrow> disk res vcd"
where
  "createAndRecord dm diskName params v =
     attempt (createDisk dm params v) (\<lambda>e. fail (Errorf ''unable to create disk'' [e])) (\<lambda>task.
     attempt (WaitTaskCompletion task)
       (\<lambda>e. fail (Errorf ''error waiting to finish creation of independent disk'' [e])) (\<lambda>task'.
     case tOwner task' of
       None \<Rightarrow> panic ''nil Owner''
     | Some owner \<Rightarrow>
         attempt (govcdGetDiskByHref (rHREF owner))
           (\<lambda>e. fail (Errorf ''unable to find disk with href'' [e])) (\<lambda>disk.
         ignore (AddToEventSet dm DiskCreateEvent [] diskName
             [(''Detailed Info'', DText ''Successfully created disk'')])
           (if rdeEnabled dm then
              attempt (addPvToRDE dm (dId disk) (dName disk))
                (\<lambda>e. fail (NoRDEError ''Unable to add PV Id to RDE; RDE ID is generated'')) (\<lambda>_. ok disk)
            else ok disk))))"

definition createNewDisk :: "disk_manager \<Rightarrow> string \<Rightarrow> vdc \<Rightarrow> int64 \<Rightarrow> string \<Rightarrow> string \<Rightarrow> string \<Rightarrow>
    string \<Rightarrow> bool \<Rightarrow> disk res vcd" where
  "createNewDisk dm diskName v sizeMB busType busSubType description storageProfile shareable =
     (if storageProfile \<noteq> [] then
        attempt (FindStorageProfileReference v storageProfile)
          (\<lambda>e. fail (Errorf ''unable to find storage profile for disk'' []))
          (\<lambda>(storageReference, v'). createAndRecord dm diskName
             (newDiskParams diskName sizeMB busType busSubType description shareable
                (Some \<lparr>rHREF = rHREF storageReference, rID = [], rType = [], rName = []\<rparr>)) v')
      else createAndRecord dm diskName
        (newDiskParams diskName sizeMB busType busSubType description shareable None) v)"

definition CreateDisk :: "disk_manager \<Rightarrow> string \<Rightarrow> vdc \<Rightarrow> int64 \<Rightarrow> string \<Rightarrow> string \<Rightarrow> string \<Rightarrow>
    string \<Rightarrow> bool \<Rightarrow> zone_map option \<Rightarrow> disk res vcd" where
  "CreateDisk dm diskName v sizeMB busType busSubType description storageProfile shareable zm =
     with_lock (bind (GetDiskByNameOrId dm diskName zm (ClusterOVDCIdentifier (VCDClient dm)))
       (\<lambda>r. case r of
          Inl e \<Rightarrow>
            if \<not> errors_Is_NotFound e then
              ignore (AddToErrorSet dm DiskQueryError [] diskName
                  [(''Detailed Error'', DErr (Errorf ''unable to query disk'' [e]))])
                (fail (Errorf ''unable to check if disk already exists'' [e]))
            else
              ignore (RemoveFromErrorSet dm DiskQueryError [] diskName)
                (createNewDisk dm diskName v sizeMB busType busSubType description storageProfile
                   shareable)
        | Inr d \<Rightarrow>
            ignore (RemoveFromErrorSet dm DiskQueryError [] diskName)
              (checkExistingDisk d sizeMB busType busSubType storageProfile shareable)))"

section \<open>Attached machines, delete, update\<close>

definition GovcdAttachedVM :: "disk_manager \<Rightarrow> disk \<Rightarrow> reference list res vcd" where
  "GovcdAttachedVM dm d = (case List.find (\<lambda>l. lType l = MimeVMs) (dLink d) of
     None \<Rightarrow> fail (Errorf ''could not find request URL for attached vm in disk Link'' [])
   | Some attachedVMLink \<Rightarrow> attempt (GetVmsRequest attachedVMLink) (\<lambda>e. fail e) (\<lambda>vms. ok vms))"

definition govcdDelete :: "disk_manager \<Rightarrow> disk \<Rightarrow> task res vcd" where
  "govcdDelete dm d = attempt (GovcdAttachedVM dm d)
     (\<lambda>e. fail (Errorf ''error find attached VM'' [e]))
     (\<lambda>vmRefs. if vmRefs \<noteq> [] then fail (Errorf ''error disk is attached'' [])
        else (case List.find (\<lambda>l. lRel l = RelRemove) (dLink d) of
          None \<Rightarrow> fail (Errorf ''could not find request URL for delete disk in disk Link'' [])
        | Some deleteDiskLink \<Rightarrow> DeleteDiskRequest (lHREF deleteDiskLink)))"

definition UpdateDisk :: "disk_manager \<Rightarrow> disk \<Rightarrow> sdk_disk \<Rightarrow> task res vcd" where
  "UpdateDisk dm d newDiskInfo =
     (if uName newDiskInfo = [] then fail (Errorf ''disk name is required'' [])
      else attempt (GovcdAttachedVM dm d)
        (\<lambda>e. fail (Errorf ''error finding attached VM for disk'' [e]))
        (\<lambda>vmRefs. if vmRefs \<noteq> [] then fail (Errorf ''error disk is attached to VMs'' [])
           else (case List.find (\<lambda>l. lRel l = RelEdit \<and> lType l = MimeDisk) (dLink d) of
             None \<Rightarrow> fail (Errorf ''could not find request URL for update disk in disk Link'' [])
           | Some updateDiskLink \<Rightarrow>
               attempt (PutDiskRequest updateDiskLink
                   \<lparr>uXmlns = XMLNamespaceVCloud, uDescription = uDescription newDiskInfo,
                    uSizeMb = uSizeMb newDiskInfo, uName = uName newDiskInfo,
                    uOwner = uOwner newDiskInfo\<rparr>)
                 (\<lambda>e. fail (Errorf ''unable to execute PUT request to update disk'' [e]))
                 (\<lambda>task. ok task))))"

text \<open>After the request: its task, the event, the entity.\<close>

definition finishDelete :: "disk_manager \<Rightarrow> disk \<Rightarrow> task \<Rightarrow> unit res vcd" where
  "finishDelete dm disk task =
     attempt (WaitTaskCompletion task)
       (\<lambda>e. fail (Errorf ''failed to wait for deletion task of disk'' [e])) (\<lambda>_.
     ignore (AddToEventSet dm DiskDeleteEvent [] (dName disk)
         [(''Detailed Info'', DText ''Volume deleted successfully'')])
       (if rdeEnabled dm then
          attempt (removePvFromRDE dm (dId disk) (dName disk))
            (\<lambda>e. fail (NoRDEError ''unable to remove PV Id from RDE; RDE ID is generated'')) (\<lambda>_. ok ())
        else ok ()))"

definition DeleteDisk :: "disk_manager \<Rightarrow> string \<Rightarrow> zone_map option \<Rightarrow> unit res vcd" where
  "DeleteDisk dm name zm = with_lock (
     attempt (GetDiskByNameOrId dm name zm (ClusterOVDCIdentifier (VCDClient dm)))
       (\<lambda>e. if errors_Is_NotFound e then ok ()
            else fail (Errorf ''unable to find disk with name'' [e])) (\<lambda>disk.
     attempt (GovcdAttachedVM dm disk)
       (\<lambda>e. fail (Errorf ''unable to find if disk is attached to a VM'' [e])) (\<lambda>attachedVMs.
     if attachedVMs \<noteq> [] then fail (Errorf ''unable to delete disk that is attached to VMs'' [])
     else attempt (govcdDelete dm disk)
       (\<lambda>e. fail (Errorf ''unable to issue delete disk call'' [e]))
       (\<lambda>task. finishDelete dm disk task))))"

section \<open>Attach and detach\<close>

text \<open>
  The HREF is logged before the nil check, so a nil disk panics. The result is the new
  content of the disk, which Go copies over the old one.
\<close>

definition govcdRefresh :: "disk option \<Rightarrow> disk res vcd" where
  "govcdRefresh disk = (case disk of
     None \<Rightarrow> panic ''nil disk''
   | Some d \<Rightarrow> if dHREF d = [] then fail (Errorf ''cannot refresh, Object is empty'' [])
       else attempt (GetDiskRequest (dHREF d)) (\<lambda>e. fail e) (\<lambda>d'. ok d'))"

text \<open>On success the result is the caller's disk, refreshed when it has just been attached.\<close>

definition AttachVolume :: "disk_manager \<Rightarrow> vm \<Rightarrow> disk option \<Rightarrow> disk res vcd" where
  "AttachVolume dm vm disk = with_lock (case disk of
     None \<Rightarrow> fail (Errorf ''disk passed shoulf not be nil'' [])
   | Some d \<Rightarrow>
       attempt (GovcdAttachedVM dm d)
         (\<lambda>e. fail (Errorf ''unable to find volume attached to disk'' [e])) (\<lambda>attachedVMs.
       if mHREF vm \<in> set (map rHREF attachedVMs) then ok d
       else if attachedVMs \<noteq> [] \<and> \<not> dShareable d then
         fail (Errorf ''cannot attach disk since disk is not shareable and VMs are attached'' [])
       else attempt (AttachDisk vm (dHREF d))
         (\<lambda>e. fail (Errorf ''failed to run AttachDisk'' [e])) (\<lambda>task.
       attempt (WaitTaskCompletion task)
         (\<lambda>e. fail (Errorf ''failed waiting for disk to attach to vm'' [])) (\<lambda>_.
       attempt (govcdRefresh (Some d))
         (\<lambda>e. fail (Errorf ''unable to refresh disk for verification'' [e])) (\<lambda>d'.
       ignore (AddToEventSet dm DiskAttachEvent [] (dName d')
           [(''Detailed Info'', DText ''Successfully attached volume to node'')])
         (ok d'))))))"

definition DetachVolume :: "disk_manager \<Rightarrow> vm \<Rightarrow> string \<Rightarrow> zone_map option \<Rightarrow> unit res vcd" where
  "DetachVolume dm vm diskName zm = with_lock (
     attempt (GetDiskByNameOrId dm diskName zm (ClusterOVDCIdentifier (VCDClient dm)))
       (\<lambda>e. if errors_Is_NotFound e then ok ()
            else fail (Errorf ''unable to get disk details'' [e])) (\<lambda>disk.
     attempt (GovcdAttachedVM dm disk)
       (\<lambda>e. fail (Errorf ''error looking for VM attached to disk'' [e])) (\<lambda>attachedVMs.
     if attachedVMs = [] then ok ()
     else if mHREF vm \<notin> set (map rHREF attachedVMs) then ok ()
     else attempt (DetachDisk vm (dHREF disk))
       (\<lambda>e. fail (Errorf ''unable to detach disk from VM'' [e])) (\<lambda>task.
     attempt (WaitTaskCompletion task)
       (\<lambda>e. fail (Errorf ''error while waiting for detach task'' [])) (\<lambda>_.
     ignore (AddToEventSet dm DiskDetachEvent [] (dName disk)
         [(''Detailed Info'', DText ''Successfully detached volume from node'')])
       (ok ()))))))"

section \<open>What must hold before a write\<close>

definition vms_link :: "disk \<Rightarrow> link option" where
  "vms_link d = List.find (\<lambda>l. lType l = MimeVMs) (dLink d)"

text \<open>The last request asked for the machines of disk \<open>d\<close>, and these were the answer.\<close>

definition just_asked :: "disk \<Rightarrow> reference list \<Rightarrow> vcd_event list \<Rightarrow> bool" where
  "just_asked d vms pre \<longleftrightarrow>
     (\<exists>l. vms_link d = Some l \<and> last_is (\<lambda>e. e = EvGetVms l (Inr vms)) pre)"

text \<open>
  Each of these requests is about a disk that was read before and whose machines have just
  been asked for. A delete follows the answer that there is none; an update likewise; an attach
  follows an answer without the machine, and without any machine unless the disk that was read
  is shareable; a detach follows an answer with the machine.
\<close>

fun write_guard :: "vcd_event list \<Rightarrow> vcd_event \<Rightarrow> bool" where
  "write_guard pre (EvDeleteDisk href r) \<longleftrightarrow> (\<exists>d x l. just_asked d [] pre \<and>
     EvGetDisk x (Inr d) \<in> set pre \<and> List.find (\<lambda>l. lRel l = RelRemove) (dLink d) = Some l \<and>
     href = lHREF l)"
| "write_guard pre (EvPutDisk l u r) \<longleftrightarrow> (\<exists>d x. just_asked d [] pre \<and>
     EvGetDisk x (Inr d) \<in> set pre \<and>
     List.find (\<lambda>l. lRel l = RelEdit \<and> lType l = MimeDisk) (dLink d) = Some l \<and> uName u \<noteq> [])"
| "write_guard pre (EvAttach vm href r) \<longleftrightarrow> (\<exists>d x vms. just_asked d vms pre \<and>
     EvGetDisk x (Inr d) \<in> set pre \<and> href = dHREF d \<and> mHREF vm \<notin> set (map rHREF vms) \<and> (vms = [] \<or> dShareable d))"
| "write_guard pre (EvDetach vm href r) \<longleftrightarrow> (\<exists>d x vms. just_asked d vms pre \<and>
     EvGetDisk x (Inr d) \<in> set pre \<and> href = dHREF d \<and> mHREF vm \<in> set (map rHREF vms))"
| "write_guard pre (EvPostDisk l p r) \<longleftrightarrow> dName (pDisk p) \<noteq> [] \<and> sint (dSizeMb (pDisk p)) \<ge> 1 \<and>
     lRel l = RelAdd \<and> lType l = MimeDiskCreateParams"
| "write_guard pre _ \<longleftrightarrow> True"

fun is_disk_write :: "vcd_event \<Rightarrow> bool" where
  "is_disk_write (EvUpdateDisks _ _ _) = False"
| "is_disk_write e = is_storage_write e"

lemma write_guard_other: "\<not> is_disk_write e \<Longrightarrow> write_guard pre e"
  by (cases e) auto

lemma not_disk_write [simp]:
  "is_query e \<Longrightarrow> \<not> is_disk_write e" "is_rde_event e \<Longrightarrow> \<not> is_disk_write e"
  "is_lock_event e \<Longrightarrow> \<not> is_disk_write e"
  by (cases e; simp)+

lemma keeps_query: "emits is_query m \<Longrightarrow> keeps write_guard m"
  by (erule keeps_emits) (simp add: write_guard_other)

lemma keeps_rde: "emits is_rde_event m \<Longrightarrow> keeps write_guard m"
  by (erule keeps_emits) (simp add: write_guard_other)

lemma keeps_find [keeps_rules]: "keeps write_guard (GetDiskByNameOrId dm name zm i)"
  by (intro keeps_query trace_rules)

lemma last_is_snoc [simp]: "last_is P (es @ [e]) = P e"
  by (simp add: last_is_def)

lemma just_asked_snoc [simp]:
  "vms_link d = Some l \<Longrightarrow> just_asked d vms (pre @ [EvGetVms l (Inr vms)])"
  by (simp add: just_asked_def)

declare write_guard.simps(1-4) [simp del]

lemma sat_GovcdAttachedVM [wp]:
  "sat (GovcdAttachedVM dm d) env h Q = (case vms_link d of
     None \<Rightarrow> Q (Done (Inl (Errorf ''could not find request URL for attached vm in disk Link'' []))) []
   | Some l \<Rightarrow> Q (Done (q_getVms env h l)) [EvGetVms l (q_getVms env h l)])"
  by (auto simp: GovcdAttachedVM_def vms_link_def vcd_calls wp split: option.splits sum.splits)

lemma write_guard_intros:
  "just_asked d [] pre \<Longrightarrow> EvGetDisk x (Inr d) \<in> set pre \<Longrightarrow>
     List.find (\<lambda>l. lRel l = RelRemove) (dLink d) = Some l \<Longrightarrow> write_guard pre (EvDeleteDisk (lHREF l) r)"
  "just_asked d [] pre \<Longrightarrow> EvGetDisk x (Inr d) \<in> set pre \<Longrightarrow>
     List.find (\<lambda>l. lRel l = RelEdit \<and> lType l = MimeDisk) (dLink d) = Some l' \<Longrightarrow>
     uName u \<noteq> [] \<Longrightarrow> write_guard pre (EvPutDisk l' u r)"
  "just_asked d vms pre \<Longrightarrow> EvGetDisk x (Inr d) \<in> set pre \<Longrightarrow> mHREF vm \<notin> rHREF ` set vms \<Longrightarrow> vms = [] \<or> dShareable d \<Longrightarrow>
     write_guard pre (EvAttach vm (dHREF d) r)"
  "just_asked d vms pre \<Longrightarrow> EvGetDisk x (Inr d) \<in> set pre \<Longrightarrow> mHREF vm \<in> rHREF ` set vms \<Longrightarrow>
     write_guard pre (EvDetach vm (dHREF d) r)"
  unfolding write_guard.simps by auto

lemma fetched_unique_read: "fetched_unique name es d \<Longrightarrow> \<exists>x. EvGetDisk x (Inr d) \<in> set es"
  by (auto simp: fetched_unique_def)

text \<open>The parts of the operations after the disk has been looked up.\<close>

lemma keeps_createDisk [keeps_rules]: "keeps write_guard (createDisk dm params v)"
  unfolding createDisk_def keeps_def
  by (auto simp: wp vcd_calls split: option.splits list.splits sum.splits dest: find_Some_split)

lemma keeps_calls [keeps_rules]:
  "keeps write_guard (WaitTaskCompletion t)" "keeps write_guard (GetDiskRequest href)"
  "keeps write_guard (FindStorageProfileReference v n)" "keeps write_guard (govcdGetDiskByHref href)"
  by (auto simp: vcd_calls govcdGetDiskByHref_def intro!: keeps_rules)

lemma keeps_sets [keeps_rules]:
  "keeps write_guard (AddToErrorSet dm ty rid rn ds)"
  "keeps write_guard (RemoveFromErrorSet dm ty rid rn)"
  "keeps write_guard (AddToEventSet dm ty rid rn ds)"
  by (rule keeps_rde, rule trace_rules, simp)+

lemma keeps_pv [keeps_rules]:
  "keeps write_guard (addPvToRDE dm i n)" "keeps write_guard (removePvFromRDE dm i n)"
  by (rule keeps_rde, rule trace_rules)+

lemma keeps_createNewDisk [keeps_rules]:
  "keeps write_guard (createNewDisk dm name v sz bt bs desc sp sh)"
  unfolding createNewDisk_def createAndRecord_def by (auto intro!: keeps_rules)

lemma keeps_checkExistingDisk [keeps_rules]:
  "keeps write_guard (checkExistingDisk d sz bt bs sp sh)"
  unfolding checkExistingDisk_def Let_def by (auto intro!: keeps_rules)

lemma keeps_with_lock [keeps_rules]: "keeps write_guard m \<Longrightarrow> keeps write_guard (with_lock m)"
  unfolding keeps_def by (auto simp: wp intro: sat_mono)

lemma keeps_CreateDisk: "keeps write_guard (CreateDisk dm name v sz bt bs desc sp sh zm)"
  unfolding CreateDisk_def by (auto intro!: keeps_rules)

text \<open>A guarded first request, then computations that keep the guard from any history.\<close>

lemma attempt_first:
  assumes "sat m env h (\<lambda>r es. guard_ok G h es)" "\<And>e. keeps G (f e)" "\<And>x. keeps G (k x)"
  shows "sat (attempt m f k) env h (\<lambda>r es. guard_ok G h es)"
  unfolding sat_attempt
  by (rule sat_mono [OF assms(1)])
    (auto split: outcome.splits sum.splits intro!: sat_mono [OF keepsD [OF assms(2)]]
      sat_mono [OF keepsD [OF assms(3)]])

lemma if_first:
  "(b \<Longrightarrow> sat m env h Q) \<Longrightarrow> (\<not> b \<Longrightarrow> sat m' env h Q) \<Longrightarrow> sat (if b then m else m') env h Q"
  by simp

lemma keeps_first: "keeps G m \<Longrightarrow> sat m env h (\<lambda>r es. guard_ok G h es)"
  by (rule keepsD)

text \<open>After the machines of \<open>d\<close> have been asked for, from any history.\<close>

lemma attached_first:
  assumes "\<And>e. keeps write_guard (f e)"
    and "\<And>l vms. vms_link d = Some l \<Longrightarrow> just_asked d vms (h @ [EvGetVms l (Inr vms)]) \<Longrightarrow>
      sat (k vms) env (h @ [EvGetVms l (Inr vms)])
        (\<lambda>r es. guard_ok write_guard (h @ [EvGetVms l (Inr vms)]) es)"
  shows "sat (attempt (GovcdAttachedVM dm d) f k) env h (\<lambda>r es. guard_ok write_guard h es)"
  using assms by (auto simp: wp split: option.splits sum.splits intro!: sat_mono [OF keepsD])

lemma attach_first:
  assumes "\<And>r. write_guard h (EvAttach vm href r)"
  shows "sat (AttachDisk vm href) env h (\<lambda>r es. guard_ok write_guard h es)"
  using assms by (simp add: vcd_calls wp)

lemma detach_first:
  assumes "\<And>r. write_guard h (EvDetach vm href r)"
  shows "sat (DetachDisk vm href) env h (\<lambda>r es. guard_ok write_guard h es)"
  using assms by (simp add: vcd_calls wp)

lemma keeps_govcdRefresh [keeps_rules]: "keeps write_guard (govcdRefresh d)"
  unfolding govcdRefresh_def by (auto intro!: keeps_rules)

lemma ret_first [simp]: "sat (ret x) env h (\<lambda>r es. guard_ok G h es)"
  by (simp add: wp)

text \<open>Computations that keep the guard once the disk \<open>d\<close> has been read.\<close>

definition keeps_read :: "disk \<Rightarrow> 'a vcd \<Rightarrow> bool" where
  "keeps_read d m \<longleftrightarrow> (\<forall>env h. (\<exists>x. EvGetDisk x (Inr d) \<in> set h) \<longrightarrow>
     sat m env h (\<lambda>r es. guard_ok write_guard h es))"

named_theorems read_rules \<open>introduction rules for the guard after a read\<close>

lemma keeps_readD:
  "keeps_read d m \<Longrightarrow> \<exists>x. EvGetDisk x (Inr d) \<in> set h \<Longrightarrow>
   sat m env h (\<lambda>r es. guard_ok write_guard h es)"
  by (auto simp: keeps_read_def)

lemma read_keeps: "keeps write_guard m \<Longrightarrow> keeps_read d m"
  by (simp add: keeps_read_def keeps_def)

lemma read_bind:
  assumes "keeps_read d m" and "\<And>x. keeps_read d (k x)"
  shows "keeps_read d (bind m k)"
  unfolding keeps_read_def sat_bind
proof (intro allI impI, rule sat_mono, erule keeps_readD [OF assms(1)])
  fix env :: vcd_env and h es :: "vcd_event list" and r
  assume "\<exists>x. EvGetDisk x (Inr d) \<in> set h" and "guard_ok write_guard h es"
  moreover from this(1) have "\<exists>x. EvGetDisk x (Inr d) \<in> set (h @ es)" by auto
  ultimately show "case r of Done x \<Rightarrow> sat (k x) env (h @ es) (\<lambda>r' es'. guard_ok write_guard h (es @ es'))
     | Panic s \<Rightarrow> guard_ok write_guard h es"
    using keeps_readD [OF assms(2)] by (auto split: outcome.splits)
qed

lemma read_combinators [read_rules]:
  "keeps_read d m \<Longrightarrow> (\<And>e. keeps_read d (f e)) \<Longrightarrow> (\<And>x. keeps_read d (k' x)) \<Longrightarrow>
     keeps_read d (attempt m f k')"
  "keeps_read d m' \<Longrightarrow> keeps_read d k \<Longrightarrow> keeps_read d (ignore m' k)"
  "(b \<Longrightarrow> keeps_read d k) \<Longrightarrow> (\<not> b \<Longrightarrow> keeps_read d k'') \<Longrightarrow> keeps_read d (if b then k else k'')"
  unfolding attempt_def ignore_def
  by (intro read_bind | simp split: sum.splits)+

lemma read_with_lock [read_rules]: "keeps_read d m \<Longrightarrow> keeps_read d (with_lock m)"
  unfolding keeps_read_def by (auto simp: wp intro: sat_mono)

lemma read_UpdateDisk: "keeps_read d (UpdateDisk dm d info)"
  unfolding UpdateDisk_def keeps_read_def
  by (auto simp: wp vcd_calls split: option.splits sum.splits intro!: write_guard_intros)

lemma read_attach_body:
  "keeps_read d (attempt (GovcdAttachedVM dm d) f (\<lambda>vms.
     if mHREF vm \<in> set (map rHREF vms) then ok d
     else if vms \<noteq> [] \<and> \<not> dShareable d then fail e
     else attempt (AttachDisk vm (dHREF d)) g k))"
  if "\<And>e. keeps write_guard (f e)" "\<And>e. keeps write_guard (g e)" "\<And>x. keeps write_guard (k x)"
  unfolding keeps_read_def
  by (intro allI impI attached_first if_first that ret_first)
    (rule attempt_first [OF attach_first], auto intro!: write_guard_intros that)

lemma read_AttachVolume: "keeps_read d (AttachVolume dm vm (Some d))"
  unfolding AttachVolume_def option.case
  by (intro read_with_lock read_attach_body keeps_rules)

lemma keeps_AttachVolume_nil: "keeps write_guard (AttachVolume dm vm None)"
  unfolding AttachVolume_def by (simp add: keeps_rules)

text \<open>The rest of an operation that has read the disk \<open>d\<close>.\<close>

lemma find_first:
  assumes "\<And>e. keeps write_guard (f e)"
    and "\<And>d h. \<exists>x. EvGetDisk x (Inr d) \<in> set h \<Longrightarrow> sat (k d) env h (\<lambda>r es. guard_ok write_guard h es)"
  shows "sat (attempt (GetDiskByNameOrId dm name zm i) f k) env h (\<lambda>r es. guard_ok write_guard h es)"
proof (rule disk_lookup.attempt_find_rule)
  have *: "guard_ok write_guard h es" if "list_all is_query es" for es h
    using that by (auto simp: list_all_iff intro!: guard_ok_all write_guard_other)
  then show "guard_ok write_guard h es" if "list_all is_query es" for es
    using that .
  show "sat (f e) env (h @ es) (\<lambda>r es'. guard_ok write_guard h (es @ es'))" if "list_all is_query es" for e es
    using * [OF that] by (auto intro: sat_mono [OF keepsD [OF assms(1)]])
  show "sat (k d) env (h @ es) (\<lambda>r es'. guard_ok write_guard h (es @ es'))"
    if "list_all is_query es" "fetched_unique name es d" for d es
  proof -
    have "\<exists>x. EvGetDisk x (Inr d) \<in> set (h @ es)" using fetched_unique_read [OF that(2)] by auto
    from assms(2) [OF this] show ?thesis using * [OF that(1)] by (auto intro: sat_mono)
  qed
qed

lemma keeps_find_body:
  assumes "\<And>e. keeps write_guard (f e)"
    and "\<And>d h env. \<exists>x. EvGetDisk x (Inr d) \<in> set h \<Longrightarrow> sat (k d) env h (\<lambda>r es. guard_ok write_guard h es)"
  shows "keeps write_guard (attempt (GetDiskByNameOrId dm name zm i) f k)"
  unfolding keeps_def by (intro allI find_first assms)

lemma detach_guard:
  assumes "\<exists>x. EvGetDisk x (Inr d) \<in> set h" and "mHREF vm \<in> set (map rHREF vms)"
    and "just_asked d vms (h @ [EvGetVms l (Inr vms)])"
  shows "write_guard (h @ [EvGetVms l (Inr vms)]) (EvDetach vm (dHREF d) r)"
proof -
  obtain x where "EvGetDisk x (Inr d) \<in> set (h @ [EvGetVms l (Inr vms)])" using assms(1) by auto
  then show ?thesis using assms(2,3) by (intro write_guard_intros) auto
qed

lemma keeps_DetachVolume: "keeps write_guard (DetachVolume dm vm name zm)"
  unfolding DetachVolume_def
  by (intro keeps_with_lock keeps_find_body attached_first if_first ret_first
      attempt_first [OF detach_first] detach_guard)
    (auto intro!: keeps_rules)

lemma delete_first:
  assumes "\<exists>x. EvGetDisk x (Inr d) \<in> set h"
  shows "sat (govcdDelete dm d) env h (\<lambda>r es. guard_ok write_guard h es)"
proof -
  obtain x where "EvGetDisk x (Inr d) \<in> set h" using assms by auto
  then show ?thesis
    unfolding govcdDelete_def
    by (intro attached_first if_first)
      (auto simp: vcd_calls wp intro!: write_guard_intros(1) [where x = x] split: option.splits)
qed

lemma keeps_finishDelete [keeps_rules]: "keeps write_guard (finishDelete dm d t)"
  unfolding finishDelete_def by (auto intro!: keeps_rules)

lemma keeps_DeleteDisk: "keeps write_guard (DeleteDisk dm name zm)"
  unfolding DeleteDisk_def
  by (intro keeps_with_lock keeps_find_body attached_first if_first ret_first
      attempt_first [OF delete_first])
    (auto intro!: keeps_rules)

section \<open>The lock\<close>

text \<open>Whether the client's lock is held after a history.\<close>

definition held :: "vcd_event list \<Rightarrow> bool" where
  "held es = foldl (\<lambda>b e. case e of EvLock \<Rightarrow> True | EvUnlock \<Rightarrow> False | _ \<Rightarrow> b) False es"

lemma held_simps [simp]: "\<not> held []" "held (es @ [EvLock])" "\<not> held (es @ [EvUnlock])"
  by (simp_all add: held_def)

lemma held_append: "list_all (\<lambda>e. \<not> is_lock_event e) es' \<Longrightarrow> held (es @ es') = held es"
proof (induction es' rule: rev_induct)
  case Nil
  show ?case by simp
next
  case (snoc e es')
  then show ?case by (cases e) (simp_all add: held_def)
qed

lemma held_section: "list_all (\<lambda>e. \<not> is_lock_event e) es' \<Longrightarrow> held (es @ EvLock # es')"
  using held_append [of es' "es @ [EvLock]"] by simp

definition critical_section :: "vcd_event list \<Rightarrow> bool" where
  "critical_section es \<longleftrightarrow>
     (\<exists>es'. es = EvLock # es' @ [EvUnlock] \<and> list_all (\<lambda>e. \<not> is_lock_event e) es')"

lemma with_lock_section:
  assumes "emits (\<lambda>e. \<not> is_lock_event e) m"
  shows "sat (with_lock m) env h (\<lambda>r es. critical_section es)"
  unfolding critical_section_def sat_with_lock
  by (rule emits_rule [OF assms]) auto

text \<open>
  What the operations promise: one critical section, with guarded writes in it when it starts
  from the histories named (for an attach those in which its disk has been read).
\<close>

locale locked_operation =
  fixes op :: "'a vcd" and start :: "vcd_event list \<Rightarrow> bool"
  assumes in_section: "sat op env h (\<lambda>r es. critical_section es)"
    and guarded: "start h \<Longrightarrow> sat op env h (\<lambda>r es. guard_ok write_guard h es)"
begin

lemma writes:
  assumes "start h" and "op env h = (r, xs @ e # ys)" and "is_disk_write e"
  shows "held (h @ xs) \<and> write_guard (h @ xs) e"
proof
  obtain es' where es': "xs @ e # ys = EvLock # es' @ [EvUnlock]"
      "list_all (\<lambda>e. \<not> is_lock_event e) es'"
    using in_section [of env h] assms(2) by (auto simp: sat_pair critical_section_def)
  then obtain xs' where xs': "xs = EvLock # xs'"
    using assms(3) by (cases xs) auto
  with es' have "xs' @ e # ys = es' @ [EvUnlock]" by simp
  then have "\<exists>zs. es' = xs' @ zs"
    using assms(3) by (cases ys rule: rev_cases) auto
  then have "list_all (\<lambda>e. \<not> is_lock_event e) xs'"
    using es'(2) by auto
  then show "held (h @ xs)"
    by (simp add: xs' held_section)
  have "guard_ok write_guard h (xs @ e # ys)"
    using guarded [OF assms(1), of env] assms(2) by (simp add: sat_pair)
  then show "write_guard (h @ xs) e"
    by simp
qed

lemma releases: "\<not> held (h @ snd (op env h))"
proof -
  obtain es' where "snd (op env h) = EvLock # es' @ [EvUnlock]"
    using in_section [of env h] by (auto simp: sat_iff critical_section_def)
  then show ?thesis
    using held_simps(3) [of "h @ EvLock # es'"] by simp
qed

end

abbreviation unlocked :: "vcd_event \<Rightarrow> bool" where
  "unlocked e \<equiv> \<not> is_lock_event e"

lemma unlocked_parts:
  "emits unlocked (GetDiskByNameOrId dm name zm i)" "emits unlocked (govcdGetDiskByHref href)"
  "emits unlocked (addPvToRDE dm a b)" "emits unlocked (removePvFromRDE dm a b)"
  by (rule emits_mono, rule trace_rules, simp)+

lemma unlocked_GovcdAttachedVM: "emits unlocked (GovcdAttachedVM dm d)"
  unfolding GovcdAttachedVM_def by (auto intro!: trace_rules)

lemma unlocked_govcdDelete: "emits unlocked (govcdDelete dm d)"
  unfolding govcdDelete_def by (auto intro!: trace_rules unlocked_GovcdAttachedVM)

lemma unlocked_createNewDisk: "emits unlocked (createNewDisk dm name v sz bt bs desc sp sh)"
  unfolding createNewDisk_def createAndRecord_def createDisk_def
  by (auto intro!: trace_rules unlocked_parts split: list.splits)

lemma unlocked_checkExistingDisk: "emits unlocked (checkExistingDisk d sz bt bs sp sh)"
  unfolding checkExistingDisk_def Let_def by (auto intro!: trace_rules)

lemma unlocked_govcdRefresh: "emits unlocked (govcdRefresh d)"
  unfolding govcdRefresh_def by (auto intro!: trace_rules)

lemmas unlocked_rules = unlocked_parts unlocked_GovcdAttachedVM unlocked_govcdDelete
  unlocked_createNewDisk unlocked_checkExistingDisk unlocked_govcdRefresh

interpretation create: locked_operation "CreateDisk dm name v sz bt bs desc sp sh zm" "\<lambda>h. True"
  for dm name v sz bt bs desc sp sh zm
proof
  show "sat (CreateDisk dm name v sz bt bs desc sp sh zm) env h (\<lambda>r es. critical_section es)" for env h
    unfolding CreateDisk_def by (intro with_lock_section) (auto intro!: trace_rules unlocked_rules)
qed (rule keepsD [OF keeps_CreateDisk])

interpretation delete: locked_operation "DeleteDisk dm name zm" "\<lambda>h. True" for dm name zm
proof
  show "sat (DeleteDisk dm name zm) env h (\<lambda>r es. critical_section es)" for env h
    unfolding DeleteDisk_def finishDelete_def by (intro with_lock_section) (auto intro!: trace_rules unlocked_rules)
qed (rule keepsD [OF keeps_DeleteDisk])

interpretation attach: locked_operation "AttachVolume dm vm d"
    "\<lambda>h. \<forall>d'. d = Some d' \<longrightarrow> (\<exists>x. EvGetDisk x (Inr d') \<in> set h)" for dm vm d
proof
  show "sat (AttachVolume dm vm d) env h (\<lambda>r es. critical_section es)" for env h
    unfolding AttachVolume_def by (intro with_lock_section) (auto intro!: trace_rules unlocked_rules)
  show "sat (AttachVolume dm vm d) env h (\<lambda>r es. guard_ok write_guard h es)"
    if "\<forall>d'. d = Some d' \<longrightarrow> (\<exists>x. EvGetDisk x (Inr d') \<in> set h)" for env h
    using that keeps_readD [OF read_AttachVolume] keepsD [OF keeps_AttachVolume_nil] by (cases d) auto
qed

interpretation detach: locked_operation "DetachVolume dm vm name zm" "\<lambda>h. True" for dm vm name zm
proof
  show "sat (DetachVolume dm vm name zm) env h (\<lambda>r es. critical_section es)" for env h
    unfolding DetachVolume_def by (intro with_lock_section) (auto intro!: trace_rules unlocked_rules)
qed (rule keepsD [OF keeps_DetachVolume])

section \<open>Computations that use the lock properly\<close>

text \<open>
  The requests of the DiskManager's operations are made while the lock is held, which is
  taken when it is free and released when it is held. UpdateDisk takes no lock, and nor does
  the resize through a machine.
\<close>

fun lock_guard :: "vcd_event list \<Rightarrow> vcd_event \<Rightarrow> bool" where
  "lock_guard pre EvLock \<longleftrightarrow> \<not> held pre"
| "lock_guard pre EvUnlock \<longleftrightarrow> held pre"
| "lock_guard pre (EvPostDisk _ _ _) \<longleftrightarrow> held pre"
| "lock_guard pre (EvDeleteDisk _ _) \<longleftrightarrow> held pre"
| "lock_guard pre (EvAttach _ _ _) \<longleftrightarrow> held pre"
| "lock_guard pre (EvDetach _ _ _) \<longleftrightarrow> held pre"
| "lock_guard pre _ \<longleftrightarrow> True"

definition balanced :: "'a vcd \<Rightarrow> bool" where
  "balanced m \<longleftrightarrow> (\<forall>env h. \<not> held h \<longrightarrow>
     sat m env h (\<lambda>r es. guard_ok lock_guard h es \<and> \<not> held (h @ es)))"

named_theorems balanced_rules \<open>introduction rules for the use of the lock\<close>

lemma balancedD:
  "balanced m \<Longrightarrow> \<not> held h \<Longrightarrow> sat m env h (\<lambda>r es. guard_ok lock_guard h es \<and> \<not> held (h @ es))"
  by (simp add: balanced_def)

text \<open>Events that need no lock.\<close>

definition free_event :: "vcd_event \<Rightarrow> bool" where
  "free_event e \<longleftrightarrow> \<not> is_lock_event e \<and> (\<forall>pre. lock_guard pre e)"

lemma free_events [simp]:
  "is_query e \<Longrightarrow> free_event e" "is_rde_event e \<Longrightarrow> free_event e"
  "free_event (EvRefreshToken t)" "free_event (EvSearchVM n a b v)" "free_event (EvWaitTask k w)"
  "free_event (EvPutDisk l u q)" "free_event (EvUpdateDisks m ss z)" "free_event (EvFindProfile vn pn pr)"
  by (cases e; simp add: free_event_def)+

lemma balanced_emits: "emits free_event m \<Longrightarrow> balanced m"
  unfolding balanced_def
  by (auto simp: free_event_def list_all_iff held_append
      intro!: emits_rule [where m = m] guard_ok_all)

lemma balanced_ret [balanced_rules, simp]: "balanced (ret x)"
  by (simp add: balanced_def wp)

lemma balanced_panic [balanced_rules, simp]: "balanced (panic s)"
  by (simp add: balanced_def wp)

lemma balanced_bind [balanced_rules]:
  assumes "balanced m" and "\<And>x. balanced (k x)"
  shows "balanced (bind m k)"
  unfolding balanced_def sat_bind
proof (intro allI impI, rule sat_mono, erule balancedD [OF assms(1)])
  fix env :: vcd_env and h es :: "vcd_event list" and r
  assume "guard_ok lock_guard h es \<and> \<not> held (h @ es)"
  then show "case r of Done x \<Rightarrow> sat (k x) env (h @ es)
       (\<lambda>r' es'. guard_ok lock_guard h (es @ es') \<and> \<not> held (h @ es @ es'))
     | Panic s \<Rightarrow> guard_ok lock_guard h es \<and> \<not> held (h @ es)"
    using balancedD [OF assms(2), of "h @ es"] by (auto split: outcome.splits)
qed

lemma balanced_attempt [balanced_rules]:
  "balanced m \<Longrightarrow> (\<And>e. balanced (f e)) \<Longrightarrow> (\<And>x. balanced (k x)) \<Longrightarrow> balanced (attempt m f k)"
  unfolding attempt_def by (intro balanced_bind) (auto split: sum.splits)

lemma balanced_ignore [balanced_rules]: "balanced m \<Longrightarrow> balanced k \<Longrightarrow> balanced (ignore m k)"
  unfolding ignore_def by (intro balanced_bind)

lemma balanced_if [balanced_rules]:
  "(b \<Longrightarrow> balanced m) \<Longrightarrow> (\<not> b \<Longrightarrow> balanced m') \<Longrightarrow> balanced (if b then m else m')"
  by simp

lemma balanced_let [balanced_rules]: "balanced (f x) \<Longrightarrow> balanced (let y = x in f y)"
  by simp

lemma balanced_case_option [balanced_rules]:
  "(x = None \<Longrightarrow> balanced m) \<Longrightarrow> (\<And>y. x = Some y \<Longrightarrow> balanced (k y)) \<Longrightarrow>
   balanced (case x of None \<Rightarrow> m | Some y \<Rightarrow> k y)"
  by (cases x) auto

text \<open>An operation that is one critical section uses the lock properly.\<close>

context locked_operation
begin

lemma balanced_op: "balanced op"
  unfolding balanced_def
proof (intro allI impI)
  fix env :: vcd_env and h :: "vcd_event list"
  assume free: "\<not> held h"
  show "sat op env h (\<lambda>r es. guard_ok lock_guard h es \<and> \<not> held (h @ es))"
  proof (rule sat_mono [OF in_section [of env h]])
    fix r es
    assume "critical_section es"
    then obtain es' where es: "es = EvLock # es' @ [EvUnlock]" and quiet: "list_all unlocked es'"
      by (auto simp: critical_section_def)
    have inside: "guard_ok lock_guard pre es'" if "held pre" for pre
      using that quiet
    proof (induction es' arbitrary: pre)
      case (Cons e es')
      then have "held (pre @ [e])" using held_append [of "[e]" pre] by simp
      with Cons show ?case by (cases e) auto
    qed simp
    have "held (h @ EvLock # es')" using held_section [OF quiet] .
    then show "guard_ok lock_guard h es \<and> \<not> held (h @ es)"
      using free inside [of "h @ [EvLock]"] held_simps(3) [of "h @ EvLock # es'"] by (simp add: es)
  qed
qed

end

lemmas balanced_operations [balanced_rules] =
  create.balanced_op delete.balanced_op attach.balanced_op detach.balanced_op

lemma balanced_parts [balanced_rules]:
  "balanced (GetDiskByNameOrId dm name zm i)" "balanced (GovcdAttachedVM dm d)"
  "balanced (AddToErrorSet dm ty rid rn ds)" "balanced (RemoveFromErrorSet dm ty rid rn)"
  "balanced (AddToEventSet dm ty rid rn ds)" "balanced (UpdateDisk dm d info)"
  "balanced (WaitTaskCompletion t)" "balanced RefreshBearerToken"
  "balanced (GetVDCByNameOrId dm i)" "balanced (SearchVMAcrossVDCs a b c)"
  "balanced (UpdateInternalDisks m ss)" "balanced (range_over zs)"
proof -
  show "balanced (GetDiskByNameOrId dm name zm i)"
    by (rule balanced_emits, rule emits_mono, rule trace_rules) simp
  show "balanced (GovcdAttachedVM dm d)" "balanced (UpdateDisk dm d info)"
    unfolding UpdateDisk_def GovcdAttachedVM_def
    by (rule balanced_emits; auto intro!: trace_rules)+
qed (rule balanced_emits; auto intro!: trace_rules)+

section \<open>Examples\<close>

definition vm1 :: vm where "vm1 = \<lparr>mHREF = ''vm1'', mName = ''node1'', mVmSpecSection = None\<rparr>"

definition ref_vm1 :: reference where
  "ref_vm1 = \<lparr>rHREF = ''vm1'', rID = [], rType = [], rName = ''node1''\<rparr>"

definition add_link :: link where
  "add_link = \<lparr>lHREF = ''add1'', lID = [], lType = MimeDiskCreateParams, lName = [], lRel = RelAdd\<rparr>"

definition create_env :: vcd_env where
  "create_env = (one_disk_env [])\<lparr>
     q_postDisk := (\<lambda>_ _ _. Inr (zero_disk\<lparr>dTasks := Some [\<lparr>tHREF = ''task1'', tOwner = None\<rparr>]\<rparr>)),
     q_waitTask := (\<lambda>_ _. Inr \<lparr>tHREF = ''task1'', tOwner = Some
       \<lparr>rHREF = ''href2'', rID = [], rType = [], rName = []\<rparr>\<rparr>)\<rparr>"

lemma sat_lookup_missing:
  "sat (GetDiskByNameOrId dm0 ''pvc2'' None ''ovdc'') create_env h Q =
     Q (Done (Inl ErrorEntityNotFound)) [EvGetVDC ''ovdc'' (Inr vdc0)]"
proof -
  have "\<not> isUrn ''pvc2''" "\<not> IsUuid ''pvc2''" by code_simp+
  then show ?thesis
    by (simp add: GetDiskByNameOrId_def searchClusterVDC_def govcdGetDisksByNameOrId_def
        getEntityByNameOrIdSkipNonId_def disks_getter_def govcdGetDisksByName_def
        wp create_env_def one_disk_env_def vdc0_def dm0_def)
qed

lemma create_env_simps:
  "q_postDisk create_env h l p = Inr (zero_disk\<lparr>dTasks := Some [\<lparr>tHREF = ''task1'', tOwner = None\<rparr>]\<rparr>)"
  "q_waitTask create_env h t = Inr \<lparr>tHREF = ''task1'', tOwner = Some \<lparr>rHREF = ''href2'', rID = [], rType = [], rName = []\<rparr>\<rparr>"
  "q_rde create_env h = Inr ()" "q_getDisk create_env h i = Inr disk0"
  by (simp_all add: create_env_def one_disk_env_def down_env_def Let_def)

lemma create_example:
  "\<exists>r a ys. CreateDisk dm0 ''pvc2'' (vdc0\<lparr>vLink := [add_link]\<rparr>) 1024 VCDBusTypeSCSI
      VCDBusSubTypeVirtualSCSI [] [] False None create_env [] =
    (r, [EvLock, EvGetVDC ''ovdc'' (Inr vdc0), EvRemoveError [] DiskQueryError [] ''pvc2'' (Inr ())] @
       EvPostDisk add_link (newDiskParams ''pvc2'' 1024 VCDBusTypeSCSI VCDBusSubTypeVirtualSCSI []
         False None) a # ys)"
proof -
  have o1: "ClusterOVDCIdentifier (VCDClient dm0) = ''ovdc''" "ClusterID dm0 = []"
    by (simp_all add: dm0_def)
  have "sat (CreateDisk dm0 ''pvc2'' (vdc0\<lparr>vLink := [add_link]\<rparr>) 1024 VCDBusTypeSCSI
      VCDBusSubTypeVirtualSCSI [] [] False None) create_env [] (\<lambda>r es. \<exists>a ys. es =
       [EvLock, EvGetVDC ''ovdc'' (Inr vdc0), EvRemoveError [] DiskQueryError [] ''pvc2'' (Inr ())] @
       EvPostDisk add_link (newDiskParams ''pvc2'' 1024 VCDBusTypeSCSI VCDBusSubTypeVirtualSCSI []
         False None) a # ys)"
    by (simp add: CreateDisk_def createNewDisk_def createAndRecord_def createDisk_def wp vcd_calls
        o1 sat_lookup_missing add_link_def newDiskParams_def rdeEnabled_def create_env_simps)
  then show ?thesis by (auto simp: sat_iff prod_eq_iff)
qed

section \<open>Errors\<close>

text \<open>
  A plain error: not a gRPC status, and not one that \<open>errors.Is\<close> takes for a missing entity.
  The operations quote every error in a new text, so all that they return are plain.
\<close>

fun plain_error :: "goerr \<Rightarrow> bool" where
  "plain_error (Errorf msg es) = True"
| "plain_error (NoRDEError msg) = True"
| "plain_error _ = False"

lemma plain_not_missing: "plain_error e \<Longrightarrow> \<not> errors_Is_NotFound e"
  by (cases e) simp_all

lemma errors_with_lock: "errors_are P body \<Longrightarrow> errors_are P (with_lock body)"
  unfolding errors_are_def by (auto simp: wp intro!: sat_mono)

lemma plain_operations:
  "errors_are plain_error (CreateDisk dm name v sz bt bst desc sp sh zm)"
  "errors_are plain_error (DeleteDisk dm name zm)" "errors_are plain_error (AttachVolume dm vm od)"
  "errors_are plain_error (DetachVolume dm vm name zm)"
proof -
  have "errors_are plain_error (createAndRecord dm name p v)" for p v
    unfolding createAndRecord_def by (auto intro!: errors_rules)
  then show "errors_are plain_error (CreateDisk dm name v sz bt bst desc sp sh zm)"
    unfolding CreateDisk_def createNewDisk_def checkExistingDisk_def Let_def
    by (auto intro!: errors_with_lock errors_rules split: sum.split option.split)
qed (unfold DeleteDisk_def finishDelete_def AttachVolume_def DetachVolume_def,
    auto intro!: errors_with_lock errors_rules)

section \<open>Properties\<close>

text \<open>
  \<open>deleted name r es\<close>: the trace of a deletion. The disk is the unique one of that name; its
  machines were asked for twice, right before the delete, and there were none; success means
  that the delete was accepted and its task finished.
\<close>

definition deleted :: "string \<Rightarrow> unit res outcome \<Rightarrow> vcd_event list \<Rightarrow> bool" where
  "deleted name r es \<longleftrightarrow> (\<exists>qs d l l' a bs.
     es = EvLock # qs @ EvGetVms l (Inr []) # EvGetVms l (Inr []) # EvDeleteDisk (lHREF l') a #
       bs @ [EvUnlock] \<and>
     list_all is_query qs \<and> fetched_unique name qs d \<and> vms_link d = Some l \<and>
     List.find (\<lambda>l. lRel l = RelRemove) (dLink d) = Some l' \<and>
     list_all (\<lambda>e. \<not> is_storage_write e \<and> \<not> is_lock_event e) bs \<and>
     (case r of Done (Inr _) \<Rightarrow> \<exists>t t' cs. a = Inr t \<and> bs = EvWaitTask t (Inr t') # cs | _ \<Rightarrow> True))"

lemma deletedI:
  "list_all is_query qs \<Longrightarrow> fetched_unique name qs d \<Longrightarrow> vms_link d = Some l \<Longrightarrow>
   List.find (\<lambda>l. lRel l = RelRemove) (dLink d) = Some l' \<Longrightarrow>
   list_all (\<lambda>e. \<not> is_storage_write e \<and> \<not> is_lock_event e) bs \<Longrightarrow>
   (case r of Done (Inr _) \<Rightarrow> \<exists>t t' cs. a = Inr t \<and> bs = EvWaitTask t (Inr t') # cs | _ \<Rightarrow> True) \<Longrightarrow>
   deleted name r (EvLock # qs @ EvGetVms l (Inr []) # EvGetVms l (Inr []) #
     EvDeleteDisk (lHREF l') a # bs @ [EvUnlock])"
  unfolding deleted_def by blast

lemma sat_finishDelete:
  "sat (finishDelete dm d t) env h (\<lambda>r bs.
     list_all (\<lambda>e. \<not> is_storage_write e \<and> \<not> is_lock_event e) bs \<and>
     (case r of Done (Inr _) \<Rightarrow> \<exists>t' cs. bs = EvWaitTask t (Inr t') # cs | _ \<Rightarrow> True))"
  unfolding finishDelete_def
  by (auto simp: wp vcd_calls list_all_iff split: sum.splits outcome.splits
      intro!: emits_rule [OF emits_removePvFromRDE])

lemma DeleteDisk_story:
  "sat (DeleteDisk dm name zm) env h (\<lambda>r es. deleted name r es \<or>
     (\<exists>qs. es = EvLock # qs @ [EvUnlock] \<and> list_all is_query qs \<and>
        (case r of Done (Inr _) \<Rightarrow> \<exists>e. errors_Is_NotFound e \<and>
           GetDiskByNameOrId dm name zm (ClusterOVDCIdentifier (VCDClient dm)) env (h @ [EvLock]) =
             (Done (Inl e), qs) | _ \<Rightarrow> True)))"
proof (cases rule: lookup_cases [of dm name zm "ClusterOVDCIdentifier (VCDClient dm)" env "h @ [EvLock]"])
  case (panic s qs)
  show ?thesis using panic(2) by (auto simp: panic(1) DeleteDisk_def sat_with_lock sat_attempt)
next
  case (error e qs)
  show ?thesis using error(2,3) by (auto simp: error(1) DeleteDisk_def sat_with_lock sat_attempt sat_if sat_ret)
next
  case (found d qs)
  note * = deletedI [OF found(2,3)]
  show ?thesis
    using found(2)
    by (auto simp: found(1) DeleteDisk_def govcdDelete_def wp vcd_calls
        split: option.splits sum.splits outcome.splits
        intro!: sat_mono [OF sat_finishDelete] * * [where bs = "[]", simplified])
qed

text \<open>
  C13: the whole story of DeleteDisk, in every environment. It is one critical section. Either
  it deletes: the disk that is deleted is the unique one of that name, its machines have been
  asked for twice, the second time in the request right before, and there were none; success
  then means that the delete was accepted and its task finished. Or it only queries, and
  success then means that the lookup found no disk.
\<close>

theorem DeleteDisk_spec:
  "sat (DeleteDisk dm name zm) env h (\<lambda>r es. deleted name r es \<or>
     (\<exists>qs. es = EvLock # qs @ [EvUnlock] \<and> list_all is_query qs \<and>
        (case r of Done (Inr _) \<Rightarrow> \<exists>e. errors_Is_NotFound e \<and>
           GetDiskByNameOrId dm name zm (ClusterOVDCIdentifier (VCDClient dm)) env (h @ [EvLock]) =
             (Done (Inl e), qs) | _ \<Rightarrow> True)))"
  by (rule DeleteDisk_story)

lemma AttachVolume_story:
  "sat (AttachVolume dm vm (Some d)) env h (\<lambda>r es.
     (\<exists>l vms a bs. es = EvLock # EvGetVms l (Inr vms) # EvAttach vm (dHREF d) a # bs @ [EvUnlock] \<and>
        vms_link d = Some l \<and> mHREF vm \<notin> set (map rHREF vms) \<and> (vms = [] \<or> dShareable d) \<and>
        list_all (\<lambda>e. \<not> is_storage_write e \<and> \<not> is_lock_event e) bs \<and>
        (case r of Done (Inr d') \<Rightarrow> \<exists>t t' cs. a = Inr t \<and>
           bs = EvWaitTask t (Inr t') # EvGetDisk (dHREF d) (Inr d') # cs | _ \<Rightarrow> True)) \<or>
     (\<exists>qs. es = EvLock # qs @ [EvUnlock] \<and> list_all is_query qs \<and>
        (case r of Done (Inr d') \<Rightarrow> d' = d \<and> (\<exists>l vms. qs = [EvGetVms l (Inr vms)] \<and>
           vms_link d = Some l \<and> mHREF vm \<in> set (map rHREF vms)) | _ \<Rightarrow> True)))"
  unfolding AttachVolume_def govcdRefresh_def
  by (simp add: wp vcd_calls split: option.splits sum.splits)

text \<open>
  C12: the whole story of AttachVolume, in every environment. It is one critical section. Either
  it attaches: the request right before said that the machine is not among those of the disk,
  and that there are none unless the disk is shareable; success then means that the attach was
  accepted, its task finished, and the result is the disk read afterwards. Or it writes
  nothing, and success then means that the machine is attached already.
\<close>

theorem AttachVolume_spec:
  "sat (AttachVolume dm vm (Some d)) env h (\<lambda>r es.
     (\<exists>l vms a bs. es = EvLock # EvGetVms l (Inr vms) # EvAttach vm (dHREF d) a # bs @ [EvUnlock] \<and>
        vms_link d = Some l \<and> mHREF vm \<notin> set (map rHREF vms) \<and> (vms = [] \<or> dShareable d) \<and>
        list_all (\<lambda>e. \<not> is_storage_write e \<and> \<not> is_lock_event e) bs \<and>
        (case r of Done (Inr d') \<Rightarrow> \<exists>t t' cs. a = Inr t \<and>
           bs = EvWaitTask t (Inr t') # EvGetDisk (dHREF d) (Inr d') # cs | _ \<Rightarrow> True)) \<or>
     (\<exists>qs. es = EvLock # qs @ [EvUnlock] \<and> list_all is_query qs \<and>
        (case r of Done (Inr d') \<Rightarrow> d' = d \<and> (\<exists>l vms. qs = [EvGetVms l (Inr vms)] \<and>
           vms_link d = Some l \<and> mHREF vm \<in> set (map rHREF vms)) | _ \<Rightarrow> True)))"
  by (rule AttachVolume_story)

definition detached :: "string \<Rightarrow> vm \<Rightarrow> unit res outcome \<Rightarrow> vcd_event list \<Rightarrow> bool" where
  "detached name vm r es \<longleftrightarrow> (\<exists>qs d l vms a bs.
     es = EvLock # qs @ EvGetVms l (Inr vms) # EvDetach vm (dHREF d) a # bs @ [EvUnlock] \<and>
     list_all is_query qs \<and> fetched_unique name qs d \<and> vms_link d = Some l \<and>
     mHREF vm \<in> set (map rHREF vms) \<and>
     list_all (\<lambda>e. \<not> is_storage_write e \<and> \<not> is_lock_event e) bs \<and>
     (case r of Done (Inr _) \<Rightarrow> \<exists>t t' cs. a = Inr t \<and> bs = EvWaitTask t (Inr t') # cs | _ \<Rightarrow> True))"

lemma detachedI:
  "list_all is_query qs \<Longrightarrow> fetched_unique name qs d \<Longrightarrow> vms_link d = Some l \<Longrightarrow>
   mHREF vm \<in> rHREF ` set vms \<Longrightarrow>
   list_all (\<lambda>e. \<not> is_storage_write e \<and> \<not> is_lock_event e) bs \<Longrightarrow>
   (case r of Done (Inr _) \<Rightarrow> \<exists>t t' cs. a = Inr t \<and> bs = EvWaitTask t (Inr t') # cs | _ \<Rightarrow> True) \<Longrightarrow>
   detached name vm r (EvLock # qs @ EvGetVms l (Inr vms) # EvDetach vm (dHREF d) a # bs @ [EvUnlock])"
  unfolding detached_def set_map by blast

lemma DetachVolume_story:
  "sat (DetachVolume dm vm name zm) env h (\<lambda>r es.
     detached name vm r es \<or>
     (\<exists>qs. es = EvLock # qs @ [EvUnlock] \<and> list_all is_query qs \<and>
        (case r of Done (Inr _) \<Rightarrow>
           (\<exists>e. errors_Is_NotFound e \<and>
              GetDiskByNameOrId dm name zm (ClusterOVDCIdentifier (VCDClient dm)) env (h @ [EvLock]) =
                (Done (Inl e), qs)) \<or>
           (\<exists>d qs' l vms. qs = qs' @ [EvGetVms l (Inr vms)] \<and> fetched_unique name qs' d \<and>
              vms_link d = Some l \<and> mHREF vm \<notin> set (map rHREF vms)) | _ \<Rightarrow> True)))"
proof (cases rule: lookup_cases [of dm name zm "ClusterOVDCIdentifier (VCDClient dm)" env "h @ [EvLock]"])
  case (panic s qs)
  show ?thesis using panic(2) by (auto simp: panic(1) DetachVolume_def sat_with_lock sat_attempt)
next
  case (error e qs)
  show ?thesis using error(2,3) by (auto simp: error(1) DetachVolume_def sat_with_lock sat_attempt sat_if sat_ret)
next
  case (found d qs)
  note * = detachedI [OF found(2,3)]
  show ?thesis
    using found(2,3)
    by (auto simp: found(1) DetachVolume_def wp vcd_calls split: option.splits sum.splits
        intro!: * [where bs = "[]", simplified] * [where bs = "[e]" for e, simplified]
          * [where bs = "[e, e']" for e e', simplified])
qed

text \<open>
  C15: the whole story of DetachVolume, in every environment. It is one critical section. Either
  it detaches: the disk is the unique one of that name, and the machine was among its machines
  in the answer right before; success then means that the detach was accepted and its task
  finished. Or it writes nothing, and success then means that there is no such disk or that
  the machine is not among those of the disk.
\<close>

theorem DetachVolume_spec:
  "sat (DetachVolume dm vm name zm) env h (\<lambda>r es.
     detached name vm r es \<or>
     (\<exists>qs. es = EvLock # qs @ [EvUnlock] \<and> list_all is_query qs \<and>
        (case r of Done (Inr _) \<Rightarrow>
           (\<exists>e. errors_Is_NotFound e \<and>
              GetDiskByNameOrId dm name zm (ClusterOVDCIdentifier (VCDClient dm)) env (h @ [EvLock]) =
                (Done (Inl e), qs)) \<or>
           (\<exists>d qs' l vms. qs = qs' @ [EvGetVms l (Inr vms)] \<and> fetched_unique name qs' d \<and>
              vms_link d = Some l \<and> mHREF vm \<notin> set (map rHREF vms)) | _ \<Rightarrow> True)))"
  by (rule DetachVolume_story)

abbreviation no_write :: "vcd_event \<Rightarrow> bool" where
  "no_write e \<equiv> \<not> is_storage_write e \<and> \<not> is_lock_event e"

text \<open>The link of a data center to which a new disk is posted: the first add link for it.\<close>

definition add_disk_link :: "vdc \<Rightarrow> link option" where
  "add_disk_link v = List.find (\<lambda>l. lRel l = RelAdd \<and> lType l = MimeDiskCreateParams) (vLink v)"

text \<open>The whole request for a disk: what was asked for, and nothing in any other field.\<close>

definition request_for :: "string \<Rightarrow> int64 \<Rightarrow> string \<Rightarrow> string \<Rightarrow> string \<Rightarrow> bool \<Rightarrow>
    reference option \<Rightarrow> disk_create_params" where
  "request_for name sz bus subtype description shareable profile =
     \<lparr>pXmlns = ''http://www.vmware.com/vcloud/v1.5'',
      pDisk = \<lparr>dHREF = [], dType = [], dId = [], dOperationKey = [], dName = name, dStatus = 0,
        dSizeMb = sz, dIops = 0, dEncrypted = False, dBusType = bus, dBusSubType = subtype,
        dShareable = shareable, dSharingType = [], dUUID = [], dDescription = description, dFiles = None,
        dLink = [], dOwner = None, dStorageProfile = profile, dTasks = None, dVCloudExtension = None\<rparr>,
      pLocality = None, pVCloudExtension = None\<rparr>"

lemma newDiskParams_request: "newDiskParams = request_for"
  by (intro ext) (simp add: newDiskParams_def request_for_def zero_disk_def XMLNamespaceVCloud_def)

text \<open>
  \<open>posted v p r es\<close>: the events start with the request, to the data center \<open>v\<close>, for a disk with the
  parameters \<open>p\<close>; a disk that is answered owns the finished task of that request.
\<close>

definition posted :: "vdc \<Rightarrow> disk_create_params \<Rightarrow> disk res outcome \<Rightarrow> vcd_event list \<Rightarrow> bool" where
  "posted v p r es \<longleftrightarrow> (\<exists>l a bs. es = EvPostDisk l p a # bs \<and> add_disk_link v = Some l \<and>
     list_all no_write bs \<and>
     (case r of Done (Inr d) \<Rightarrow> \<exists>nd t ts t' ow cs. a = Inr nd \<and> dTasks nd = Some (t # ts) \<and>
        tOwner t' = Some ow \<and> bs = EvWaitTask t (Inr t') # EvGetDisk (rHREF ow) (Inr d) # cs
      | _ \<Rightarrow> True))"

lemma sat_createAndRecord:
  "sat (createAndRecord dm name p v) env h (\<lambda>r es. posted v p r es \<or> es = [] \<and> (\<exists>e. r = Done (Inl e)))"
  unfolding createAndRecord_def createDisk_def posted_def add_disk_link_def
  by (auto simp: wp vcd_calls list_all_iff split: option.splits sum.splits list.splits outcome.splits
      intro!: emits_rule [OF emits_addPvToRDE])

definition asked_for :: "disk \<Rightarrow> int64 \<Rightarrow> string \<Rightarrow> string \<Rightarrow> string \<Rightarrow> bool \<Rightarrow> bool" where
  "asked_for d sizeMB busType busSubType storageProfile shareable \<longleftrightarrow>
     dSizeMb d = sizeMB \<and> dBusType d = busType \<and> dBusSubType d = busSubType \<and>
     (storageProfile = [] \<or> (\<exists>p. dStorageProfile d = Some p \<and> rName p = storageProfile)) \<and>
     dShareable d = shareable"

lemma sat_checkExistingDisk:
  "sat (checkExistingDisk d sz bt bst sp sh) env h (\<lambda>r es. es = [] \<and>
     (case r of Done (Inr d') \<Rightarrow> d' = d \<and> asked_for d sz bt bst sp sh
      | Done (Inl _) \<Rightarrow> \<not> asked_for d sz bt bst sp sh
      | Panic _ \<Rightarrow> sp \<noteq> [] \<and> dStorageProfile d = None))"
  unfolding checkExistingDisk_def asked_for_def Let_def by (auto simp: wp split: option.splits)

text \<open>
  \<open>profile_found v sp prof v' es\<close>: the profile reference of the request. Without a name nothing is
  asked and there is none; with one, the data center \<open>v\<close> was asked for it, and the reference has
  the HREF of the answer and nothing else; \<open>v'\<close> is the data center as that answer left it.
\<close>

definition profile_found :: "vdc \<Rightarrow> string \<Rightarrow> reference option \<Rightarrow> vdc \<Rightarrow> vcd_event list \<Rightarrow> bool" where
  "profile_found v sp prof v' es \<longleftrightarrow>
     (if sp = [] then es = [] \<and> prof = None \<and> v' = v
      else \<exists>ref. es = [EvFindProfile (vName v) sp (Inr (ref, v'))] \<and>
        prof = Some \<lparr>rHREF = rHREF ref, rID = [], rType = [], rName = []\<rparr>)"

lemma profile_found_quiet: "profile_found v sp prof v' es \<Longrightarrow> list_all no_write es"
  by (auto simp: profile_found_def split: if_splits)

lemma profile_found_none: "profile_found v sp prof v' es \<Longrightarrow> sp = [] \<longleftrightarrow> prof = None"
  by (auto simp: profile_found_def split: if_splits)

text \<open>
  \<open>created v sp qs p r es\<close>: after the lookup \<open>qs\<close>, a disk with the parameters \<open>p\<close> and the profile of
  that name is posted to the data center.
\<close>

definition created :: "vdc \<Rightarrow> string \<Rightarrow> vcd_event list \<Rightarrow> (reference option \<Rightarrow> disk_create_params) \<Rightarrow>
    disk res outcome \<Rightarrow> vcd_event list \<Rightarrow> bool" where
  "created v sp qs p r es \<longleftrightarrow> (\<exists>x fs prof v' ps. es = EvLock # qs @ x # fs @ ps @ [EvUnlock] \<and>
     is_rde_event x \<and> profile_found v sp prof v' fs \<and> posted v' (p prof) r ps)"

lemma createdI:
  "posted v (p None) r ps \<Longrightarrow> is_rde_event x \<Longrightarrow> created v [] qs p r (EvLock # qs @ x # ps @ [EvUnlock])"
  "posted v' (p (Some \<lparr>rHREF = rHREF ref, rID = [], rType = [], rName = []\<rparr>)) r ps \<Longrightarrow> is_rde_event x \<Longrightarrow>
     sp \<noteq> [] \<Longrightarrow>
     created v sp qs p r (EvLock # qs @ x # EvFindProfile (vName v) sp (Inr (ref, v')) # ps @ [EvUnlock])"
proof -
  show "created v [] qs p r (EvLock # qs @ x # ps @ [EvUnlock])" if "posted v (p None) r ps" "is_rde_event x"
    unfolding created_def profile_found_def using that
    by (intro exI [of _ x] exI [of _ "[]"] exI [of _ None] exI [of _ v] exI [of _ ps]) simp
  show "created v sp qs p r (EvLock # qs @ x # EvFindProfile (vName v) sp (Inr (ref, v')) # ps @ [EvUnlock])"
    if "posted v' (p (Some \<lparr>rHREF = rHREF ref, rID = [], rType = [], rName = []\<rparr>)) r ps"
      "is_rde_event x" "sp \<noteq> []"
    unfolding created_def profile_found_def using that
    by (intro exI [of _ x] exI [of _ "[EvFindProfile (vName v) sp (Inr (ref, v'))]"]
        exI [of _ "Some \<lparr>rHREF = rHREF ref, rID = [], rType = [], rName = []\<rparr>"] exI [of _ v'] exI [of _ ps]) simp
qed

text \<open>What else the callers use of a creation: the request, between events that write nothing.\<close>

lemma created_parts:
  assumes "created v sp qs p r es"
  obtains as prof v' ps where "es = EvLock # qs @ as @ ps @ [EvUnlock]" and "list_all no_write as"
    and "sp = [] \<longleftrightarrow> prof = None" and "posted v' (p prof) r ps"
proof -
  obtain x fs prof v' ps where es: "es = EvLock # qs @ x # fs @ ps @ [EvUnlock]" "is_rde_event x"
      and found: "profile_found v sp prof v' fs" and "posted v' (p prof) r ps"
    using assms unfolding created_def by blast
  then show thesis
    using that [of "x # fs" ps prof v'] profile_found_quiet [OF found] profile_found_none [OF found] by simp
qed

lemma CreateDisk_story:
  "sat (CreateDisk dm name v sz bt bst desc sp sh zm) env h (\<lambda>r es.
     (\<exists>qs e. errors_Is_NotFound e \<and>
        GetDiskByNameOrId dm name zm (ClusterOVDCIdentifier (VCDClient dm)) env (h @ [EvLock]) =
          (Done (Inl e), qs) \<and>
        created v sp qs (newDiskParams name sz bt bst desc sh) r es) \<or>
     (\<exists>bs. es = EvLock # bs @ [EvUnlock] \<and> list_all no_write bs \<and>
        (case r of Done (Inr d) \<Rightarrow> asked_for d sz bt bst sp sh \<and>
           (\<exists>qs cs. bs = qs @ cs \<and> fetched_unique name qs d) | _ \<Rightarrow> True)))"
proof (cases rule: lookup_cases [of dm name zm "ClusterOVDCIdentifier (VCDClient dm)" env "h @ [EvLock]"])
  case (panic s qs)
  show ?thesis using panic(2)
    by (auto simp: panic(1) CreateDisk_def sat_with_lock sat_bind list_all_iff)
next
  case (error e qs)
  show ?thesis
  proof (cases "errors_Is_NotFound e")
    case True
    show ?thesis using error(2)
      by (auto simp: True error(1,3) CreateDisk_def createNewDisk_def wp vcd_calls list_all_iff
          split: sum.splits outcome.splits intro!: sat_mono [OF sat_createAndRecord] createdI)
  next
    case False
    show ?thesis using error(2)
      by (auto simp: False error(1) CreateDisk_def wp vcd_calls list_all_iff)
  qed
next
  case (found d qs)
  show ?thesis
    using found(2,3)
    by (auto simp: found(1) CreateDisk_def wp list_all_iff split: outcome.splits sum.splits
        intro!: sat_mono [OF sat_checkExistingDisk])
qed

text \<open>
  C14: CreateDisk, in every environment. Either it posts: the lookup said that there is no disk
  of that name, the request goes to the first add link of the data center, its name, size, bus,
  description and sharing are exactly those that were asked for, its storage profile has the HREF that the data center
  answered for the profile asked for (and is absent when none was), and success means that
  the result is the disk which owns the finished task of the request. Or it writes nothing,
  and success then means that the unique disk of that name has the size, bus, profile and
  sharing that were asked for.
\<close>

theorem CreateDisk_spec:
  "sat (CreateDisk dm name v sz bt bst desc sp sh zm) env h (\<lambda>r es.
     (\<exists>qs e. errors_Is_NotFound e \<and>
        GetDiskByNameOrId dm name zm (ClusterOVDCIdentifier (VCDClient dm)) env (h @ [EvLock]) =
          (Done (Inl e), qs) \<and>
        created v sp qs (request_for name sz bt bst desc sh) r es) \<or>
     (\<exists>bs. es = EvLock # bs @ [EvUnlock] \<and> list_all no_write bs \<and>
        (case r of Done (Inr d) \<Rightarrow> asked_for d sz bt bst sp sh \<and>
           (\<exists>qs cs. bs = qs @ cs \<and> fetched_unique name qs d) | _ \<Rightarrow> True)))"
  by (rule CreateDisk_story [unfolded newDiskParams_request])

lemma UpdateDisk_story:
  "sat (UpdateDisk dm d info) env h (\<lambda>r es.
     (\<exists>l l' a. es = [EvGetVms l (Inr []), EvPutDisk l' (info\<lparr>uXmlns := XMLNamespaceVCloud\<rparr>) a] \<and>
        vms_link d = Some l \<and> uName info \<noteq> [] \<and>
        List.find (\<lambda>l. lRel l = RelEdit \<and> lType l = MimeDisk) (dLink d) = Some l' \<and>
        (case r of Done (Inr t) \<Rightarrow> a = Inr t | _ \<Rightarrow> \<exists>e. a = Inl e)) \<or>
     list_all is_query es \<and> (\<exists>e. r = Done (Inl e)))"
proof -
  have "\<lparr>uXmlns = XMLNamespaceVCloud, uDescription = uDescription info, uSizeMb = uSizeMb info,
      uName = uName info, uOwner = uOwner info\<rparr> = info\<lparr>uXmlns := XMLNamespaceVCloud\<rparr>"
    by simp
  then show ?thesis
    unfolding UpdateDisk_def by (auto simp: wp vcd_calls split: option.splits sum.splits)
qed

text \<open>
  UpdateDisk, in every environment: an update is sent only right after the answer that no
  machine is attached, to the edit link of the disk, with the description, size, name and
  owner that were passed in; success means that it was accepted; otherwise nothing is written.
\<close>

theorem UpdateDisk_spec:
  "sat (UpdateDisk dm d info) env h (\<lambda>r es.
     (\<exists>l l' a. es = [EvGetVms l (Inr []), EvPutDisk l' (info\<lparr>uXmlns := XMLNamespaceVCloud\<rparr>) a] \<and>
        vms_link d = Some l \<and> uName info \<noteq> [] \<and>
        List.find (\<lambda>l. lRel l = RelEdit \<and> lType l = MimeDisk) (dLink d) = Some l' \<and>
        (case r of Done (Inr t) \<Rightarrow> a = Inr t | _ \<Rightarrow> \<exists>e. a = Inl e)) \<or>
     list_all is_query es \<and> (\<exists>e. r = Done (Inl e)))"
  by (rule UpdateDisk_story)

text \<open>
  A request for a new disk is only sent in the critical section, to an add link for
  create parameters, for a named disk of at least one megabyte.
\<close>

theorem CreateDisk_post_guarded:
  assumes "CreateDisk dm name v sz bt bst desc sp sh zm env h = (r, xs @ EvPostDisk l p a # ys)"
  shows "held (h @ xs) \<and> dName (pDisk p) \<noteq> [] \<and> sint (dSizeMb (pDisk p)) \<ge> 1 \<and>
    lRel l = RelAdd \<and> lType l = MimeDiskCreateParams"
  using create.writes [OF TrueI assms] by simp

theorem CreateDisk_post_guarded_witness:
  "held [EvLock, EvGetVDC ''ovdc'' (Inr vdc0), EvRemoveError [] DiskQueryError [] ''pvc2'' (Inr ())] \<and>
   sint (dSizeMb (pDisk (newDiskParams ''pvc2'' 1024 VCDBusTypeSCSI VCDBusSubTypeVirtualSCSI []
     False None))) \<ge> 1"
proof -
  obtain r a ys where "CreateDisk dm0 ''pvc2'' (vdc0\<lparr>vLink := [add_link]\<rparr>) 1024 VCDBusTypeSCSI
      VCDBusSubTypeVirtualSCSI [] [] False None create_env [] =
    (r, [EvLock, EvGetVDC ''ovdc'' (Inr vdc0), EvRemoveError [] DiskQueryError [] ''pvc2'' (Inr ())] @
       EvPostDisk add_link (newDiskParams ''pvc2'' 1024 VCDBusTypeSCSI VCDBusSubTypeVirtualSCSI []
         False None) a # ys)"
    using create_example by blast
  from CreateDisk_post_guarded [OF this] show ?thesis by simp
qed

text \<open>
  Attaching a disk to a machine that has it already succeeds without a write and leaves
  the disk as it was; attaching a disk that is not shareable to a machine while another has it
  fails without a write.
\<close>

theorem AttachVolume_already:
  assumes "vms_link d = Some l" and "q_getVms env (h @ [EvLock]) l = Inr vms" and "vms \<noteq> []"
    and "mHREF vm \<in> set (map rHREF vms) \<or> \<not> dShareable d"
  shows "AttachVolume dm vm (Some d) env h =
    (Done (if mHREF vm \<in> set (map rHREF vms) then Inr d
       else Inl (Errorf ''cannot attach disk since disk is not shareable and VMs are attached'' [])),
     [EvLock, EvGetVms l (Inr vms), EvUnlock])"
  by (rule sat_exact) (use assms in \<open>auto simp: AttachVolume_def wp\<close>)

lemma vms_link_disk0:
  "vms_link disk0 = Some \<lparr>lHREF = ''vms1'', lID = [], lType = MimeVMs, lName = [], lRel = ''down''\<rparr>"
  by (simp add: vms_link_def disk0_def)

theorem AttachVolume_already_witness:
  "fst (AttachVolume dm0 vm1 (Some disk0) (one_disk_env [ref_vm1]) []) = Done (Inr disk0) \<and>
   fst (AttachVolume dm0 (vm1\<lparr>mHREF := ''vm2''\<rparr>) (Some disk0) (one_disk_env [ref_vm1]) []) =
     Done (Inl (Errorf ''cannot attach disk since disk is not shareable and VMs are attached'' []))"
proof -
  have vms: "q_getVms (one_disk_env [ref_vm1]) ([] @ [EvLock])
      \<lparr>lHREF = ''vms1'', lID = [], lType = MimeVMs, lName = [], lRel = ''down''\<rparr> = Inr [ref_vm1]"
    by (simp add: one_disk_env_def)
  have "\<not> dShareable disk0" by (simp add: disk0_def zero_disk_def)
  with AttachVolume_already [OF vms_link_disk0 vms, of vm1 dm0]
    AttachVolume_already [OF vms_link_disk0 vms, of "vm1\<lparr>mHREF := ''vm2''\<rparr>" dm0]
  show ?thesis by (simp add: ref_vm1_def vm1_def)
qed

lemma searchZones_unreachable:
  assumes "Org dm = Some org" and "\<And>h i. \<exists>e. q_getVDC env h i = Inl e"
  shows "sat (searchZones dm name zs) env h (\<lambda>r es. r = Done (Inl ErrorEntityNotFound))"
proof (induction zs arbitrary: h)
  case Nil
  show ?case by (simp add: wp)
next
  case (Cons z zs)
  obtain o' zn where z: "z = (o', zn)" by (cases z)
  obtain e where "q_getVDC env h o' = Inl e" using assms(2) by blast
  then show ?case using Cons.IH by (simp add: z wp assms(1))
qed

text \<open>
  When no data center of the zones can be read, DeleteDisk reports success: the failures
  are taken for the absence of the disk.
\<close>

theorem DeleteDisk_unreachable_zones:
  assumes "Org dm = Some org" and "name \<noteq> []" and "VdcToZoneMap z \<noteq> []"
    and "\<And>h i. \<exists>e. q_getVDC env h i = Inl e"
  shows "fst (DeleteDisk dm name (Some z) env h) = Done (Inr ())"
proof -
  have "sat (DeleteDisk dm name (Some z)) env h (\<lambda>r es. r = Done (Inr ()))"
    unfolding DeleteDisk_def GetDiskByNameOrId_def
    using assms(2,3)
    by (auto simp: sat_with_lock sat_attempt sat_bind range_over_def zones_of_def sat_pick sat_if sat_ret
        intro!: sat_mono [OF searchZones_unreachable [OF assms(1,4)]])
  then show ?thesis by (simp add: sat_iff)
qed

theorem DeleteDisk_unreachable_zones_witness:
  "fst (DeleteDisk dm0 ''pvc1'' (Some zm0) down_env []) = Done (Inr ())"
  by (rule DeleteDisk_unreachable_zones [where org = "''org''"])
    (simp_all add: dm0_def zm0_def down_env_def Let_def)

text \<open>
  Asking for a disk with a storage profile when a disk of that name, size and bus exists
  whose profile the server left out dereferences a nil pointer.
\<close>

theorem CreateDisk_nil_profile:
  assumes "GetDiskByNameOrId dm name zm (ClusterOVDCIdentifier (VCDClient dm)) env (h @ [EvLock]) =
      (Done (Inr d), qs)"
    and "dSizeMb d = sz" "dBusType d = bt" "dBusSubType d = bst"
    and "dStorageProfile d = None" and "sp \<noteq> []"
  shows "fst (CreateDisk dm name v sz bt bst desc sp sh zm env h) = Panic ''nil StorageProfile''"
proof -
  have lookup: "sat (GetDiskByNameOrId dm name zm (ClusterOVDCIdentifier (VCDClient dm))) env
      (h @ [EvLock]) Q = Q (Done (Inr d)) qs" for Q
    using assms(1) by (simp add: sat_def)
  have "sat (CreateDisk dm name v sz bt bst desc sp sh zm) env h (\<lambda>r es. r = Panic ''nil StorageProfile'')"
    unfolding CreateDisk_def checkExistingDisk_def using assms(2-6) by (auto simp: wp lookup)
  then show ?thesis by (simp add: sat_iff)
qed

theorem CreateDisk_nil_profile_witness:
  "fst (CreateDisk dm0 ''pvc1'' vdc0 1024 VCDBusTypeSCSI VCDBusSubTypeVirtualSCSI [] ''gold'' False None
     ((one_disk_env [])\<lparr>q_getDisk := (\<lambda>_ _. Inr (disk0\<lparr>dStorageProfile := None\<rparr>))\<rparr>) []) =
   Panic ''nil StorageProfile''"
proof (rule CreateDisk_nil_profile)
  have "\<not> isUrn ''pvc1''" "\<not> IsUuid ''pvc1''" by code_simp+
  then show "GetDiskByNameOrId dm0 ''pvc1'' None (ClusterOVDCIdentifier (VCDClient dm0))
     ((one_disk_env [])\<lparr>q_getDisk := (\<lambda>_ _. Inr (disk0\<lparr>dStorageProfile := None\<rparr>))\<rparr>) ([] @ [EvLock]) =
     (Done (Inr (disk0\<lparr>dStorageProfile := None\<rparr>)),
      [EvGetVDC ''ovdc'' (Inr vdc0), EvGetDisk ''href1'' (Inr (disk0\<lparr>dStorageProfile := None\<rparr>))])"
    by (intro sat_exact)
      (simp add: GetDiskByNameOrId_def searchClusterVDC_def govcdGetDisksByNameOrId_def
        getEntityByNameOrIdSkipNonId_def disks_getter_def govcdGetDisksByName_def wp
        one_disk_env_def vdc0_def dm0_def)
qed (simp_all add: disk0_def)

end
