(* ===== verification/CsiTypes.thy ===== *)
theory CsiTypes
  imports VcdTypes
begin

text \<open>
  The CSI messages that the services read and build (generated from the CSI specification,
  with the fields the code uses), and the driver record with the capabilities it advertises
  (pkg/csi/driver.go).
\<close>

section \<open>Access modes and volume capabilities\<close>

text \<open>The open enum VolumeCapability_AccessMode_Mode: any int32 can arrive.\<close>

definition MODE_UNKNOWN :: int where "MODE_UNKNOWN = 0"
definition SINGLE_NODE_WRITER :: int where "SINGLE_NODE_WRITER = 1"
definition SINGLE_NODE_READER_ONLY :: int where "SINGLE_NODE_READER_ONLY = 2"
definition MULTI_NODE_READER_ONLY :: int where "MULTI_NODE_READER_ONLY = 3"
definition MULTI_NODE_SINGLE_WRITER :: int where "MULTI_NODE_SINGLE_WRITER = 4"
definition MULTI_NODE_MULTI_WRITER :: int where "MULTI_NODE_MULTI_WRITER = 5"

lemmas mode_defs = MODE_UNKNOWN_def SINGLE_NODE_WRITER_def SINGLE_NODE_READER_ONLY_def
  MULTI_NODE_READER_ONLY_def MULTI_NODE_SINGLE_WRITER_def MULTI_NODE_MULTI_WRITER_def

fun nat_text :: "nat \<Rightarrow> string" where
  "nat_text n = (if n < 10 then [char_of (48 + n)]
     else nat_text (n div 10) @ [char_of (48 + n mod 10)])"

declare nat_text.simps [simp del]

definition int_text :: "int \<Rightarrow> string" where
  "int_text i = (if i < 0 then CHR ''-'' # nat_text (nat (- i)) else nat_text (nat i))"

text \<open>The generated String method: the name of a known mode, the number of any other.\<close>

definition AccessModeString :: "int \<Rightarrow> string" where
  "AccessModeString m = (case map_of [(0, ''UNKNOWN''), (1, ''SINGLE_NODE_WRITER''),
       (2, ''SINGLE_NODE_READER_ONLY''), (3, ''MULTI_NODE_READER_ONLY''),
       (4, ''MULTI_NODE_SINGLE_WRITER''), (5, ''MULTI_NODE_MULTI_WRITER'')] m of
     Some s \<Rightarrow> s | None \<Rightarrow> int_text m)"

datatype access_type = NoAccess | BlockAccess | MountAccess (FsType: string) (MountFlags: "string list")

record volume_capability =
  AccessMode :: "int option"
  AccessType :: access_type

definition GetBlock :: "volume_capability \<Rightarrow> bool" where
  "GetBlock c \<longleftrightarrow> AccessType c = BlockAccess"

section \<open>Requests and responses of the controller\<close>

record capacity_range =
  RequiredBytes :: int64
  LimitBytes :: int64

record create_volume_request =
  crName :: string
  crVolumeCapabilities :: "volume_capability list"
  crCapacityRange :: "capacity_range option"
  crParameters :: "(string \<times> string) list"

record volume =
  VolumeId :: string
  CapacityBytes :: int64
  VolumeContext :: "(string \<times> string) list"

record publish_request =
  prNodeId :: string
  prVolumeId :: string
  prVolumeCapability :: "volume_capability option"

record unpublish_request =
  upNodeId :: string
  upVolumeId :: string

record expand_request =
  exVolumeId :: string
  exCapacityRange :: "capacity_range option"
  exVolumeCapability :: "volume_capability option"

record expand_response =
  ExpandedBytes :: int64
  NodeExpansionRequired :: bool

section \<open>The driver and its capabilities\<close>

datatype controller_rpc = CREATE_DELETE_VOLUME | LIST_VOLUMES | PUBLISH_UNPUBLISH_VOLUME | EXPAND_VOLUME
datatype node_rpc = STAGE_UNSTAGE_VOLUME | GET_VOLUME_STATS | NODE_EXPAND_VOLUME
datatype expansion = EXPANSION_UNKNOWN | ONLINE | OFFLINE

definition VolumeCapabilityAccessModesList :: "int list" where
  "VolumeCapabilityAccessModesList = [SINGLE_NODE_WRITER, SINGLE_NODE_READER_ONLY,
     MULTI_NODE_READER_ONLY, MULTI_NODE_SINGLE_WRITER, MULTI_NODE_MULTI_WRITER]"

definition nodeServiceCapabilityList :: "node_rpc list" where
  "nodeServiceCapabilityList = [STAGE_UNSTAGE_VOLUME, GET_VOLUME_STATS, NODE_EXPAND_VOLUME]"

definition controllerServerCapabilitiesRPCList :: "controller_rpc list" where
  "controllerServerCapabilitiesRPCList =
     [CREATE_DELETE_VOLUME, LIST_VOLUMES, PUBLISH_UNPUBLISH_VOLUME, EXPAND_VOLUME]"

definition pluginCapabilityVolumeExpansion :: "expansion list" where
  "pluginCapabilityVolumeExpansion = [OFFLINE, ONLINE]"

record vcd_driver =
  drvName :: string
  drvNodeID :: string
  drvVersion :: string
  drvEndpoint :: string
  volumeCapabilityAccessModes :: "int list"
  controllerServiceCapabilities :: "controller_rpc list"
  nodeServiceCapabilities :: "node_rpc list"
  drvVolumeExpansion :: "expansion list"

definition DriverName :: string where
  "DriverName = ''named-disk.csi.cloud-director.vmware.com''"

text \<open>
  NewDriver returns the driver and the cache of mode names that it fills: a global map, of
  which only the keys are used. A driver is built before any request is served.
\<close>

definition NewDriver :: "string \<Rightarrow> string \<Rightarrow> string \<Rightarrow> vcd_driver \<times> string list" where
  "NewDriver version nodeID endpoint =
     (\<lparr>drvName = DriverName, drvNodeID = nodeID, drvVersion = version, drvEndpoint = endpoint,
       volumeCapabilityAccessModes = VolumeCapabilityAccessModesList,
       controllerServiceCapabilities = controllerServerCapabilitiesRPCList,
       nodeServiceCapabilities = nodeServiceCapabilityList,
       drvVolumeExpansion = pluginCapabilityVolumeExpansion\<rparr>,
      map AccessModeString VolumeCapabilityAccessModesList)"

definition VolumeCapabilityAccessModesStringMap :: "string list" where
  "VolumeCapabilityAccessModesStringMap = snd (NewDriver [] [] [])"

lemma nat_text_digits: "c \<in> set (nat_text n) \<Longrightarrow> is_digit c"
proof (induction n rule: nat_text.induct)
  case (1 n)
  have "is_digit (char_of (48 + k))" if "k < 10" for k :: nat
  proof -
    have "k = 0 \<or> k = 1 \<or> k = 2 \<or> k = 3 \<or> k = 4 \<or> k = 5 \<or> k = 6 \<or> k = 7 \<or> k = 8 \<or> k = 9"
      using that by arith
    then show ?thesis by (auto simp: is_digit_def)
  qed
  then show ?case
    using 1 by (subst (asm) nat_text.simps) (auto split: if_splits)
qed

text \<open>A mode is in the cache exactly when it is one of the five modes of the list.\<close>

lemma supported_mode_iff:
  "AccessModeString m \<in> set VolumeCapabilityAccessModesStringMap \<longleftrightarrow> 1 \<le> m \<and> m \<le> 5"
proof -
  have names: "set VolumeCapabilityAccessModesStringMap =
      {''SINGLE_NODE_WRITER'', ''SINGLE_NODE_READER_ONLY'', ''MULTI_NODE_READER_ONLY'',
       ''MULTI_NODE_SINGLE_WRITER'', ''MULTI_NODE_MULTI_WRITER''}"
    by (simp add: VolumeCapabilityAccessModesStringMap_def NewDriver_def
        VolumeCapabilityAccessModesList_def mode_defs AccessModeString_def)
  have other: "int_text m \<notin> set VolumeCapabilityAccessModesStringMap"
  proof -
    have "nat_text n \<noteq> []" for n by (subst nat_text.simps) auto
    then have "is_digit (hd (nat_text n))" for n
      using nat_text_digits [of "hd (nat_text n)" n] by simp
    then have "int_text m \<noteq> [] \<Longrightarrow> is_digit (hd (int_text m)) \<or> hd (int_text m) = CHR ''-''"
      by (auto simp: int_text_def)
    then show ?thesis
      unfolding names by (auto simp: is_digit_def)
  qed
  consider "m = 0" | "m = 1" | "m = 2" | "m = 3" | "m = 4" | "m = 5" | "m < 0 \<or> 5 < m"
    by arith
  then show ?thesis
    by cases (use other in \<open>auto simp: names AccessModeString_def\<close>)
qed

end
