(* ===== verification/Controller.thy ===== *)
theory Controller
  imports DiskOps CsiTypes
begin

text \<open>
  The CSI controller service (pkg/csi/controller.go): create, delete, publish, unpublish and
  expand a volume, with the DiskManager's operations, and the calls it does not implement. A
  volume ID is a disk name. A nil request is None.
\<close>

section \<open>The server\<close>

definition BusTypeParameter :: string where "BusTypeParameter = ''busType''"
definition BusSubTypeParameter :: string where "BusSubTypeParameter = ''busSubType''"
definition StorageProfileParameter :: string where "StorageProfileParameter = ''storageProfile''"
definition ZoneNameParameter :: string where "ZoneNameParameter = ''zoneName''"
definition FileSystemParameter :: string where "FileSystemParameter = ''filesystem''"
definition EphemeralVolumeContext :: string where
  "EphemeralVolumeContext = ''csi.storage.k8s.io/ephemeral''"
definition DiskIDAttribute :: string where "DiskIDAttribute = ''diskID''"
definition VMFullNameAttribute :: string where "VMFullNameAttribute = ''vmID''"
definition DiskUUIDAttribute :: string where "DiskUUIDAttribute = ''diskUUID''"
definition FileSystemAttribute :: string where "FileSystemAttribute = ''filesystem''"

definition BusTypesFromValues :: "(string \<times> string) list" where
  "BusTypesFromValues = [(''5'', ''IDE''), (''6'', ''SCSI''), (''20'', ''SATA'')]"

text \<open>Indexing a Go map: the empty string when the key is absent.\<close>

definition map_get :: "(string \<times> string) list \<Rightarrow> string \<Rightarrow> string" where
  "map_get m k = (case map_of m k of Some v \<Rightarrow> v | None \<Rightarrow> [])"

record controller_server =
  Driver :: vcd_driver
  DiskManager :: disk_manager
  VAppName :: string

definition NewControllerService :: "vcd_driver \<Rightarrow> vcd_client \<Rightarrow> string \<Rightarrow> string \<Rightarrow> bool \<Rightarrow>
    zone_map option \<Rightarrow> controller_server vcd" where
  "NewControllerService driver vcdClient clusterID vAppName isZoneEnabledCluster zm =
     attempt (GetOrgByName (ClusterOrgName vcdClient)) (\<lambda>e. panic ''unable to find org'')
       (\<lambda>org. ret \<lparr>Driver = driver,
          DiskManager = \<lparr>VCDClient = vcdClient, ClusterID = clusterID,
            Org = (case org of None \<Rightarrow> None | Some o' \<Rightarrow> o'),
            IsZoneEnabledCluster = isZoneEnabledCluster, ZoneMap = zm\<rparr>,
          VAppName = vAppName\<rparr>)"

section \<open>Volume capabilities\<close>

fun isDiskShareable :: "volume_capability list \<Rightarrow> bool vcd" where
  "isDiskShareable [] = ret False"
| "isDiskShareable (c # cs) = (case AccessMode c of
     None \<Rightarrow> panic ''nil AccessMode''
   | Some m \<Rightarrow> if m = MULTI_NODE_READER_ONLY \<or> m = MULTI_NODE_SINGLE_WRITER \<or>
         m = MULTI_NODE_MULTI_WRITER then ret True
       else isDiskShareable cs)"

fun IsBlockVolume :: "volume_capability list \<Rightarrow> bool res vcd" where
  "IsBlockVolume [] = ok False"
| "IsBlockVolume (c # cs) = (case AccessMode c of
     None \<Rightarrow> panic ''nil AccessMode''
   | Some m \<Rightarrow>
       if AccessModeString m \<notin> set VolumeCapabilityAccessModesStringMap then
         fail (Errorf ''unknown volume capability or not supported'' [])
       else if GetBlock c then ok True
       else IsBlockVolume cs)"

section \<open>CreateVolume\<close>

text \<open>\<open>int64(math.Ceil(float64(volSizeBytes) / float64(MbToBytes)))\<close>\<close>

definition requestedSizeMb :: "capacity_range option \<Rightarrow> int64" where
  "requestedSizeMb capacity = mb_ceil (case capacity of
     Some r \<Rightarrow> if RequiredBytes r \<noteq> 0 then RequiredBytes r else DefaultDiskSizeInGb * GbToBytes
   | None \<Rightarrow> DefaultDiskSizeInGb * GbToBytes)"

text \<open>
  The data center for a new disk. Over the zones the last match in the order of the range
  wins.
\<close>

definition volumeVDC :: "disk_manager \<Rightarrow> (string \<times> string) list \<Rightarrow> string res vcd" where
  "volumeVDC dm params =
     (if IsZoneEnabledCluster dm then
        (case map_of params ZoneNameParameter of
           None \<Rightarrow> fail (StatusError InvalidArgument ''zone enabled clusters should specify a zone'' [])
         | Some z \<Rightarrow>
             if z = [] then
               fail (StatusError InvalidArgument ''zone enabled clusters should specify a zone'' [])
             else bind (range_over (zones_of (ZoneMap dm))) (\<lambda>zs.
               let v = foldl (\<lambda>v (ovdcName, zoneName). if zoneName = z then ovdcName else v) [] zs in
               if v = [] then
                 fail (StatusError InvalidArgument ''zone specified does not have an ovdc in the zonemap'' [])
               else ok v))
      else ok (ClusterOVDCIdentifier (VCDClient dm)))"

definition volumeAttributes :: "(string \<times> string) list \<Rightarrow> bool \<Rightarrow> disk \<Rightarrow> reference \<Rightarrow>
    (string \<times> string) list" where
  "volumeAttributes params isBlock d profile =
     [(BusTypeParameter, map_get BusTypesFromValues (dBusType d)),
      (BusSubTypeParameter, dBusSubType d),
      (StorageProfileParameter, rName profile),
      (DiskIDAttribute, dId d),
      (FileSystemParameter, case map_of params FileSystemParameter of
         Some fs \<Rightarrow> fs | None \<Rightarrow> if isBlock then [] else ''ext4'')]"

text \<open>From the data center to the response.\<close>

definition provision :: "controller_server \<Rightarrow> create_volume_request \<Rightarrow> bool \<Rightarrow> bool \<Rightarrow> string \<Rightarrow>
    volume res vcd" where
  "provision cs req isBlock shareable vdcIdentifier =
     (let dm = DiskManager cs; sizeMB = requestedSizeMb (crCapacityRange req) in
      attempt (GetVDCByNameOrId dm vdcIdentifier)
        (\<lambda>e. fail (Errorf ''unable to get ovdc by identifier'' [e])) (\<lambda>v.
      attempt (CreateDisk dm (crName req) v sizeMB VCDBusTypeSCSI VCDBusSubTypeVirtualSCSI
          (ClusterID dm) (map_get (crParameters req) StorageProfileParameter) shareable (ZoneMap dm))
        (\<lambda>e. ignore (AddToErrorSet dm DiskCreateError [] (crName req)
              [(''Detailed Error'', DText (error_text e))])
            (fail (Errorf ''unable to create disk'' [e]))) (\<lambda>d.
      ignore (RemoveFromErrorSet dm DiskCreateError [] (crName req))
        (case dStorageProfile d of
           None \<Rightarrow> panic ''nil StorageProfile''
         | Some profile \<Rightarrow> ok \<lparr>VolumeId = dName d, CapacityBytes = sizeMB * MbToBytes,
             VolumeContext = volumeAttributes (crParameters req) isBlock d profile\<rparr>))))"

text \<open>Every handler that talks to VCD starts by renewing its token.\<close>

definition with_token :: "'a res vcd \<Rightarrow> 'a res vcd" where
  "with_token body = attempt RefreshBearerToken
     (\<lambda>e. fail (Errorf ''error while obtaining access token'' [e])) (\<lambda>_. body)"

definition CreateVolume :: "controller_server \<Rightarrow> create_volume_request option \<Rightarrow> volume res vcd" where
  "CreateVolume cs req = (case req of
     None \<Rightarrow> fail (StatusError InvalidArgument ''CreateVolume: req should not be nil'' [])
   | Some r \<Rightarrow> with_token (
       if crName r = [] then fail (StatusError InvalidArgument ''Volume name not provided'' [])
       else if crVolumeCapabilities r = [] then
         fail (StatusError InvalidArgument ''CreateVolume: VolumeCapabilities should be provided'' [])
       else attempt (IsBlockVolume (crVolumeCapabilities r))
         (\<lambda>e. fail (StatusError InvalidArgument
            ''CreateVolume: Unable to determine if Volume is a block volume'' [])) (\<lambda>isBlock.
       bind (isDiskShareable (crVolumeCapabilities r)) (\<lambda>shareable.
       attempt (volumeVDC (DiskManager cs) (crParameters r)) (\<lambda>e. fail e)
         (\<lambda>vdcIdentifier. provision cs r isBlock shareable vdcIdentifier)))))"

section \<open>DeleteVolume\<close>

definition DeleteVolume :: "controller_server \<Rightarrow> string option \<Rightarrow> unit res vcd" where
  "DeleteVolume cs req = (case req of
     None \<Rightarrow> fail (Errorf ''req should not be nil'' [])
   | Some volumeID \<Rightarrow> with_token (
       if volumeID = [] then
         fail (StatusError InvalidArgument ''DeleteVolume: Volume ID must be provided'' [])
       else attempt (DeleteDisk (DiskManager cs) volumeID (ZoneMap (DiskManager cs)))
         (\<lambda>e. if errors_Is_NotFound e then ok ()
            else ignore (AddToErrorSet (DiskManager cs) DiskDeleteError [] volumeID
                [(''Detailed Error'', DErr e)])
              (fail (StatusError Internal ''DeleteVolume failed'' [e]))) (\<lambda>_.
         ignore (RemoveFromErrorSet (DiskManager cs) DiskDeleteError [] volumeID) (ok ()))))"

section \<open>ControllerPublishVolume\<close>

text \<open>The machine of a node; the list of data centers is only logged.\<close>

definition searchNodeVM :: "controller_server \<Rightarrow> string \<Rightarrow> vm res vcd" where
  "searchNodeVM cs vmName = attempt
     (SearchVMAcrossVDCs vmName (VAppName cs) (IsZoneEnabledCluster (DiskManager cs)))
     (\<lambda>e. fail (StatusError Internal ''Unable to find VM for node'' [e])) (\<lambda>vm. ok vm)"

definition attachToNode :: "controller_server \<Rightarrow> string \<Rightarrow> string \<Rightarrow> string \<Rightarrow>
    (string \<times> string) list res vcd" where
  "attachToNode cs vmName volumeID fsType =
     (let dm = DiskManager cs in
      attempt (searchNodeVM cs vmName) (\<lambda>e. fail e) (\<lambda>vm.
      attempt (GetDiskByNameOrId dm volumeID (ZoneMap dm) (ClusterOVDCIdentifier (VCDClient dm)))
        (\<lambda>e. ignore (AddToErrorSet dm DiskQueryError [] volumeID
              [(''Detailed Error'', DErr (Errorf ''unable query disk'' [e]))])
            (fail (Errorf ''unable to find disk'' [e]))) (\<lambda>disk.
      ignore (RemoveFromErrorSet dm DiskQueryError [] volumeID) (
      attempt (AttachVolume dm vm (Some disk))
        (\<lambda>e. ignore (AddToErrorSet dm DiskAttachError [] volumeID
              [(''Detailed Error'', DText (error_text e)), (''VM Info'', DText vmName)])
            (if errors_Is_NotFound e then
               fail (StatusError NotFound ''could not provision disk in vcd'' [])
             else fail e)) (\<lambda>disk'.
      ignore (RemoveFromErrorSet dm DiskAttachError [] volumeID)
        (ok [(VMFullNameAttribute, mName vm), (DiskIDAttribute, volumeID),
             (DiskUUIDAttribute, dUUID disk'), (FileSystemAttribute, fsType)]))))))"

definition ControllerPublishVolume :: "controller_server \<Rightarrow> publish_request option \<Rightarrow>
    (string \<times> string) list res vcd" where
  "ControllerPublishVolume cs req = (case req of
     None \<Rightarrow> fail (StatusError InvalidArgument ''ControllerPublishVolume: req should not be nil'' [])
   | Some r \<Rightarrow> with_token (
       if prNodeId r = [] then
         fail (StatusError InvalidArgument ''ControllerPublishVolume: NodeId must be provided'' [])
       else if prVolumeId r = [] then
         fail (StatusError InvalidArgument ''ControllerPublishVolume: VolumeId must be provided'' [])
       else (case prVolumeCapability r of
         None \<Rightarrow> fail (StatusError InvalidArgument
           ''ControllerPublishVolume: Volume capability not provided'' [])
       | Some c \<Rightarrow> (case AccessType c of
           BlockAccess \<Rightarrow> attachToNode cs (prNodeId r) (prVolumeId r) []
         | MountAccess fs flags \<Rightarrow> attachToNode cs (prNodeId r) (prVolumeId r) fs
         | NoAccess \<Rightarrow> fail (StatusError InvalidArgument
             ''ControllerPublishVolume: Volume capability does not have mount capabilities set'' [])))))"

section \<open>ControllerUnpublishVolume\<close>

definition detachFromNode :: "controller_server \<Rightarrow> string \<Rightarrow> string \<Rightarrow> unit res vcd" where
  "detachFromNode cs vmName volumeID =
     (let dm = DiskManager cs in
      attempt (searchNodeVM cs vmName) (\<lambda>e. fail e) (\<lambda>vm.
      attempt (DetachVolume dm vm volumeID (ZoneMap dm))
        (\<lambda>e. ignore (AddToErrorSet dm DiskDetachError [] volumeID
              [(''Detailed Error'', DText (error_text e)), (''VM Info'', DText vmName)])
            (if errors_Is_NotFound e then
               fail (StatusError NotFound ''Volume does not exist'' [])
             else fail e)) (\<lambda>_.
      ignore (RemoveFromErrorSet dm DiskDetachError [] volumeID) (ok ()))))"

definition ControllerUnpublishVolume :: "controller_server \<Rightarrow> unpublish_request option \<Rightarrow>
    unit res vcd" where
  "ControllerUnpublishVolume cs req = (case req of
     None \<Rightarrow> fail (StatusError InvalidArgument ''ControllerUnpublishVolume: req should not be nil'' [])
   | Some r \<Rightarrow> with_token (
       let dm = DiskManager cs in
       if upVolumeId r = [] then
         fail (StatusError InvalidArgument ''ControllerUnpublishVolume: Volume ID must be provided'' [])
       else attempt
         (GetDiskByNameOrId dm (upVolumeId r) (ZoneMap dm) (ClusterOVDCIdentifier (VCDClient dm)))
         (\<lambda>e. if errors_Is_NotFound e then ok ()
            else fail (StatusError NotFound ''Unable to find disk by name'' [e])) (\<lambda>disk.
       attempt (GovcdAttachedVM dm disk)
         (\<lambda>e. fail (StatusError Internal ''Unable to find VMs attached to disk'' [e])) (\<lambda>attachedVMs.
       if attachedVMs = [] then ok ()
       else if upNodeId r = [] then
         fail (StatusError InvalidArgument ''ControllerUnpublishVolume: Node ID must be provided'' [])
       else detachFromNode cs (upNodeId r) (upVolumeId r)))))"

section \<open>ControllerExpandVolume\<close>

text \<open>\<open>int64(math.Ceil(float64(req.CapacityRange.RequiredBytes / MbToBytes)))\<close>: the division is of integers.\<close>

definition expandedSizeMb :: "capacity_range \<Rightarrow> int64" where
  "expandedSizeMb capacity = i64 (f64_of_int (sint (div64 (RequiredBytes capacity) MbToBytes)))"

definition expansionMode :: "int \<Rightarrow> volume_capability \<Rightarrow> reference list \<Rightarrow> expansion" where
  "expansionMode mode c attachedVMs =
     (if mode \<noteq> MULTI_NODE_MULTI_WRITER \<and> \<not> GetBlock c then
        (if attachedVMs = [] then OFFLINE else ONLINE)
      else OFFLINE)"

definition expandOffline :: "disk_manager \<Rightarrow> disk \<Rightarrow> reference list \<Rightarrow> int64 \<Rightarrow> expand_response res vcd"
where
  "expandOffline dm disk attachedVMs newSizeMb =
     (if attachedVMs \<noteq> [] then
        fail (StatusError FailedPrecondition ''Disk cannot be expanded in OFFLINE mode since VMs are attached'' [])
      else attempt (UpdateDisk dm disk \<lparr>uXmlns = [], uDescription = dDescription disk,
          uSizeMb = newSizeMb, uName = dName disk, uOwner = dOwner disk\<rparr>)
        (\<lambda>e. fail (StatusError Internal ''unable to update disk'' [e])) (\<lambda>task.
      attempt (WaitTaskCompletion task)
        (\<lambda>e. fail (StatusError Internal ''unable to wait for task for expansion of disk'' [e]))
        (\<lambda>_. ok \<lparr>ExpandedBytes = newSizeMb * MbToBytes, NodeExpansionRequired = False\<rparr>)))"

text \<open>The first setting of the machine that refers to the disk gets the new size.\<close>

fun resizeSetting :: "string \<Rightarrow> int64 \<Rightarrow> disk_setting list \<Rightarrow> disk_setting list option" where
  "resizeSetting diskId newSizeMb [] = None"
| "resizeSetting diskId newSizeMb (s # ss) = (case sDisk s of
     None \<Rightarrow> map_option (Cons s) (resizeSetting diskId newSizeMb ss)
   | Some r \<Rightarrow> if rID r = diskId then Some (s\<lparr>sSizeMb := newSizeMb\<rparr> # ss)
       else map_option (Cons s) (resizeSetting diskId newSizeMb ss))"

definition expandOnline :: "controller_server \<Rightarrow> disk \<Rightarrow> reference list \<Rightarrow> int64 \<Rightarrow>
    expand_response res vcd" where
  "expandOnline cs disk attachedVMs newSizeMb = (case attachedVMs of
     [r] \<Rightarrow>
       attempt (searchNodeVM cs (rName r)) (\<lambda>e. fail e) (\<lambda>vm.
       case mVmSpecSection vm of
         None \<Rightarrow> panic ''nil VmSpecSection''
       | Some None \<Rightarrow> panic ''nil DiskSection''
       | Some (Some settings) \<Rightarrow> (case resizeSetting (dId disk) newSizeMb settings of
           None \<Rightarrow> fail (StatusError Internal ''Unable to find disk from node'' [])
         | Some newDiskSettings \<Rightarrow> attempt (UpdateInternalDisks vm newDiskSettings)
             (\<lambda>e. fail (StatusError Internal ''Unable to increase size of disk'' [e]))
             (\<lambda>_. ok \<lparr>ExpandedBytes = newSizeMb * MbToBytes, NodeExpansionRequired = True\<rparr>)))
   | _ \<Rightarrow> fail (StatusError FailedPrecondition
       ''Disk cannot be expanded in ONLINE mode since zero or more than one VMs are attached'' []))"

text \<open>From the disk to the response.\<close>

definition expandDisk :: "controller_server \<Rightarrow> capacity_range \<Rightarrow> volume_capability \<Rightarrow> int \<Rightarrow> disk \<Rightarrow>
    expand_response res vcd" where
  "expandDisk cs capacity c mode disk =
     (let dm = DiskManager cs; newSizeMb = expandedSizeMb capacity in
      if dSizeMb disk = newSizeMb then
        ok \<lparr>ExpandedBytes = newSizeMb * MbToBytes, NodeExpansionRequired = False\<rparr>
      else if sint (dSizeMb disk) > sint newSizeMb then
        fail (StatusError InvalidArgument ''Disk new size cannot be less than previous value'' [])
      else attempt (GovcdAttachedVM dm disk)
        (\<lambda>e. fail (StatusError Internal ''Unable to find VM attached to disk'' [e])) (\<lambda>attachedVMs.
      if length attachedVMs > 1 then
        fail (StatusError FailedPrecondition
          ''There should be at most 1 VM attached to a disk for Volume Expansion'' [])
      else (case expansionMode mode c attachedVMs of
          OFFLINE \<Rightarrow> expandOffline dm disk attachedVMs newSizeMb
        | ONLINE \<Rightarrow> expandOnline cs disk attachedVMs newSizeMb
        | EXPANSION_UNKNOWN \<Rightarrow> fail (StatusError Internal ''Unknown volume expansion mode'' []))))"

definition ControllerExpandVolume :: "controller_server \<Rightarrow> expand_request option \<Rightarrow>
    expand_response res vcd" where
  "ControllerExpandVolume cs req = (case req of
     None \<Rightarrow> fail (StatusError InvalidArgument ''ControllerExpandVolume: req should not be nil'' [])
   | Some r \<Rightarrow>
       if exVolumeId r = [] then fail (StatusError InvalidArgument ''Volume Id not provided'' [])
       else (case exCapacityRange r of
         None \<Rightarrow> panic ''nil CapacityRange''
       | Some capacity \<Rightarrow>
           if sint (LimitBytes capacity) > 0 \<and> sint (RequiredBytes capacity) > sint (LimitBytes capacity) then
             fail (StatusError InvalidArgument ''required bytes should be lesser than limit bytes'' [])
           else (case exVolumeCapability r of
             None \<Rightarrow> fail (StatusError InvalidArgument ''Volume Capability is nil'' [])
           | Some c \<Rightarrow> (case AccessMode c of
               None \<Rightarrow> fail (StatusError InvalidArgument ''Volume Access Mode is nil'' [])
             | Some mode \<Rightarrow> with_token (
                 let dm = DiskManager cs in
                 attempt (GetDiskByNameOrId dm (exVolumeId r) (ZoneMap dm)
                     (ClusterOVDCIdentifier (VCDClient dm)))
                   (\<lambda>e. fail (StatusError Internal ''Unable to get disk by ID'' [e]))
                   (\<lambda>disk. expandDisk cs capacity c mode disk))))))"

section \<open>The other calls\<close>

definition ControllerGetCapabilities :: "controller_server \<Rightarrow> unit option \<Rightarrow> controller_rpc list res" where
  "ControllerGetCapabilities cs req = (case req of
     None \<Rightarrow> Inl (StatusError InvalidArgument ''ControllerGetCapabilities: req should not be nil'' [])
   | Some _ \<Rightarrow> Inr (controllerServiceCapabilities (Driver cs)))"

definition ValidateVolumeCapabilities :: "unit res" where
  "ValidateVolumeCapabilities =
     Inl (StatusError Unimplemented ''ValidateVolumeCapabilities not implemented'' [])"

definition ListVolumes :: "unit res" where
  "ListVolumes = Inl (StatusError Unimplemented ''ListVolumes not implemented'' [])"

definition CreateSnapshot :: "unit res" where
  "CreateSnapshot = Inl (StatusError InvalidArgument ''CreateSnapshot not implemented'' [])"

definition DeleteSnapshot :: "unit res" where
  "DeleteSnapshot = Inl (StatusError InvalidArgument ''DeleteSnapshot not implemented'' [])"

definition ListSnapshots :: "unit res" where
  "ListSnapshots = Inl (StatusError InvalidArgument ''ListSnapshots not implemented'' [])"

definition GetCapacity :: "unit res" where
  "GetCapacity = Inl (StatusError Unimplemented ''GetCapacity not implemented'' [])"

definition ControllerGetVolume :: "unit res" where
  "ControllerGetVolume = Inl (StatusError InvalidArgument ''ControllerGetVolume not implemented'' [])"

section \<open>Guards and the lock in the handlers\<close>

lemma keeps_with_token [keeps_rules]: "keeps write_guard m \<Longrightarrow> keeps write_guard (with_token m)"
  unfolding with_token_def by (auto intro!: keeps_rules simp: vcd_calls)

lemma balanced_with_token [balanced_rules]: "balanced m \<Longrightarrow> balanced (with_token m)"
  unfolding with_token_def by (auto intro!: balanced_rules)

lemma emits_capabilities:
  "emits P (isDiskShareable caps)" "emits P (IsBlockVolume caps)"
  by (induction caps) (auto intro!: trace_rules)

lemma emits_volumeVDC: "emits P (volumeVDC dm params)"
  unfolding volumeVDC_def by (auto intro!: trace_rules simp: Let_def)

lemma keeps_parts [keeps_rules]:
  "keeps write_guard (isDiskShareable caps)" "keeps write_guard (IsBlockVolume caps)"
  "keeps write_guard (volumeVDC dm params)" "keeps write_guard (GetVDCByNameOrId dm i)"
  "keeps write_guard (SearchVMAcrossVDCs a b c)" "keeps write_guard (GovcdAttachedVM dm d)"
  "keeps write_guard (UpdateInternalDisks vm ss)"
proof -
  show "keeps write_guard (isDiskShareable caps)" "keeps write_guard (IsBlockVolume caps)"
    "keeps write_guard (volumeVDC dm params)"
    by (rule keeps_emits [where P = "\<lambda>_. False"]; simp add: emits_capabilities emits_volumeVDC)+
  show "keeps write_guard (GovcdAttachedVM dm d)"
    unfolding GovcdAttachedVM_def by (auto intro!: keeps_rules simp: vcd_calls)
qed (auto intro!: keeps_rules simp: vcd_calls GetVDCByNameOrId_def)

lemma balanced_capabilities [balanced_rules]:
  "balanced (isDiskShareable caps)" "balanced (IsBlockVolume caps)" "balanced (volumeVDC dm params)"
  by (rule balanced_emits, rule emits_capabilities emits_volumeVDC)+

lemmas handler_defs = CreateVolume_def provision_def DeleteVolume_def ControllerPublishVolume_def
  attachToNode_def ControllerUnpublishVolume_def detachFromNode_def searchNodeVM_def
  ControllerExpandVolume_def expandDisk_def expandOffline_def expandOnline_def

lemma keeps_case_access [keeps_rules]:
  "keeps G m \<Longrightarrow> keeps G m' \<Longrightarrow> (\<And>fs fl. keeps G (k fs fl)) \<Longrightarrow>
   keeps G (case a of NoAccess \<Rightarrow> m | BlockAccess \<Rightarrow> m' | MountAccess fs fl \<Rightarrow> k fs fl)"
  by (cases a) auto

lemmas keeps_operations [keeps_rules] =
  keeps_CreateDisk keeps_DeleteDisk keeps_DetachVolume

text \<open>What the handlers do with the disk they have looked up keeps the guard because it was read.\<close>

lemmas read_parts [read_rules] = read_AttachVolume read_UpdateDisk keeps_sets [THEN read_keeps]
  keeps_parts [THEN read_keeps] keeps_calls [THEN read_keeps] keeps_ret [THEN read_keeps]

lemma read_expandDisk: "keeps_read d (expandDisk cs capacity c mode d)"
proof -
  have "keeps_read d (expandOnline cs d vms n)" for vms n
    unfolding expandOnline_def searchNodeVM_def
    by (rule read_keeps) (auto intro!: keeps_rules split: list.splits option.splits)
  then show ?thesis
    unfolding expandDisk_def expandOffline_def Let_def
    by (auto intro!: read_rules split: expansion.splits)
qed

lemma keeps_attachToNode: "keeps write_guard (attachToNode cs node name fs)"
  unfolding attachToNode_def searchNodeVM_def Let_def
  by (rule keeps_attempt [OF _ _ keeps_find_body [OF _ keeps_readD]])
    (auto intro!: read_rules, auto intro!: keeps_rules)

lemma keeps_handlers:
  "keeps write_guard (CreateVolume cs req)" "keeps write_guard (DeleteVolume cs del)"
  "keeps write_guard (ControllerPublishVolume cs pub)"
  "keeps write_guard (ControllerUnpublishVolume cs unp)"
  "keeps write_guard (ControllerExpandVolume cs exp)"
proof -
  show "keeps write_guard (ControllerPublishVolume cs pub)"
    unfolding ControllerPublishVolume_def
    by (auto intro!: keeps_rules keeps_attachToNode split: access_type.splits)
  show "keeps write_guard (ControllerExpandVolume cs exp)"
    unfolding ControllerExpandVolume_def Let_def
    by (auto intro!: keeps_rules keeps_find_body keeps_readD read_expandDisk)
qed (unfold handler_defs Let_def, auto intro!: keeps_rules split: list.splits)

lemma balanced_handlers:
  "balanced (CreateVolume cs req)" "balanced (DeleteVolume cs del)"
  "balanced (ControllerPublishVolume cs pub)" "balanced (ControllerUnpublishVolume cs unp)"
  "balanced (ControllerExpandVolume cs exp)"
  unfolding handler_defs Let_def
  by (auto intro!: balanced_rules split: list.splits expansion.splits access_type.splits)

section \<open>The token\<close>

text \<open>Whether the last renewal of the token before a point succeeded.\<close>

definition authorised :: "vcd_event list \<Rightarrow> bool" where
  "authorised es = foldl (\<lambda>b e. case e of EvRefreshToken t \<Rightarrow> t = Inr () | _ \<Rightarrow> b) False es"

fun is_token :: "vcd_event \<Rightarrow> bool" where
  "is_token (EvRefreshToken _) = True"
| "is_token _ = False"

fun is_attach :: "vcd_event \<Rightarrow> bool" where
  "is_attach (EvAttach _ _ _) = True"
| "is_attach _ = False"

definition token_guard :: "vcd_event list \<Rightarrow> vcd_event \<Rightarrow> bool" where
  "token_guard pre e \<longleftrightarrow> (is_storage_write e \<longrightarrow> authorised pre)"

lemma authorised_snoc:
  "authorised (es @ [EvRefreshToken t]) \<longleftrightarrow> t = Inr ()"
  "\<not> is_token e \<Longrightarrow> authorised (es @ [e]) = authorised es"
  by (simp add: authorised_def) (cases e; simp add: authorised_def)

lemma authorised_kept:
  "authorised pre \<Longrightarrow> list_all (\<lambda>e. \<not> is_token e) es \<Longrightarrow> guard_ok token_guard pre es"
  by (induction es arbitrary: pre) (auto simp: token_guard_def authorised_snoc(2))

abbreviation no_token :: "vcd_event \<Rightarrow> bool" where
  "no_token e \<equiv> \<not> is_token e"

lemma token_with_token:
  assumes "emits no_token m"
  shows "keeps token_guard (with_token m)"
  unfolding keeps_def
proof (intro allI)
  fix env :: vcd_env and h
  have "guard_ok token_guard (h @ [EvRefreshToken (Inr ())]) es" if "list_all no_token es" for es
    using that by (intro authorised_kept) (simp add: authorised_snoc(1))
  then show "sat (with_token m) env h (\<lambda>r es. guard_ok token_guard h es)"
    by (auto simp: with_token_def wp vcd_calls token_guard_def split: sum.splits
        intro!: emits_rule [OF assms])
qed

text \<open>Events that neither renew the token nor attach a disk.\<close>

definition plain :: "vcd_event \<Rightarrow> bool" where
  "plain e \<longleftrightarrow> \<not> is_token e \<and> \<not> is_attach e"

lemma plain_events [simp]:
  "is_query e \<Longrightarrow> plain e" "is_rde_event e \<Longrightarrow> plain e" "is_lock_event e \<Longrightarrow> plain e"
  "plain (EvSearchVM n a b v)" "plain (EvWaitTask k w)" "plain (EvPutDisk l u q)"
  "plain (EvUpdateDisks m ss z)" "plain (EvFindProfile vn pn pr)" "plain (EvPostDisk l p ww)"
  "plain (EvDeleteDisk i w)" "plain (EvDetach m i w)"
  by (cases e; simp add: plain_def)+

lemma plain_parts:
  "emits plain (GetDiskByNameOrId dm name zm i)" "emits plain (govcdGetDiskByHref href)"
  "emits plain (addPvToRDE dm a b)" "emits plain (removePvFromRDE dm a b)"
  by (rule emits_mono, rule trace_rules, simp)+

lemma plain_ops:
  "emits plain (GovcdAttachedVM dm d)" "emits plain (UpdateDisk dm d info)"
  "emits plain (createNewDisk dm name v sz bt bst desc sp sh)"
  "emits plain (CreateDisk dm name v sz bt bst desc sp sh zm)"
  "emits plain (DeleteDisk dm name zm)" "emits plain (DetachVolume dm vm name zm)"
  "emits plain (govcdRefresh od)"
proof -
  show *: "emits plain (GovcdAttachedVM dm d)" for d
    unfolding GovcdAttachedVM_def by (auto intro!: trace_rules)
  show "emits plain (UpdateDisk dm d info)"
    unfolding UpdateDisk_def by (auto intro!: trace_rules *)
  show **: "emits plain (createNewDisk dm name v sz bt bst desc sp sh)"
    unfolding createNewDisk_def createAndRecord_def createDisk_def
    by (auto intro!: trace_rules plain_parts split: list.splits)
  show "emits plain (CreateDisk dm name v sz bt bst desc sp sh zm)"
    unfolding CreateDisk_def checkExistingDisk_def Let_def
    by (auto intro!: trace_rules plain_parts **)
  show "emits plain (DeleteDisk dm name zm)"
    unfolding DeleteDisk_def govcdDelete_def finishDelete_def
    by (auto intro!: trace_rules plain_parts *)
  show "emits plain (DetachVolume dm vm name zm)"
    unfolding DetachVolume_def by (auto intro!: trace_rules plain_parts *)
  show "emits plain (govcdRefresh od)"
    unfolding govcdRefresh_def by (auto intro!: trace_rules plain_parts)
qed

lemma plain_no_token: "emits plain m \<Longrightarrow> emits no_token m"
  by (erule emits_mono) (simp add: plain_def)

lemma no_token_AttachVolume: "emits no_token (AttachVolume dm vm od)"
  unfolding AttachVolume_def
  by (auto intro!: trace_rules plain_ops(1) [THEN plain_no_token] plain_ops(7) [THEN plain_no_token])

lemmas no_token_rules = no_token_AttachVolume plain_parts [THEN plain_no_token]
  plain_ops [THEN plain_no_token]

lemma token_handlers:
  "keeps token_guard (CreateVolume cs req)" "keeps token_guard (DeleteVolume cs del)"
  "keeps token_guard (ControllerPublishVolume cs pub)"
  "keeps token_guard (ControllerUnpublishVolume cs unp)"
  "keeps token_guard (ControllerExpandVolume cs exp)"
  unfolding handler_defs Let_def
  by (auto intro!: keeps_rules token_with_token trace_rules emits_capabilities emits_volumeVDC
      no_token_rules split: list.splits expansion.splits access_type.splits)

section \<open>Safe operations\<close>

text \<open>
  What a client of the service relies on: an operation writes only with a token, under the
  lock where that is due, and after the checks that the write needs.
\<close>

locale safe_operation =
  fixes op :: "'a vcd"
  assumes tokens: "keeps token_guard op"
    and checks: "keeps write_guard op"
    and locking: "balanced op"
begin

lemma safe_write:
  assumes "\<not> held h" and "op env h = (r, xs @ e # ys)"
  shows "write_guard (h @ xs) e \<and> lock_guard (h @ xs) e \<and> (is_storage_write e \<longrightarrow> authorised (h @ xs))"
  using keepsD [OF tokens, of env h] keepsD [OF checks, of env h] balancedD [OF locking assms(1), of env]
    assms(2) by (simp add: sat_pair token_guard_def)

lemma lock_free: "\<not> held h \<Longrightarrow> \<not> held (h @ snd (op env h))"
  using balancedD [OF locking, of h env] by (simp add: sat_iff)

lemma then_safe:
  assumes "safe_operation op'"
  shows "safe_operation (bind op (\<lambda>_. op'))"
  using assms tokens checks locking
  by (auto simp: safe_operation_def intro!: keeps_bind balanced_bind)

end

interpretation create_volume: safe_operation "CreateVolume cs req" for cs req
  by unfold_locales (rule token_handlers keeps_handlers balanced_handlers)+

interpretation delete_volume: safe_operation "DeleteVolume cs req" for cs req
  by unfold_locales (rule token_handlers keeps_handlers balanced_handlers)+

interpretation publish_volume: safe_operation "ControllerPublishVolume cs req" for cs req
  by unfold_locales (rule token_handlers keeps_handlers balanced_handlers)+

interpretation unpublish_volume: safe_operation "ControllerUnpublishVolume cs req" for cs req
  by unfold_locales (rule token_handlers keeps_handlers balanced_handlers)+

interpretation expand_volume: safe_operation "ControllerExpandVolume cs req" for cs req
  by unfold_locales (rule token_handlers keeps_handlers balanced_handlers)+

section \<open>Sequences of requests\<close>

datatype controller_call =
    CallCreate "create_volume_request option"
  | CallDelete "string option"
  | CallPublish "publish_request option"
  | CallUnpublish "unpublish_request option"
  | CallExpand "expand_request option"

text \<open>One call after the other; the answers go back to the caller. A panic ends the process.\<close>

fun controller_step :: "controller_server \<Rightarrow> controller_call \<Rightarrow> unit vcd" where
  "controller_step cs (CallCreate r) = bind (CreateVolume cs r) (\<lambda>_. ret ())"
| "controller_step cs (CallDelete r) = bind (DeleteVolume cs r) (\<lambda>_. ret ())"
| "controller_step cs (CallPublish r) = bind (ControllerPublishVolume cs r) (\<lambda>_. ret ())"
| "controller_step cs (CallUnpublish r) = bind (ControllerUnpublishVolume cs r) (\<lambda>_. ret ())"
| "controller_step cs (CallExpand r) = bind (ControllerExpandVolume cs r) (\<lambda>_. ret ())"

fun serve :: "controller_server \<Rightarrow> controller_call list \<Rightarrow> unit vcd" where
  "serve cs [] = ret ()"
| "serve cs (c # calls) = bind (controller_step cs c) (\<lambda>_. serve cs calls)"

lemma safe_ret: "safe_operation (ret x)"
  by unfold_locales simp_all

lemma safe_step: "safe_operation (controller_step cs c)"
  by (cases c) (simp_all add: create_volume.then_safe delete_volume.then_safe
      publish_volume.then_safe unpublish_volume.then_safe expand_volume.then_safe safe_ret)

lemma safe_serve: "safe_operation (serve cs calls)"
  by (induction calls) (simp_all add: safe_ret safe_operation.then_safe [OF safe_step])

section \<open>Properties\<close>

text \<open>
  C40: the size of a new volume is the requested number of bytes rounded up to megabytes, for
  requests of at most 2^53 bytes, and the capacity that is reported covers the request by
  less than a megabyte more; without a request it is one gigabyte.
\<close>

theorem requestedSizeMb_covers:
  assumes "capacity = Some c" and "0 < sint (RequiredBytes c)" and "sint (RequiredBytes c) \<le> 2 ^ 53"
  shows "sint (RequiredBytes c) \<le> sint (requestedSizeMb capacity * MbToBytes) \<and>
    sint (requestedSizeMb capacity * MbToBytes) < sint (RequiredBytes c) + 1048576 \<and>
    sint (requestedSizeMb capacity * MbToBytes) = sint (requestedSizeMb capacity) * 1048576 \<and>
    sint (requestedSizeMb None) = 1024"
proof -
  have "RequiredBytes c \<noteq> 0" using assms(2) by auto
  then show ?thesis
    using mb_ceil_covers [OF assms(2,3)] by (simp add: assms(1) requestedSizeMb_def mb_ceil_default)
qed

theorem requestedSizeMb_covers_witness:
  "sint (requestedSizeMb (Some \<lparr>RequiredBytes = 1048577, LimitBytes = 0\<rparr>) * MbToBytes) < 2097153"
  using requestedSizeMb_covers [OF refl, of "\<lparr>RequiredBytes = 1048577, LimitBytes = 0\<rparr>"] by simp

text \<open>
  Beyond 2^53 bytes the conversion to a float can lose bytes: the reported capacity is
  then smaller than the request; and a request near 2^63 is answered with a negative capacity.
\<close>

theorem requestedSizeMb_large:
  "sint (requestedSizeMb (Some \<lparr>RequiredBytes = i64 (2 ^ 53 + 1), LimitBytes = 0\<rparr>) * MbToBytes) = 2 ^ 53 \<and>
   sint (requestedSizeMb (Some \<lparr>RequiredBytes = i64 (2 ^ 63 - 1), LimitBytes = 0\<rparr>) * MbToBytes) = - (2 ^ 63)"
proof -
  have "i64 (2 ^ 53 + 1) \<noteq> 0" "i64 (2 ^ 63 - 1) \<noteq> 0" by (simp_all add: i64_def)
  then show ?thesis using mb_ceil_large unfolding requestedSizeMb_def by simp
qed

text \<open>
  The size for an expansion is the request divided by a megabyte and truncated, so the
  capacity that is reported is smaller than a positive request unless that is a whole number
  of megabytes.
\<close>

lemma whole_megabytes:
  fixes r :: int
  assumes "- (2 ^ 63) \<le> r" and "r < 2 ^ 63"
  defines "n \<equiv> sgn r * (\<bar>r\<bar> div 1048576)"
  shows "\<bar>n\<bar> \<le> 2 ^ 43" and "- (2 ^ 63) \<le> n * 1048576" and "n * 1048576 < 2 ^ 63"
    and "r \<le> n * 1048576 \<longleftrightarrow> r \<le> 0 \<or> 1048576 dvd r"
proof -
  have split: "\<bar>r\<bar> = \<bar>r\<bar> div 1048576 * 1048576 + \<bar>r\<bar> mod 1048576" "0 \<le> \<bar>r\<bar> mod 1048576"
    "0 \<le> \<bar>r\<bar> div 1048576"
    by (simp_all add: pos_imp_zdiv_nonneg_iff)
  then show "\<bar>n\<bar> \<le> 2 ^ 43" "- (2 ^ 63) \<le> n * 1048576" "n * 1048576 < 2 ^ 63"
    using assms(1,2) by (auto simp: n_def sgn_if abs_mult)
  show "r \<le> n * 1048576 \<longleftrightarrow> r \<le> 0 \<or> 1048576 dvd r"
  proof (cases "0 < r")
    case True
    then have "n * 1048576 = r - r mod 1048576" by (simp add: n_def minus_mod_eq_div_mult)
    moreover have "0 \<le> r mod 1048576" by simp
    ultimately have "r \<le> n * 1048576 \<longleftrightarrow> r mod 1048576 = 0" by linarith
    then show ?thesis using True by (simp add: dvd_eq_mod_eq_0)
  next
    case False
    then show ?thesis using split by (auto simp: n_def sgn_if)
  qed
qed

lemma expandedSizeMb_whole:
  defines "n \<equiv> \<lambda>c. sgn (sint (RequiredBytes c)) * (\<bar>sint (RequiredBytes c)\<bar> div 1048576)"
  shows "expandedSizeMb c = i64 (n c)" and "sint (expandedSizeMb c) = n c"
    and "sint (expandedSizeMb c * MbToBytes) = n c * 1048576"
proof -
  note range = whole_megabytes [OF conjunct1 [OF sint_range] conjunct2 [OF sint_range], of "RequiredBytes c"]
  have small: "\<bar>n c\<bar> \<le> 2 ^ 43" "- (2 ^ 63) \<le> n c" "n c < 2 ^ 63"
    using range(1) by (auto simp: n_def)
  then have d: "sint (div64 (RequiredBytes c) MbToBytes) = n c"
    by (simp add: div64_def sint_i64 n_def)
  have "\<bar>n c\<bar> \<le> 2 ^ 53" using small(1) by simp
  then show e: "expandedSizeMb c = i64 (n c)"
    by (simp add: expandedSizeMb_def d f64_of_int_exact)
  then show s: "sint (expandedSizeMb c) = n c" using small(2,3) by (simp add: sint_i64)
  have "sint (expandedSizeMb c * MbToBytes) = sint (expandedSizeMb c) * sint MbToBytes"
    using range(2,3) by (intro sint_mult_small) (simp_all add: s n_def)
  then show "sint (expandedSizeMb c * MbToBytes) = n c * 1048576" by (simp add: s)
qed

text \<open>Capabilities that all carry a supported access mode.\<close>

definition supported :: "volume_capability \<Rightarrow> bool" where
  "supported c \<longleftrightarrow> (\<exists>m. AccessMode c = Some m \<and> 1 \<le> m \<and> m \<le> 5)"

definition multi_node :: "volume_capability \<Rightarrow> bool" where
  "multi_node c \<longleftrightarrow> (\<exists>m. AccessMode c = Some m \<and> m \<in> {3, 4, 5})"

lemma isDiskShareable_eq:
  "list_all (\<lambda>c. AccessMode c \<noteq> None) caps \<Longrightarrow> isDiskShareable caps = ret (list_ex multi_node caps)"
  by (induction caps) (auto simp: multi_node_def mode_defs)

lemma IsBlockVolume_eq:
  "list_all supported caps \<Longrightarrow> IsBlockVolume caps = ok (list_ex GetBlock caps)"
  by (induction caps) (auto simp: supported_def supported_mode_iff)

text \<open>
  For capabilities with the supported access modes, a volume is a block volume when one of
  them asks for a block device, and shareable when one of them is a multi-node mode; a first
  capability with another mode is refused, and one without a mode is a nil dereference.
\<close>

theorem volume_kind:
  assumes "list_all supported caps"
  shows "IsBlockVolume caps = ok (list_ex GetBlock caps) \<and>
    isDiskShareable caps = ret (list_ex multi_node caps) \<and>
    (\<forall>c m. AccessMode c = Some m \<longrightarrow> \<not> (1 \<le> m \<and> m \<le> 5) \<longrightarrow> IsBlockVolume (c # caps) =
       fail (Errorf ''unknown volume capability or not supported'' [])) \<and>
    (\<forall>c. AccessMode c = None \<longrightarrow> IsBlockVolume (c # caps) = panic ''nil AccessMode'')"
proof -
  have "list_all (\<lambda>c. AccessMode c \<noteq> None) caps"
    using assms by (auto simp: list_all_iff supported_def)
  then show ?thesis
    using isDiskShareable_eq IsBlockVolume_eq [OF assms] by (auto simp: supported_mode_iff)
qed

theorem volume_kind_witness:
  "IsBlockVolume [\<lparr>AccessMode = Some SINGLE_NODE_WRITER, AccessType = MountAccess ''ext4'' []\<rparr>,
     \<lparr>AccessMode = Some MULTI_NODE_MULTI_WRITER, AccessType = BlockAccess\<rparr>] = ok True"
  using volume_kind [of "[\<lparr>AccessMode = Some SINGLE_NODE_WRITER, AccessType = MountAccess ''ext4'' []\<rparr>,
     \<lparr>AccessMode = Some MULTI_NODE_MULTI_WRITER, AccessType = BlockAccess\<rparr>]"]
  by (simp add: supported_def mode_defs GetBlock_def)

text \<open>
  The data center of a new volume. In a cluster with zones it is one that the zone map
  gives for the zone in the parameters, and without such a zone the call is refused as an
  invalid argument; otherwise it is the cluster's.
\<close>

theorem volumeVDC_spec:
  "sat (volumeVDC dm params) env h (\<lambda>r es. es = [] \<and>
     (case r of
        Done (Inr v) \<Rightarrow> (if IsZoneEnabledCluster dm
          then \<exists>z. map_of params ZoneNameParameter = Some z \<and> z \<noteq> [] \<and> v \<noteq> [] \<and>
            (v, z) \<in> set (zones_of (ZoneMap dm))
          else v = ClusterOVDCIdentifier (VCDClient dm))
      | Done (Inl e) \<Rightarrow> IsZoneEnabledCluster dm \<and> (\<exists>s. e = StatusError InvalidArgument s [])
      | Panic _ \<Rightarrow> False))"
proof -
  have "foldl (\<lambda>v (ovdcName, zoneName). if zoneName = z then ovdcName else v) v0 zs = v0 \<or>
      (foldl (\<lambda>v (ovdcName, zoneName). if zoneName = z then ovdcName else v) v0 zs, z) \<in> set zs"
    for z :: string and v0 :: string and zs
    by (induction zs arbitrary: v0) fastforce+
  from this [of _ "[]"] show ?thesis
    unfolding volumeVDC_def
    by (auto simp: wp range_over_def Let_def split: option.splits) (metis set_sort)+
qed

definition refers :: "string \<Rightarrow> disk_setting \<Rightarrow> bool" where
  "refers i s \<longleftrightarrow> (case sDisk s of None \<Rightarrow> False | Some r \<Rightarrow> rID r = i)"

lemma resizeSetting_step:
  "resizeSetting i n (s # ss) = (if refers i s then Some (s\<lparr>sSizeMb := n\<rparr> # ss)
     else map_option (Cons s) (resizeSetting i n ss))"
  by (simp add: refers_def split: option.splits)

text \<open>
  An online expansion changes the size of one disk setting of the machine, the first that
  refers to the disk, and nothing else; without such a setting there is no update.
\<close>

theorem resizeSetting_first:
  "resizeSetting i n ss = (case dropWhile (\<lambda>s. \<not> refers i s) ss of
     [] \<Rightarrow> None
   | s # post \<Rightarrow> Some (takeWhile (\<lambda>s. \<not> refers i s) ss @ s\<lparr>sSizeMb := n\<rparr> # post))"
  by (induction ss)
    (auto simp: resizeSetting_step simp del: resizeSetting.simps(2) dropWhile_eq_Nil_conv split: list.split)

end
