(* ===== verification/ControllerSpec.thy ===== *)
theory ControllerSpec
  imports RdeLoops Controller
begin

text \<open>
  What the handlers of pkg/csi/controller.go answer, and what they have done when they answer
  success. Each statement holds in every environment and from every history; it combines the
  stories of the DiskManager's operations (theory DiskOps) along the code of the handler.
\<close>

section \<open>Shared rules\<close>

lemma sat_with_token [wp]:
  "sat (with_token m) env h Q = (case q_refreshToken env h of
     Inl e \<Rightarrow> Q (Done (Inl (Errorf ''error while obtaining access token'' [e]))) [EvRefreshToken (Inl e)]
   | Inr t \<Rightarrow> sat m env (h @ [EvRefreshToken (Inr ())]) (\<lambda>r es. Q r (EvRefreshToken (Inr ()) # es)))"
  by (auto simp: with_token_def wp vcd_calls split: sum.splits)

lemma sat_searchNodeVM [wp]:
  "sat (searchNodeVM cs name) env h Q =
     (let v = q_searchVM env h name (VAppName cs) (IsZoneEnabledCluster (DiskManager cs)) in
      Q (Done (case v of Inl e \<Rightarrow> Inl (StatusError Internal ''Unable to find VM for node'' [e]) | Inr vm \<Rightarrow> Inr vm))
        [EvSearchVM name (VAppName cs) (IsZoneEnabledCluster (DiskManager cs)) v])"
  by (auto simp: searchNodeVM_def wp vcd_calls Let_def split: sum.splits)

text \<open>The lookup of a volume from a handler.\<close>

abbreviation find_volume :: "controller_server \<Rightarrow> string \<Rightarrow> disk res vcd" where
  "find_volume cs name \<equiv> GetDiskByNameOrId (DiskManager cs) name (ZoneMap (DiskManager cs))
     (ClusterOVDCIdentifier (VCDClient (DiskManager cs)))"

lemma quiet_sets: "no_write (EvAddError i ty a b ds q)" "no_write (EvRemoveError i ty a b q)"
  by simp_all

section \<open>DeleteVolume\<close>

text \<open>
  \<open>absent cs name env h es\<close>: a critical section of queries in which the lookup said that there
  is no disk of that name.
\<close>

definition absent :: "controller_server \<Rightarrow> string \<Rightarrow> vcd_env \<Rightarrow> vcd_event list \<Rightarrow> vcd_event list \<Rightarrow> bool"
where
  "absent cs name env h es \<longleftrightarrow> (\<exists>qs e. es = EvLock # qs @ [EvUnlock] \<and> list_all is_query qs \<and>
     errors_Is_NotFound e \<and> find_volume cs name env (h @ [EvLock]) = (Done (Inl e), qs))"

text \<open>What has happened when the deletion of a volume is reported as done.\<close>

definition volume_gone :: "controller_server \<Rightarrow> string \<Rightarrow> vcd_env \<Rightarrow> vcd_event list \<Rightarrow> vcd_event list \<Rightarrow> bool"
where
  "volume_gone cs name env h es \<longleftrightarrow> deleted name (Done (Inr ())) es \<or> absent cs name env h es"

text \<open>No error of DeleteDisk says that there is no such disk, so the handler's test for one never holds.\<close>

lemma sat_DeleteDisk_gone:
  "sat (DeleteDisk (DiskManager cs) name (ZoneMap (DiskManager cs))) env h (\<lambda>r es.
     case r of Done (Inl e) \<Rightarrow> \<not> errors_Is_NotFound e | Done (Inr _) \<Rightarrow> volume_gone cs name env h es | Panic _ \<Rightarrow> True)"
  by (rule sat_mono [OF sat_conj [THEN iffD2, OF conjI [OF DeleteDisk_story plain_operations(2) [THEN errors_areD]]]])
    (auto simp: volume_gone_def absent_def plain_not_missing split: outcome.splits sum.splits)

text \<open>
  C26: DeleteVolume, in every environment: when it answers success, the token was renewed, and
  the volume's disk was deleted with the delete accepted and its task finished, or the lookup
  found no disk of that name; and a call without a volume is never answered with success.
\<close>

theorem DeleteVolume_spec:
  "sat (DeleteVolume cs req) env h (only_succeeds (\<lambda>r es _. \<exists>name es1 es2.
     req = Some name \<and> name \<noteq> [] \<and> es = EvRefreshToken (Inr ()) # es1 @ es2 \<and>
     volume_gone cs name env (h @ [EvRefreshToken (Inr ())]) es1 \<and> list_all is_rde_event es2))"
proof (cases req)
  case None
  then show ?thesis by (simp add: DeleteVolume_def wp)
next
  case (Some name)
  have one: "P es [] \<Longrightarrow> \<exists>es1 es2. es = es1 @ es2 \<and> P es1 es2"
    "P es [e] \<Longrightarrow> \<exists>es1 es2. es @ [e] = es1 @ es2 \<and> P es1 es2" for P and es :: "vcd_event list" and e
    by (auto intro: exI [of _ es])
  show ?thesis
    by (auto simp: Some DeleteVolume_def wp split: sum.splits outcome.splits
        intro!: sat_mono [OF sat_DeleteDisk_gone] one)
qed

section \<open>ControllerPublishVolume\<close>

text \<open>
  \<open>attached vm d d' es\<close>: the critical section after which the disk \<open>d\<close> is attached to the
  machine \<open>vm\<close>, and \<open>d'\<close> is what the section returns. Either the attach was accepted, after
  the answer that allows it, its task finished, and \<open>d'\<close> was read afterwards; or the machine
  was among those of the disk, and \<open>d'\<close> is \<open>d\<close>.
\<close>

definition attached :: "vm \<Rightarrow> disk \<Rightarrow> disk \<Rightarrow> vcd_event list \<Rightarrow> bool" where
  "attached vm d d' es \<longleftrightarrow> (\<exists>l vms. vms_link d = Some l \<and>
     ((\<exists>t t' bs. es = EvLock # EvGetVms l (Inr vms) # EvAttach vm (dHREF d) (Inr t) # EvWaitTask t (Inr t') #
          EvGetDisk (dHREF d) (Inr d') # bs @ [EvUnlock] \<and>
          mHREF vm \<notin> set (map rHREF vms) \<and> (vms = [] \<or> dShareable d)) \<or>
      es = [EvLock, EvGetVms l (Inr vms), EvUnlock] \<and> mHREF vm \<in> set (map rHREF vms) \<and> d' = d))"

lemma sat_AttachVolume_attached:
  "sat (AttachVolume dm vm (Some d)) env h (only_succeeds (\<lambda>r es d'. attached vm d d' es))"
  by (rule sat_mono [OF AttachVolume_story], rule only_succeedsI) (auto simp: attached_def)

text \<open>The file system of a publish request: a block volume has none.\<close>

fun published_fs :: "access_type \<Rightarrow> string option" where
  "published_fs NoAccess = None"
| "published_fs BlockAccess = Some []"
| "published_fs (MountAccess fs _) = Some fs"

definition published :: "controller_server \<Rightarrow> string \<Rightarrow> string \<Rightarrow> string \<Rightarrow> (string \<times> string) list \<Rightarrow>
    vcd_event list \<Rightarrow> bool" where
  "published cs node name fs ctx es \<longleftrightarrow> (\<exists>vm d d' qs as x y.
     es = EvSearchVM node (VAppName cs) (IsZoneEnabledCluster (DiskManager cs)) (Inr vm) #
       qs @ x # as @ [y] \<and>
     list_all is_query qs \<and> fetched_unique name qs d \<and> attached vm d d' as \<and>
     is_rde_event x \<and> is_rde_event y \<and>
     ctx = [(VMFullNameAttribute, mName vm), (DiskIDAttribute, name),
       (DiskUUIDAttribute, dUUID d'), (FileSystemAttribute, fs)])"

lemma publishedI:
  "list_all is_query qs \<Longrightarrow> fetched_unique name qs d \<Longrightarrow> attached vm d d' as \<Longrightarrow>
   is_rde_event x \<Longrightarrow> is_rde_event y \<Longrightarrow>
   published cs node name fs [(VMFullNameAttribute, mName vm), (DiskIDAttribute, name),
       (DiskUUIDAttribute, dUUID d'), (FileSystemAttribute, fs)]
     (EvSearchVM node (VAppName cs) (IsZoneEnabledCluster (DiskManager cs)) (Inr vm) # qs @ x # as @ [y])"
  unfolding published_def by blast

lemma sat_attachToNode:
  "sat (attachToNode cs node name fs) env h (only_succeeds (\<lambda>r es ctx. published cs node name fs ctx es))"
proof (cases "q_searchVM env h node (VAppName cs) (IsZoneEnabledCluster (DiskManager cs))")
  case (Inl e)
  then show ?thesis by (simp add: attachToNode_def wp Let_def)
next
  case (Inr vm)
  let ?h = "h @ [EvSearchVM node (VAppName cs) (IsZoneEnabledCluster (DiskManager cs)) (Inr vm)]"
  show ?thesis
  proof (cases rule: lookup_cases [of "DiskManager cs" name "ZoneMap (DiskManager cs)"
        "ClusterOVDCIdentifier (VCDClient (DiskManager cs))" env ?h])
    case (panic s qs)
    show ?thesis by (simp add: Inr panic(1) attachToNode_def wp Let_def)
  next
    case (error e qs)
    show ?thesis by (simp add: Inr error(1) attachToNode_def wp Let_def)
  next
    case (found d qs)
    show ?thesis
      by (auto simp: Inr found(1) attachToNode_def wp Let_def split: outcome.splits sum.splits
          intro!: sat_mono [OF sat_AttachVolume_attached] publishedI [OF found(2,3)])
  qed
qed

lemma sat_ControllerPublishVolume:
  "sat (ControllerPublishVolume cs req) env h (only_succeeds (\<lambda>r es ctx. \<exists>q c fs es'.
     req = Some q \<and> prNodeId q \<noteq> [] \<and> prVolumeId q \<noteq> [] \<and> prVolumeCapability q = Some c \<and>
     published_fs (AccessType c) = Some fs \<and> es = EvRefreshToken (Inr ()) # es' \<and>
     published cs (prNodeId q) (prVolumeId q) fs ctx es'))"
  unfolding ControllerPublishVolume_def
  by (auto simp: wp split: option.splits sum.splits access_type.splits outcome.splits
      intro!: sat_mono [OF sat_attachToNode])

text \<open>
  C16: ControllerPublishVolume, in every environment: when it answers success, the token was
  renewed, the node's machine and the unique disk of that name were found, and the disk is
  attached to that machine, newly or since before; the answer names the machine, the volume,
  the disk's UUID as read after the attach, and the file system of the request.
\<close>

theorem ControllerPublishVolume_spec:
  "sat (ControllerPublishVolume cs req) env h (only_succeeds (\<lambda>r es ctx. \<exists>q c fs es'.
     req = Some q \<and> prNodeId q \<noteq> [] \<and> prVolumeId q \<noteq> [] \<and> prVolumeCapability q = Some c \<and>
     published_fs (AccessType c) = Some fs \<and> es = EvRefreshToken (Inr ()) # es' \<and>
     published cs (prNodeId q) (prVolumeId q) fs ctx es'))"
  by (rule sat_ControllerPublishVolume)

section \<open>ControllerUnpublishVolume\<close>

text \<open>
  \<open>released cs name vm env h es\<close>: the critical section after which the machine does not have the
  disk. The detach was accepted, right after the answer that the machine has it, and its task
  finished; or there is no such disk; or the machine was not among those of the disk.
\<close>

definition released :: "controller_server \<Rightarrow> string \<Rightarrow> vm \<Rightarrow> vcd_env \<Rightarrow> vcd_event list \<Rightarrow>
    vcd_event list \<Rightarrow> bool" where
  "released cs name vm env h es \<longleftrightarrow> detached name vm (Done (Inr ())) es \<or> absent cs name env h es \<or>
     (\<exists>d qs l vms. es = EvLock # qs @ [EvGetVms l (Inr vms), EvUnlock] \<and> list_all is_query qs \<and>
        fetched_unique name qs d \<and> vms_link d = Some l \<and> mHREF vm \<notin> set (map rHREF vms))"

lemma sat_DetachVolume_released:
  "sat (DetachVolume (DiskManager cs) vm name (ZoneMap (DiskManager cs))) env h
     (only_succeeds (\<lambda>r es _. released cs name vm env h es))"
  by (rule sat_mono [OF DetachVolume_story], rule only_succeedsI)
    (auto simp: released_def absent_def)

text \<open>What has happened when an unpublish is reported as done, after the token was renewed.\<close>

inductive unpublished :: "controller_server \<Rightarrow> vcd_env \<Rightarrow> vcd_event list \<Rightarrow> unpublish_request \<Rightarrow>
    vcd_event list \<Rightarrow> bool" for cs env h q where
  missing: "find_volume cs (upVolumeId q) env h = (Done (Inl e), qs) \<Longrightarrow> errors_Is_NotFound e \<Longrightarrow>
     list_all is_query qs \<Longrightarrow> unpublished cs env h q qs"
| unattached: "list_all is_query qs \<Longrightarrow> fetched_unique (upVolumeId q) qs d \<Longrightarrow> vms_link d = Some l \<Longrightarrow>
     unpublished cs env h q (qs @ [EvGetVms l (Inr [])])"
| detached: "list_all is_query qs \<Longrightarrow> upNodeId q \<noteq> [] \<Longrightarrow> is_rde_event x \<Longrightarrow>
     s = EvSearchVM (upNodeId q) (VAppName cs) (IsZoneEnabledCluster (DiskManager cs)) (Inr vm) \<Longrightarrow>
     released cs (upVolumeId q) vm env (h @ qs @ [s]) ds \<Longrightarrow> unpublished cs env h q (qs @ s # ds @ [x])"

lemma sat_detachFromNode:
  "sat (detachFromNode cs node name) env h (only_succeeds (\<lambda>r es _. \<exists>s vm ds x.
     s = EvSearchVM node (VAppName cs) (IsZoneEnabledCluster (DiskManager cs)) (Inr vm) \<and>
     es = s # ds @ [x] \<and> is_rde_event x \<and> released cs name vm env (h @ [s]) ds))"
  by (auto simp: detachFromNode_def wp Let_def split: sum.splits outcome.splits
      intro!: sat_mono [OF sat_DetachVolume_released])

text \<open>
  C24: ControllerUnpublishVolume, in every environment: when it answers success, the token was
  renewed, and there is no disk of that name, or no machine has it, or the node's machine was
  found and the disk is detached from it, newly or since before; without a volume ID, and
  without a node when a machine has the disk, the call is not answered with success.
\<close>

theorem ControllerUnpublishVolume_spec:
  "sat (ControllerUnpublishVolume cs req) env h (only_succeeds (\<lambda>r es _. \<exists>q es'.
     req = Some q \<and> upVolumeId q \<noteq> [] \<and> es = EvRefreshToken (Inr ()) # es' \<and>
     unpublished cs env (h @ [EvRefreshToken (Inr ())]) q es'))"
proof (cases req)
  case None
  then show ?thesis by (simp add: ControllerUnpublishVolume_def wp)
next
  case (Some q)
  show ?thesis
  proof (cases rule: lookup_cases [of "DiskManager cs" "upVolumeId q" "ZoneMap (DiskManager cs)"
        "ClusterOVDCIdentifier (VCDClient (DiskManager cs))" env "h @ [EvRefreshToken (Inr ())]"])
    case (panic s qs)
    show ?thesis by (simp add: Some panic(1) ControllerUnpublishVolume_def wp Let_def split: sum.split)
  next
    case (error e qs)
    show ?thesis
      by (auto simp: Some error(1) ControllerUnpublishVolume_def wp Let_def split: sum.split
          intro: missing [OF error(3) _ error(2)])
  next
    case (found d qs)
    let ?s = "\<lambda>vm. EvSearchVM (upNodeId q) (VAppName cs) (IsZoneEnabledCluster (DiskManager cs)) (Inr vm)"
    have asked: "unpublished cs env (h @ [EvRefreshToken (Inr ())]) q (qs @ EvGetVms l (Inr vms) # ?s vm # ds @ [x])"
      if "upNodeId q \<noteq> []" "is_rde_event x" "released cs (upVolumeId q) vm env
        (h @ EvRefreshToken (Inr ()) # qs @ [EvGetVms l (Inr vms), ?s vm]) ds" for l vms vm ds x
      using detached [of "qs @ [EvGetVms l (Inr vms)]" q x "?s vm" cs vm env "h @ [EvRefreshToken (Inr ())]" ds]
        that found(2) by simp
    show ?thesis
      by (auto simp: Some found(1) ControllerUnpublishVolume_def wp Let_def
          split: sum.split option.split outcome.splits
          intro!: sat_mono [OF sat_detachFromNode] unattached [OF found(2,3)] asked)
  qed
qed

section \<open>CreateVolume\<close>

text \<open>
  \<open>provided cs q shareable env h v d es\<close>: the critical section that gave the disk \<open>d\<close> of a new
  volume. Either the lookup found none of that name, a disk with exactly the parameters and the
  storage profile of the request was asked for in the data center \<open>v\<close>, and \<open>d\<close> is the disk that
  owns the finished task; or the unique disk of that name has the size, bus, profile and sharing
  of the request.
\<close>

definition provided :: "controller_server \<Rightarrow> create_volume_request \<Rightarrow> bool \<Rightarrow> vcd_env \<Rightarrow> vcd_event list \<Rightarrow>
    vdc \<Rightarrow> disk \<Rightarrow> vcd_event list \<Rightarrow> bool" where
  "provided cs q shareable env h v d es \<longleftrightarrow>
     (let profile = map_get (crParameters q) StorageProfileParameter;
          size = requestedSizeMb (crCapacityRange q) in
      (\<exists>qs e. errors_Is_NotFound e \<and> find_volume cs (crName q) env (h @ [EvLock]) = (Done (Inl e), qs) \<and>
         created v profile qs (request_for (crName q) size VCDBusTypeSCSI VCDBusSubTypeVirtualSCSI
           (ClusterID (DiskManager cs)) shareable) (Done (Inr d)) es) \<or>
      (\<exists>qs bs. es = EvLock # qs @ bs @ [EvUnlock] \<and> list_all no_write (qs @ bs) \<and>
         fetched_unique (crName q) qs d \<and>
         asked_for d size VCDBusTypeSCSI VCDBusSubTypeVirtualSCSI profile shareable))"

lemma sat_CreateDisk_provided:
  "sat (CreateDisk (DiskManager cs) (crName q) v (requestedSizeMb (crCapacityRange q)) VCDBusTypeSCSI
      VCDBusSubTypeVirtualSCSI (ClusterID (DiskManager cs))
      (map_get (crParameters q) StorageProfileParameter) shareable (ZoneMap (DiskManager cs))) env h
     (only_succeeds (\<lambda>r es d. provided cs q shareable env h v d es))"
  by (rule sat_mono [OF CreateDisk_story [unfolded newDiskParams_request]], rule only_succeedsI)
    (auto simp: provided_def Let_def)

lemma capabilities_return:
  "(\<exists>x. IsBlockVolume caps = ret x) \<or> (\<exists>s. IsBlockVolume caps = panic s)"
  "(\<exists>x. isDiskShareable caps = ret x) \<or> (\<exists>s. isDiskShareable caps = panic s)"
  by (induction caps) (auto split: option.splits)

lemma sat_volumeVDC:
  "sat (volumeVDC dm params) env h (\<lambda>r es. es = [] \<and> volumeVDC dm params env h = (r, []))"
  using emits_volumeVDC [of "\<lambda>_. False" dm params]
  by (auto simp: sat_iff emits_def list_all_iff prod_eq_iff)

text \<open>What has happened when a volume is provided, after the token was renewed.\<close>

definition provisioned :: "controller_server \<Rightarrow> create_volume_request \<Rightarrow> bool \<Rightarrow> bool \<Rightarrow> string \<Rightarrow>
    vcd_env \<Rightarrow> vcd_event list \<Rightarrow> volume \<Rightarrow> vcd_event list \<Rightarrow> bool" where
  "provisioned cs q isBlock shareable vdcIdentifier env h vol es \<longleftrightarrow> (\<exists>v d profile as x.
     es = EvGetVDC vdcIdentifier (Inr v) # as @ [x] \<and> is_rde_event x \<and>
     provided cs q shareable env (h @ [EvGetVDC vdcIdentifier (Inr v)]) v d as \<and>
     dStorageProfile d = Some profile \<and>
     vol = \<lparr>VolumeId = dName d, CapacityBytes = requestedSizeMb (crCapacityRange q) * MbToBytes,
       VolumeContext =
         [(BusTypeParameter, map_get BusTypesFromValues (dBusType d)),
          (BusSubTypeParameter, dBusSubType d), (StorageProfileParameter, rName profile),
          (DiskIDAttribute, dId d),
          (FileSystemParameter, case map_of (crParameters q) FileSystemParameter of
             Some fs \<Rightarrow> fs | None \<Rightarrow> if isBlock then [] else ''ext4'')]\<rparr>)"

lemma sat_provision:
  "sat (provision cs q isBlock shareable vdcIdentifier) env h
     (only_succeeds (\<lambda>r es vol. provisioned cs q isBlock shareable vdcIdentifier env h vol es))"
  unfolding provision_def
  by (auto simp: wp Let_def provisioned_def volumeAttributes_def split: option.splits sum.splits outcome.splits
      intro!: sat_mono [OF sat_CreateDisk_provided])

lemma sat_CreateVolume:
  "sat (CreateVolume cs req) env h (only_succeeds (\<lambda>r es vol. \<exists>q isBlock shareable vdc es'.
     req = Some q \<and> crName q \<noteq> [] \<and> crVolumeCapabilities q \<noteq> [] \<and>
     IsBlockVolume (crVolumeCapabilities q) = ok isBlock \<and>
     isDiskShareable (crVolumeCapabilities q) = ret shareable \<and>
     volumeVDC (DiskManager cs) (crParameters q) env (h @ [EvRefreshToken (Inr ())]) = (Done (Inr vdc), []) \<and>
     es = EvRefreshToken (Inr ()) # es' \<and>
     provisioned cs q isBlock shareable vdc env (h @ [EvRefreshToken (Inr ())]) vol es'))"
proof (cases req)
  case None
  then show ?thesis by (simp add: CreateVolume_def wp)
next
  case (Some q)
  from capabilities_return [of "crVolumeCapabilities q"] consider
      (shareable) isBlock b where "IsBlockVolume (crVolumeCapabilities q) = ok isBlock"
        "isDiskShareable (crVolumeCapabilities q) = ret b"
    | (error) e where "IsBlockVolume (crVolumeCapabilities q) = fail e"
    | (panic) s where "IsBlockVolume (crVolumeCapabilities q) = panic s"
    | (panic') isBlock s where "IsBlockVolume (crVolumeCapabilities q) = ok isBlock"
        "isDiskShareable (crVolumeCapabilities q) = panic s"
    by (metis old.sum.exhaust)
  then show ?thesis
  proof cases
    case shareable
    then show ?thesis
      by (auto simp: Some CreateVolume_def wp split: sum.splits outcome.splits
          intro!: sat_mono [OF sat_volumeVDC] sat_mono [OF sat_provision])
  qed (simp_all add: Some CreateVolume_def wp split: sum.splits)
qed

text \<open>
  The capacity that is answered: the request rounded up to megabytes, when it is positive and at
  most 2^53 bytes, and one gigabyte when there is none.
\<close>

definition covers_request :: "capacity_range option \<Rightarrow> int64 \<Rightarrow> bool" where
  "covers_request capacity answered \<longleftrightarrow>
     (let required = (case capacity of Some c \<Rightarrow> sint (RequiredBytes c) | None \<Rightarrow> 0) in
      (required = 0 \<longrightarrow> sint answered = 1073741824) \<and>
      (0 < required \<longrightarrow> required \<le> 2 ^ 53 \<longrightarrow> 1048576 dvd sint answered \<and>
         required \<le> sint answered \<and> sint answered < required + 1048576))"

lemma requested_covered: "covers_request capacity (requestedSizeMb capacity * MbToBytes)"
proof -
  have default: "sint (mb_ceil (DefaultDiskSizeInGb * GbToBytes) * MbToBytes) = 1073741824"
    using mb_ceil_covers [of "DefaultDiskSizeInGb * GbToBytes"] mb_ceil_default
    by (simp add: DefaultDiskSizeInGb_def GbToBytes_def)
  show ?thesis
  proof (cases "\<exists>c. capacity = Some c \<and> RequiredBytes c \<noteq> 0")
    case True
    then obtain c where c: "capacity = Some c" "RequiredBytes c \<noteq> 0" by blast
    moreover have "sint (RequiredBytes c) \<noteq> 0" using c(2) by (metis signed_0 signed_word_eqI)
    ultimately show ?thesis
      using mb_ceil_covers [of "RequiredBytes c"] by (auto simp: covers_request_def requestedSizeMb_def Let_def)
  next
    case False
    then show ?thesis
      using default by (auto simp: covers_request_def requestedSizeMb_def Let_def split: option.splits)
  qed
qed

lemma provisioned_covered:
  assumes "provisioned cs q isBlock shareable vdc env h vol es"
  shows "covers_request (crCapacityRange q) (CapacityBytes vol)"
proof -
  obtain d profile where "vol = \<lparr>VolumeId = dName d, CapacityBytes = requestedSizeMb (crCapacityRange q) * MbToBytes,
      VolumeContext = volumeAttributes (crParameters q) isBlock d profile\<rparr>"
    using assms unfolding provisioned_def volumeAttributes_def by blast
  then show ?thesis by (simp add: requested_covered)
qed

text \<open>
  C25: CreateVolume, in every environment: when it answers success, the token was renewed, the
  kind and the sharing of the volume are those of its capabilities, the data center is the one
  of the zone or of the cluster, and the disk is either new, asked for in that data center with
  exactly the requested parameters and the storage profile that the data center has under the
  requested name, or the unique one of that name, which has them; the answer has its name, its
  size, which is the request rounded up to megabytes, and as its context the disk's bus, profile and ID and the
  file system of the request (ext4 when it names none, or none for a block volume).
\<close>

theorem CreateVolume_spec:
  "sat (CreateVolume cs req) env h (only_succeeds (\<lambda>r es vol. \<exists>q isBlock shareable vdc es'.
     req = Some q \<and> crName q \<noteq> [] \<and> crVolumeCapabilities q \<noteq> [] \<and>
     IsBlockVolume (crVolumeCapabilities q) = ok isBlock \<and>
     isDiskShareable (crVolumeCapabilities q) = ret shareable \<and>
     volumeVDC (DiskManager cs) (crParameters q) env (h @ [EvRefreshToken (Inr ())]) = (Done (Inr vdc), []) \<and>
     es = EvRefreshToken (Inr ()) # es' \<and>
     provisioned cs q isBlock shareable vdc env (h @ [EvRefreshToken (Inr ())]) vol es' \<and>
     covers_request (crCapacityRange q) (CapacityBytes vol)))"
proof (rule sat_mono [OF sat_CreateVolume], rule only_succeedsI, goal_cases)
  case (1 r es vol)
  obtain q isBlock shareable vdc es' where call: "req = Some q" "crName q \<noteq> []" "crVolumeCapabilities q \<noteq> []"
      "IsBlockVolume (crVolumeCapabilities q) = ok isBlock" "isDiskShareable (crVolumeCapabilities q) = ret shareable"
      "volumeVDC (DiskManager cs) (crParameters q) env (h @ [EvRefreshToken (Inr ())]) = (Done (Inr vdc), [])"
      "es = EvRefreshToken (Inr ()) # es'"
      and vol: "provisioned cs q isBlock shareable vdc env (h @ [EvRefreshToken (Inr ())]) vol es'"
    using 1(1) unfolding 1(2) outcome.case sum.case by (elim exE conjE) (rule that)
  show ?case
    using call vol provisioned_covered [OF vol] by (intro exI conjI)
qed

section \<open>ControllerExpandVolume\<close>

text \<open>
  The one write of an expansion, if there is one: offline, an update of the disk's size, with
  its name, description and owner kept, right after the answer that no machine has the disk;
  online, an update of the disk settings of the one machine that has it.
\<close>

inductive expanded :: "controller_server \<Rightarrow> disk \<Rightarrow> int64 \<Rightarrow> bool \<Rightarrow> vcd_event list \<Rightarrow> bool"
  for cs d size where
  same: "dSizeMb d = size \<Longrightarrow> expanded cs d size False []"
| offline: "sint (dSizeMb d) < sint size \<Longrightarrow> vms_link d = Some l \<Longrightarrow>
     List.find (\<lambda>l. lRel l = RelEdit \<and> lType l = MimeDisk) (dLink d) = Some l' \<Longrightarrow>
     expanded cs d size False [EvGetVms l (Inr []), EvGetVms l (Inr []),
       EvPutDisk l' \<lparr>uXmlns = XMLNamespaceVCloud, uDescription = dDescription d, uSizeMb = size,
         uName = dName d, uOwner = dOwner d\<rparr> (Inr t), EvWaitTask t (Inr t')]"
| online: "sint (dSizeMb d) < sint size \<Longrightarrow> vms_link d = Some l \<Longrightarrow>
     mVmSpecSection vm = Some (Some settings) \<Longrightarrow>
     resizeSetting (dId d) size settings = Some settings' \<Longrightarrow>
     expanded cs d size True [EvGetVms l (Inr [ref]),
       EvSearchVM (rName ref) (VAppName cs) (IsZoneEnabledCluster (DiskManager cs)) (Inr vm),
       EvUpdateDisks vm settings' (Inr ())]"

lemma expanded_strict:
  "\<not> sint sz < sint (dSizeMb d) \<Longrightarrow> dSizeMb d \<noteq> sz \<Longrightarrow> sint (dSizeMb d) < sint sz"
  by (metis linorder_less_linear signed_word_eqI)

definition expands :: "controller_server \<Rightarrow> disk \<Rightarrow> int64 \<Rightarrow>
    expand_response res outcome \<Rightarrow> vcd_event list \<Rightarrow> bool" where
  "expands cs d sz r es \<longleftrightarrow> (\<forall>x. r = Done (Inr x) \<longrightarrow>
     expanded cs d sz (NodeExpansionRequired x) es \<and> ExpandedBytes x = sz * MbToBytes)"

lemma expands_simps [simp]:
  "expands cs d sz (Done (Inl e)) es" "expands cs d sz (Panic s) es"
  "expands cs d sz (Done (Inr x)) es \<longleftrightarrow>
     expanded cs d sz (NodeExpansionRequired x) es \<and> ExpandedBytes x = sz * MbToBytes"
  by (simp_all add: expands_def)

lemma sat_expandOffline:
  assumes "vms_link d = Some l" and "\<not> sint sz < sint (dSizeMb d)" and "dSizeMb d \<noteq> sz"
  shows "sat (expandOffline dm d vms sz) env h (\<lambda>r es. expands cs d sz r (EvGetVms l (Inr vms) # es))"
  unfolding expandOffline_def UpdateDisk_def using expanded_strict [OF assms(2,3)]
  by (auto simp: wp vcd_calls assms(1) split: sum.splits option.splits intro!: offline assms(1))

lemma sat_expandOnline:
  assumes "vms_link d = Some l" and "\<not> sint sz < sint (dSizeMb d)" and "dSizeMb d \<noteq> sz"
  shows "sat (expandOnline cs d vms sz) env h (\<lambda>r es. expands cs d sz r (EvGetVms l (Inr vms) # es))"
  unfolding expandOnline_def using expanded_strict [OF assms(2,3)]
  by (auto simp: wp vcd_calls Let_def split: sum.splits option.splits list.splits intro!: online assms(1))

lemma sat_expandDisk:
  "sat (expandDisk cs capacity c mode d) env h (expands cs d (expandedSizeMb capacity))"
  unfolding expandDisk_def Let_def
  by (auto simp: wp same split: sum.splits option.splits expansion.splits
      intro!: sat_expandOffline sat_expandOnline)

text \<open>The lookup of the disk, and its expansion.\<close>

definition found_expanded :: "controller_server \<Rightarrow> string \<Rightarrow> int64 \<Rightarrow> bool \<Rightarrow> vcd_event list \<Rightarrow> bool" where
  "found_expanded cs name sz online es \<longleftrightarrow> (\<exists>d qs es'. es = qs @ es' \<and> list_all is_query qs \<and>
     fetched_unique name qs d \<and> expanded cs d sz online es')"

lemma found_expandedI:
  "list_all is_query qs \<Longrightarrow> fetched_unique name qs d \<Longrightarrow> expanded cs d sz online es \<Longrightarrow>
   found_expanded cs name sz online (qs @ es)"
  unfolding found_expanded_def by blast

lemma sat_ControllerExpandVolume:
  "sat (ControllerExpandVolume cs req) env h (only_succeeds (\<lambda>r es x. \<exists>q capacity es'.
     req = Some q \<and> exVolumeId q \<noteq> [] \<and> exCapacityRange q = Some capacity \<and>
     \<not> (0 < sint (LimitBytes capacity) \<and> sint (LimitBytes capacity) < sint (RequiredBytes capacity)) \<and>
     es = EvRefreshToken (Inr ()) # es' \<and>
     found_expanded cs (exVolumeId q) (expandedSizeMb capacity) (NodeExpansionRequired x) es' \<and>
     ExpandedBytes x = expandedSizeMb capacity * MbToBytes))"
proof (cases req)
  case None
  then show ?thesis by (simp add: ControllerExpandVolume_def wp)
next
  case (Some q)
  show ?thesis
  proof (cases rule: lookup_cases [of "DiskManager cs" "exVolumeId q" "ZoneMap (DiskManager cs)"
        "ClusterOVDCIdentifier (VCDClient (DiskManager cs))" env "h @ [EvRefreshToken (Inr ())]"])
    case (panic s qs)
    show ?thesis
      by (auto simp: Some panic(1) ControllerExpandVolume_def wp Let_def split: sum.split option.split)
  next
    case (error e qs)
    show ?thesis
      by (auto simp: Some error(1) ControllerExpandVolume_def wp Let_def split: sum.split option.split)
  next
    case (found d qs)
    show ?thesis
      by (auto simp: Some found(1) ControllerExpandVolume_def wp Let_def
          split: sum.split option.split outcome.split
          intro!: sat_mono [OF sat_expandDisk] found_expandedI [OF found(2,3)])
  qed
qed

text \<open>
  C27: ControllerExpandVolume, in every environment: when it answers success, the token was
  renewed and the unique disk of that name was found. The new size is the number n of whole
  megabytes in the required bytes, truncated; the disk was not larger than that; the only write
  is a resize to it, offline right after the answer that no machine has the disk, online on the
  one machine that has it, and there is none when the size is the same; the answer is that size
  in bytes, and the node has to act exactly when it was online. So the required bytes, which
  the code says are a minimum, are covered exactly when they are a whole number of megabytes
  (or not positive): otherwise the success is reported for up to a megabyte less.
\<close>

theorem ControllerExpandVolume_spec:
  "sat (ControllerExpandVolume cs req) env h (only_succeeds (\<lambda>r es x. \<exists>q capacity required n es'.
     req = Some q \<and> exVolumeId q \<noteq> [] \<and> exCapacityRange q = Some capacity \<and>
     required = sint (RequiredBytes capacity) \<and>
     \<not> (0 < sint (LimitBytes capacity) \<and> sint (LimitBytes capacity) < required) \<and>
     n = sgn required * (\<bar>required\<bar> div 1048576) \<and>
     es = EvRefreshToken (Inr ()) # es' \<and>
     found_expanded cs (exVolumeId q) (i64 n) (NodeExpansionRequired x) es' \<and>
     sint (ExpandedBytes x) = n * 1048576 \<and>
     (required \<le> sint (ExpandedBytes x) \<longleftrightarrow> required \<le> 0 \<or> 1048576 dvd required)))"
proof (rule sat_mono [OF sat_ControllerExpandVolume], rule only_succeedsI, goal_cases)
  case (1 r es x)
  then obtain q capacity es' where call: "req = Some q" "exVolumeId q \<noteq> []" "exCapacityRange q = Some capacity"
      "\<not> (0 < sint (LimitBytes capacity) \<and> sint (LimitBytes capacity) < sint (RequiredBytes capacity))"
      "es = EvRefreshToken (Inr ()) # es'"
      and found: "found_expanded cs (exVolumeId q) (expandedSizeMb capacity) (NodeExpansionRequired x) es'"
      and bytes: "ExpandedBytes x = expandedSizeMb capacity * MbToBytes"
    unfolding 1(2) outcome.case sum.case by blast
  note n = expandedSizeMb_whole [of capacity]
  show ?case
    unfolding 1(2) outcome.case sum.case using call found [unfolded n(1)]
      n(3) [folded bytes] whole_megabytes(4) [OF conjunct1 [OF sint_range] conjunct2 [OF sint_range]]
    by (intro exI conjI) (assumption | rule refl | simp)+
qed

section \<open>An example\<close>

text \<open>
  A server with one disk that keeps track of its machine, two nodes, and two publish requests
  for the disk: the first attaches it, the second is refused.
\<close>

definition done_task :: task where "done_task = \<lparr>tHREF = ''task1'', tOwner = None\<rparr>"

definition live_env :: vcd_env where
  "live_env = (one_disk_env [])\<lparr>
     q_getVms := (\<lambda>h _. Inr (if list_ex is_attach h then [ref_vm1] else [])),
     q_searchVM := (\<lambda>_ n _ _. Inr (if n = ''node1'' then vm1 else vm1\<lparr>mHREF := ''vm2'', mName := ''node2''\<rparr>)),
     q_attach := (\<lambda>_ _ _. Inr done_task), q_waitTask := (\<lambda>_ _. Inr done_task)\<rparr>"

definition cs0 :: controller_server where
  "cs0 = \<lparr>Driver = fst (NewDriver ''1.6'' ''node0'' ''unix:///csi.sock''), DiskManager = dm0, VAppName = ''vapp''\<rparr>"

definition publish0 :: "string \<Rightarrow> controller_call" where
  "publish0 node = CallPublish (Some \<lparr>prNodeId = node, prVolumeId = ''pvc1'', prVolumeCapability =
     Some \<lparr>AccessMode = Some SINGLE_NODE_WRITER, AccessType = MountAccess ''ext4'' []\<rparr>\<rparr>)"

lemma live_lookup:
  "sat (GetDiskByNameOrId dm0 ''pvc1'' None ''ovdc'') live_env h Q =
     Q (Done (Inr disk0)) [EvGetVDC ''ovdc'' (Inr vdc0), EvGetDisk ''href1'' (Inr disk0)]"
proof -
  have "\<not> isUrn ''pvc1''" "\<not> IsUuid ''pvc1''" by code_simp+
  then show ?thesis
    by (simp add: GetDiskByNameOrId_def searchClusterVDC_def govcdGetDisksByNameOrId_def
        getEntityByNameOrIdSkipNonId_def disks_getter_def govcdGetDisksByName_def
        wp live_env_def one_disk_env_def vdc0_def dm0_def)
qed

lemma live_env_simps:
  "q_refreshToken live_env h = Inr ()"
  "q_getVms live_env h l = Inr (if list_ex is_attach h then [ref_vm1] else [])"
  "q_searchVM live_env h n a z =
     Inr (if n = ''node1'' then vm1 else vm1\<lparr>mHREF := ''vm2'', mName := ''node2''\<rparr>)"
  "q_attach live_env h m x = Inr done_task" "q_waitTask live_env h t = Inr done_task"
  "q_getDisk live_env h i = Inr disk0" "q_rde live_env h = Inr ()"
  by (simp_all add: live_env_def one_disk_env_def down_env_def Let_def)

lemma dm0_simps:
  "ClusterOVDCIdentifier (VCDClient dm0) = ''ovdc''" "ClusterID dm0 = []" "ZoneMap dm0 = None"
  "IsZoneEnabledCluster dm0 = False" "DiskManager cs0 = dm0" "VAppName cs0 = ''vapp''"
  "dHREF disk0 = ''href1''"
  by (simp_all add: dm0_def cs0_def disk0_def)

abbreviation vms0 :: link where
  "vms0 \<equiv> \<lparr>lHREF = ''vms1'', lID = [], lType = MimeVMs, lName = [], lRel = ''down''\<rparr>"

lemma live_attach:
  "sat (AttachVolume dm0 vm (Some disk0)) live_env h Q =
     (if list_ex is_attach h then
        Q (Done (if mHREF vm = ''vm1'' then Inr disk0 else Inl (Errorf
            ''cannot attach disk since disk is not shareable and VMs are attached'' [])))
          [EvLock, EvGetVms vms0 (Inr [ref_vm1]), EvUnlock]
      else Q (Done (Inr disk0)) [EvLock, EvGetVms vms0 (Inr []), EvAttach vm ''href1'' (Inr done_task),
        EvWaitTask done_task (Inr done_task), EvGetDisk ''href1'' (Inr disk0),
        EvAddEvent [] DiskAttachEvent [] ''pvc1''
          [(''Detailed Info'', DText ''Successfully attached volume to node'')] (Inr ()), EvUnlock])"
proof -
  have "\<not> dShareable disk0" "dName disk0 = ''pvc1''" by (simp_all add: disk0_def zero_disk_def)
  then show ?thesis
    by (simp add: AttachVolume_def govcdRefresh_def wp vcd_calls live_env_simps dm0_simps
        vms_link_disk0 ref_vm1_def)
qed

text \<open>The events up to the attach, those after it, and those of the second call.\<close>

definition live_before :: "vcd_event list" where
  "live_before = [EvRefreshToken (Inr ()), EvSearchVM ''node1'' ''vapp'' False (Inr vm1),
     EvGetVDC ''ovdc'' (Inr vdc0), EvGetDisk ''href1'' (Inr disk0),
     EvRemoveError [] DiskQueryError [] ''pvc1'' (Inr ()), EvLock, EvGetVms vms0 (Inr [])]"

definition live_after :: "vcd_event list" where
  "live_after = [EvWaitTask done_task (Inr done_task), EvGetDisk ''href1'' (Inr disk0),
     EvAddEvent [] DiskAttachEvent [] ''pvc1''
       [(''Detailed Info'', DText ''Successfully attached volume to node'')] (Inr ()), EvUnlock,
     EvRemoveError [] DiskAttachError [] ''pvc1'' (Inr ())]"

lemma live_first:
  "sat (controller_step cs0 (publish0 ''node1'')) live_env [] Q =
     Q (Done ()) (live_before @ EvAttach vm1 ''href1'' (Inr done_task) # live_after)"
  by (simp add: publish0_def ControllerPublishVolume_def attachToNode_def live_before_def live_after_def
      wp live_lookup live_attach live_env_simps dm0_simps Let_def)

definition live_refused :: "vcd_event list" where
  "live_refused = [EvRefreshToken (Inr ()),
     EvSearchVM ''node2'' ''vapp'' False (Inr (vm1\<lparr>mHREF := ''vm2'', mName := ''node2''\<rparr>)),
     EvGetVDC ''ovdc'' (Inr vdc0), EvGetDisk ''href1'' (Inr disk0),
     EvRemoveError [] DiskQueryError [] ''pvc1'' (Inr ()), EvLock, EvGetVms vms0 (Inr [ref_vm1]), EvUnlock,
     EvAddError [] DiskAttachError [] ''pvc1'' [(''Detailed Error'', DText (error_text (Errorf
         ''cannot attach disk since disk is not shareable and VMs are attached'' []))),
       (''VM Info'', DText ''node2'')] (Inr ())]"

lemma live_second:
  "list_ex is_attach h \<Longrightarrow> sat (controller_step cs0 (publish0 ''node2'')) live_env h Q =
     Q (Done ()) live_refused"
  by (simp add: publish0_def ControllerPublishVolume_def attachToNode_def live_refused_def
      wp live_lookup live_attach live_env_simps dm0_simps Let_def)

lemma live_run:
  "serve cs0 [publish0 ''node1'', publish0 ''node2''] live_env [] = (Done (),
     live_before @ EvAttach vm1 ''href1'' (Inr done_task) # live_after @ live_refused)"
  by (rule sat_exact) (simp add: wp live_first live_second)

text \<open>
  An expansion that falls short: the disk of 1024 megabytes is asked to have one byte more, and
  the answer is success, with the size that it has.
\<close>

definition short_request :: expand_request where
  "short_request = \<lparr>exVolumeId = ''pvc1'', exCapacityRange = Some \<lparr>RequiredBytes = 1073741825, LimitBytes = 0\<rparr>,
     exVolumeCapability = Some \<lparr>AccessMode = Some SINGLE_NODE_WRITER, AccessType = MountAccess ''ext4'' []\<rparr>\<rparr>"

lemma expand_falls_short:
  "ControllerExpandVolume cs0 (Some short_request) live_env [] =
     (Done (Inr \<lparr>ExpandedBytes = 1073741824, NodeExpansionRequired = False\<rparr>),
      [EvRefreshToken (Inr ()), EvGetVDC ''ovdc'' (Inr vdc0), EvGetDisk ''href1'' (Inr disk0)]) \<and>
   sint (1073741824 :: int64) < sint (RequiredBytes \<lparr>RequiredBytes = 1073741825, LimitBytes = 0\<rparr>)"
proof -
  have "expandedSizeMb \<lparr>RequiredBytes = 1073741825, LimitBytes = 0\<rparr> = 1024"
    by (simp add: expandedSizeMb_whole(1) i64_def)
  then have "ControllerExpandVolume cs0 (Some short_request) live_env [] =
     (Done (Inr \<lparr>ExpandedBytes = 1073741824, NodeExpansionRequired = False\<rparr>),
      [EvRefreshToken (Inr ()), EvGetVDC ''ovdc'' (Inr vdc0), EvGetDisk ''href1'' (Inr disk0)])"
    by (intro sat_exact) (simp add: ControllerExpandVolume_def short_request_def expandDisk_def wp
        live_lookup live_env_simps dm0_simps Let_def disk0_def MbToBytes_def)
  then show ?thesis by simp
qed

section \<open>Sequences of calls\<close>

text \<open>
  C4: over any sequence of controller calls, in every environment: every request that changes
  disks or machines is made while the last renewal of the token succeeded; requests that
  create, delete, attach or detach are made under the lock; and each is preceded by the check
  it needs, on a disk that was read from the server earlier in the history: a delete or an
  update by the answer that no machine has that disk, an attach by an answer without the machine
  (and without any, unless the disk as it was read is shareable), a detach by an answer with it.
\<close>

theorem serve_safe:
  assumes "\<not> held h" and "serve cs calls env h = (r, xs @ e # ys)" and "is_storage_write e"
  shows "authorised (h @ xs) \<and> lock_guard (h @ xs) e \<and> write_guard (h @ xs) e"
  using safe_operation.safe_write [OF safe_serve assms(1,2)] assms(3) by simp

theorem serve_safe_witness:
  "authorised live_before \<and> lock_guard live_before (EvAttach vm1 ''href1'' (Inr done_task)) \<and>
   write_guard live_before (EvAttach vm1 ''href1'' (Inr done_task))"
  using serve_safe [OF _ live_run] by simp

end
