(* ===== verification/Concurrency.thy ===== *)
theory Concurrency
  imports DiskOps "HOL-Library.Sublist"
begin

text \<open>
  Calls that run at the same time. The gRPC server starts a goroutine for each request, and
  all of them use one DiskManager and the one lock of its client. A thread is the list of
  events that its call makes in its own environment; an execution is a log of events with the
  thread of each, in which every thread goes through its events in order and waits at a lock
  that another thread holds. Since the environment of each thread is arbitrary, its answers
  may depend on what the other threads have done in any way.
\<close>

section \<open>Logs\<close>

type_synonym 'ev log = "(nat \<times> 'ev) list"

definition of_thread :: "nat \<Rightarrow> 'ev log \<Rightarrow> 'ev list" where
  "of_thread i L = map snd (filter (\<lambda>x. fst x = i) L)"

abbreviation history :: "'ev log \<Rightarrow> 'ev list" where
  "history L \<equiv> map snd L"

lemma of_thread_simps [simp]:
  "of_thread i [] = []" "of_thread i (L @ K) = of_thread i L @ of_thread i K"
  "of_thread i ((j, e) # L) = (if j = i then e # of_thread i L else of_thread i L)"
  by (simp_all add: of_thread_def)

lemma of_thread_set: "e \<in> set (of_thread i L) \<Longrightarrow> e \<in> set (history L)"
  by (auto simp: of_thread_def)

lemma of_thread_self [simp]: "of_thread i (map (Pair i) es) = es"
  by (induction es) auto

lemma of_thread_other [simp]: "i \<noteq> j \<Longrightarrow> of_thread i (map (Pair j) es) = []"
  by (induction es) auto

lemma history_pairs [simp]: "map (snd \<circ> Pair i) es = es"
  by (induction es) auto

text \<open>An event of a thread, found in the log.\<close>

lemma of_thread_split:
  "of_thread i L = a @ e # b \<Longrightarrow> \<exists>K M. L = K @ (i, e) # M \<and> of_thread i K = a \<and> of_thread i M = b"
proof (induction L arbitrary: a)
  case (Cons x L)
  obtain j f where x: "x = (j, f)" by fastforce
  show ?case
  proof (cases "j = i \<and> a = []")
    case True
    then have "x # L = [] @ (i, e) # L \<and> of_thread i [] = a \<and> of_thread i L = b"
      using Cons.prems by (simp add: x)
    then show ?thesis by blast
  next
    case False
    define a' where "a' = (if j = i then tl a else a)"
    have "of_thread i L = a' @ e # b"
      using Cons.prems False by (cases a) (auto simp: x a'_def split: if_splits)
    then obtain K M where L: "L = K @ (i, e) # M" "of_thread i K = a'" "of_thread i M = b"
      using Cons.IH by blast
    then have "x # L = (x # K) @ (i, e) # M \<and> of_thread i (x # K) = a \<and> of_thread i M = b"
      using Cons.prems False by (cases a) (auto simp: x a'_def split: if_splits)
    then show ?thesis by blast
  qed
qed simp

text \<open>What holds along each thread holds at its events in the log.\<close>

lemma guard_in_log:
  assumes "guard_ok G [] (runs i)" and "prefix (of_thread i (L @ (i, e) # K)) (runs i)"
  shows "G (of_thread i L) e"
proof -
  obtain zs where "runs i = of_thread i L @ e # zs"
    using assms(2) by (auto simp: prefix_def)
  then show ?thesis using assms(1) by simp
qed

section \<open>Executions\<close>

text \<open>The thread that holds the lock.\<close>

definition holder :: "vcd_event log \<Rightarrow> nat option" where
  "holder L = foldl (\<lambda>t (i, e). case e of EvLock \<Rightarrow> Some i | EvUnlock \<Rightarrow> None | _ \<Rightarrow> t) None L"

lemma holder_simps [simp]:
  "holder [] = None" "holder (L @ [(i, EvLock)]) = Some i" "holder (L @ [(i, EvUnlock)]) = None"
  by (simp_all add: holder_def)

lemma holder_other: "\<not> is_lock_event e \<Longrightarrow> holder (L @ [(i, e)]) = holder L"
  by (cases e) (simp_all add: holder_def)

lemma held_other: "\<not> is_lock_event e \<Longrightarrow> held (es @ [e]) = held es"
  using held_append [of "[e]"] by simp

text \<open>
  \<open>interleaved runs L\<close>: the log \<open>L\<close> is an execution of the threads \<open>runs\<close>, up to some point.
  \<open>RWLock.Lock()\<close> returns when no thread holds the lock.
\<close>

inductive interleaved :: "(nat \<Rightarrow> vcd_event list) \<Rightarrow> vcd_event log \<Rightarrow> bool" for runs where
  nothing: "interleaved runs []"
| next_event: "interleaved runs L \<Longrightarrow> prefix (of_thread i L @ [e]) (runs i) \<Longrightarrow>
     (e = EvLock \<Longrightarrow> holder L = None) \<Longrightarrow> interleaved runs (L @ [(i, e)])"

inductive_cases interleaved_snocE: "interleaved runs (L @ [x])"

lemma interleaved_prefix: "interleaved runs (L @ K) \<Longrightarrow> interleaved runs L"
proof (induction K rule: rev_induct)
  case (snoc x K)
  then have "interleaved runs ((L @ K) @ [x])" by simp
  then show ?case by (rule interleaved_snocE) (simp add: snoc.IH)
qed simp

lemma interleaved_thread: "interleaved runs L \<Longrightarrow> prefix (of_thread i L) (runs i)"
  by (induction rule: interleaved.induct) auto

lemma interleaved_step:
  assumes "interleaved runs (L @ (i, e) # K)"
  shows "interleaved runs L" and "e = EvLock \<Longrightarrow> holder L = None"
    and "guard_ok G [] (runs i) \<Longrightarrow> G (of_thread i L) e"
proof -
  have *: "interleaved runs (L @ [(i, e)])"
    using interleaved_prefix [of runs "L @ [(i, e)]" K] assms by simp
  then show "interleaved runs L" "e = EvLock \<Longrightarrow> holder L = None"
    by (auto elim: interleaved_snocE)
  show "G (of_thread i L) e" if "guard_ok G [] (runs i)"
    using guard_in_log [of G runs i L e "[]"] that interleaved_thread [OF *, of i] by simp
qed

text \<open>Whether a log goes on with the given events, for concrete logs.\<close>

fun goes_on :: "(nat \<Rightarrow> vcd_event list) \<Rightarrow> vcd_event log \<Rightarrow> vcd_event log \<Rightarrow> bool" where
  "goes_on runs L [] \<longleftrightarrow> True"
| "goes_on runs L ((i, e) # K) \<longleftrightarrow> prefix (of_thread i L @ [e]) (runs i) \<and> (e = EvLock \<longrightarrow> holder L = None) \<and>
     goes_on runs (L @ [(i, e)]) K"

lemma interleaved_goes_on: "interleaved runs L \<Longrightarrow> goes_on runs L K \<Longrightarrow> interleaved runs (L @ K)"
  by (induction runs L K rule: goes_on.induct) (auto intro: next_event)

text \<open>An execution of finitely many threads is at most as long as they are together.\<close>

lemma length_threads:
  "(\<And>x. x \<in> set L \<Longrightarrow> fst x < n) \<Longrightarrow> (\<Sum>i<n. length (of_thread i L)) = length L"
proof (induction L)
  case (Cons x L)
  obtain j e where x: "x = (j, e)" by fastforce
  then have "j < n" using Cons.prems [of x] by simp
  have "(\<Sum>i<n. length (of_thread i (x # L))) = (\<Sum>i<n. (if i = j then 1 else 0) + length (of_thread i L))"
    by (rule sum.cong) (auto simp: x)
  then show ?case
    using Cons \<open>j < n\<close> by (simp add: sum.distrib sum.delta)
qed simp

lemma log_length:
  assumes "interleaved runs L" and "\<And>i. n \<le> i \<Longrightarrow> runs i = []"
  shows "length L \<le> (\<Sum>i<n. length (runs i))"
proof -
  have "fst x < n" if "x \<in> set L" for x
  proof (rule ccontr)
    assume "\<not> fst x < n"
    then have "of_thread (fst x) L = []"
      using interleaved_thread [OF assms(1), of "fst x"] assms(2) [of "fst x"] by simp
    then show False using that by (auto simp: of_thread_def filter_empty_conv)
  qed
  then have "length L = (\<Sum>i<n. length (of_thread i L))"
    using length_threads [of L n] by simp
  also have "\<dots> \<le> (\<Sum>i<n. length (runs i))"
    by (rule sum_mono) (simp add: prefix_length_le interleaved_thread [OF assms(1)])
  finally show ?thesis .
qed

section \<open>Mutual exclusion\<close>

text \<open>The requests that \<open>lock_guard\<close> wants under the lock.\<close>

fun needs_lock :: "vcd_event \<Rightarrow> bool" where
  "needs_lock (EvPostDisk _ _ _) = True"
| "needs_lock (EvDeleteDisk _ _) = True"
| "needs_lock (EvAttach _ _ _) = True"
| "needs_lock (EvDetach _ _ _) = True"
| "needs_lock _ = False"

text \<open>
  The contract of threads that share the lock: each takes it when it does not hold it, makes
  its guarded requests and releases it only while it holds it, and ends without it.
\<close>

locale lock_users =
  fixes runs :: "nat \<Rightarrow> vcd_event list"
  assumes locking: "guard_ok lock_guard [] (runs i)"
    and released: "\<not> held (runs i)"
begin

lemma holder_held: "interleaved runs L \<Longrightarrow> holder L = Some i \<longleftrightarrow> held (of_thread i L)"
proof (induction arbitrary: i rule: interleaved.induct)
  case nothing
  show ?case by simp
next
  case (next_event L j e)
  have guard: "lock_guard (of_thread j L) e"
    using guard_in_log [of lock_guard runs j L e "[]"] locking next_event.hyps(2) by simp
  show ?case
  proof (cases e)
    case EvLock
    then show ?thesis using next_event.hyps(3) next_event.IH [of i] by auto
  next
    case EvUnlock
    then have "holder L = Some j" using guard next_event.IH [of j] by simp
    then show ?thesis using EvUnlock next_event.IH [of i] by auto
  qed (use next_event.IH [of i] in \<open>simp_all add: holder_other held_other\<close>)
qed

lemma exclusion:
  "interleaved runs L \<Longrightarrow> held (of_thread i L) \<Longrightarrow> held (of_thread j L) \<Longrightarrow> i = j"
  using holder_held by (metis option.inject)

text \<open>A request that needs the lock is made by the thread that holds it.\<close>

lemma guarded_by_holder:
  assumes "interleaved runs (L @ (i, e) # K)" and "needs_lock e"
  shows "holder L = Some i"
  using interleaved_step(3) [OF assms(1), of lock_guard] locking assms(2)
    holder_held [OF interleaved_step(1) [OF assms(1)]] by (cases e) simp_all

text \<open>No execution is stuck: while some thread has events left, some thread can make its next.\<close>

lemma can_go_on:
  assumes "interleaved runs L" and "of_thread i L \<noteq> runs i"
  shows "\<exists>j e. interleaved runs (L @ [(j, e)])"
proof -
  have left: "\<exists>e. prefix (of_thread j L @ [e]) (runs j)" if "of_thread j L \<noteq> runs j" for j
  proof -
    obtain zs where zs: "runs j = of_thread j L @ zs"
      using interleaved_thread [OF assms(1)] by (auto simp: prefix_def)
    then show ?thesis using that by (cases zs) auto
  qed
  show ?thesis
  proof (cases "holder L")
    case None
    then show ?thesis using left [OF assms(2)] next_event [OF assms(1)] by metis
  next
    case (Some j)
    then have "held (of_thread j L)" using holder_held [OF assms(1)] by simp
    moreover from this obtain e where e: "prefix (of_thread j L @ [e]) (runs j)"
      using left [of j] released [of j] by fastforce
    ultimately have "e \<noteq> EvLock"
      using guard_in_log [of lock_guard runs j L e "[]"] locking by auto
    then show ?thesis using next_event [OF assms(1) e] by blast
  qed
qed

lemma all_return:
  assumes "interleaved runs L" and "\<And>i. n \<le> i \<Longrightarrow> runs i = []"
  shows "\<exists>K. interleaved runs (L @ K) \<and> (\<forall>i. of_thread i (L @ K) = runs i)"
  using assms(1)
proof (induction "(\<Sum>i<n. length (runs i)) - length L" arbitrary: L rule: less_induct)
  case less
  show ?case
  proof (cases "\<forall>i. of_thread i L = runs i")
    case True
    then show ?thesis using less.prems by (intro exI [of _ "[]"]) simp
  next
    case False
    then obtain j e where step: "interleaved runs (L @ [(j, e)])"
      using can_go_on [OF less.prems] by blast
    have "length (L @ [(j, e)]) \<le> (\<Sum>i<n. length (runs i))"
      by (rule log_length [OF step assms(2)])
    then obtain K where "interleaved runs ((L @ [(j, e)]) @ K)" "\<forall>i. of_thread i ((L @ [(j, e)]) @ K) = runs i"
      using less.hyps [OF _ step] by fastforce
    then show ?thesis by (intro exI [of _ "(j, e) # K"]) simp
  qed
qed

end

end
