(* ===== verification/ConcurrentRde.thy ===== *)
theory ConcurrentRde
  imports ControllerSpec Concurrency
begin

text \<open>
  The list of volumes in the cluster's entity, when several driver processes and other
  clients of the server update the entity at the same time. There is no lock between
  processes: an update is accepted only when its etag is the current one. The result is that
  no update is lost: each accepted write of a driver is one addition or one removal on the
  list as it is at that moment.
\<close>

section \<open>The writes of the handlers\<close>

definition pv_rel :: "defined_entity \<Rightarrow> defined_entity \<Rightarrow> bool" where
  "pv_rel ent e \<longleftrightarrow> (\<exists>ident name. add_rel ident name ent e) \<or> (\<exists>ident. remove_rel ident ent e)"

abbreviation pv_guard :: "vcd_event list \<Rightarrow> vcd_event \<Rightarrow> bool" where
  "pv_guard \<equiv> cas_guard pv_rel"

lemma pv_guard_free [simp]: "\<not> is_put e \<Longrightarrow> pv_guard pre e"
  by (rule read_guard_other)

lemma pv_guard_emits: "emits (\<lambda>e. \<not> is_put e) m \<Longrightarrow> keeps pv_guard m"
  by (erule keeps_emits) simp

lemma keeps_section:
  "(\<And>pre. G pre EvLock) \<Longrightarrow> (\<And>pre. G pre EvUnlock) \<Longrightarrow> keeps G m \<Longrightarrow> keeps G (with_lock m)"
  unfolding keeps_def by (auto simp: wp intro: sat_mono)

lemma pv_updates:
  "keeps pv_guard (addPvToRDE dm i n)" "keeps pv_guard (removePvFromRDE dm i n)"
proof -
  have "cas_guard (add_rel i n) pre e \<Longrightarrow> pv_guard pre e" "cas_guard (remove_rel i) pre e \<Longrightarrow> pv_guard pre e"
    for pre e
    using read_guard_mono [of "\<lambda>_ _. add_rel i n" "\<lambda>_ _. pv_rel" pre "[e]"]
      read_guard_mono [of "\<lambda>_ _. remove_rel i" "\<lambda>_ _. pv_rel" pre "[e]"]
    by (auto simp: pv_rel_def)
  then have *: "guard_ok (cas_guard (add_rel i n)) h es \<Longrightarrow> guard_ok pv_guard h es"
    "guard_ok (cas_guard (remove_rel i)) h es \<Longrightarrow> guard_ok pv_guard h es" for h es
    by (auto simp: guard_ok_split)
  show "keeps pv_guard (addPvToRDE dm i n)"
    unfolding keeps_def addPvToRDE_def
    by (intro allI, rule sat_mono [OF add_loop.loop], rule *(1), blast)
  show "keeps pv_guard (removePvFromRDE dm i n)"
    unfolding keeps_def removePvFromRDE_def
    by (intro allI, rule sat_mono [OF remove_loop.loop], rule *(2), blast)
qed

lemma pv_leaves:
  "keeps pv_guard (GetDiskByNameOrId dm name zm v)" "keeps pv_guard (isDiskShareable caps)"
  "keeps pv_guard (IsBlockVolume caps)" "keeps pv_guard (volumeVDC dm params)"
  "keeps pv_guard (AddToErrorSet dm ty rid rn ds)" "keeps pv_guard (RemoveFromErrorSet dm ty rid rn)"
  "keeps pv_guard (AddToEventSet dm ty rid rn ds)" "keeps pv_guard (GetVDCByNameOrId dm i)"
  by (intro pv_guard_emits, auto intro!: trace_rules emits_capabilities emits_volumeVDC
      intro: emits_mono [OF emits_GetDiskByNameOrId])+

lemma pv_calls:
  "keeps pv_guard (GetDiskRequest href)" "keeps pv_guard (GetVmsRequest l)"
  "keeps pv_guard (FindStorageProfileReference v n)" "keeps pv_guard (PostDiskRequest l p)"
  "keeps pv_guard (DeleteDiskRequest href)" "keeps pv_guard (PutDiskRequest l d)"
  "keeps pv_guard (AttachDisk vm href)" "keeps pv_guard (DetachDisk vm href)"
  "keeps pv_guard (WaitTaskCompletion t)" "keeps pv_guard (SearchVMAcrossVDCs a b c)"
  "keeps pv_guard (UpdateInternalDisks vm ss)" "keeps pv_guard RefreshBearerToken"
  by (intro pv_guard_emits, auto intro!: trace_rules)+

lemma pv_operations:
  "keeps pv_guard (CreateDisk dm name v sz bt bs desc sp sh zm)" "keeps pv_guard (DeleteDisk dm name zm)"
  "keeps pv_guard (AttachVolume dm vm od)" "keeps pv_guard (DetachVolume dm vm name zm)"
  "keeps pv_guard (UpdateDisk dm d info)" "keeps pv_guard (GovcdAttachedVM dm d)"
  unfolding CreateDisk_def createNewDisk_def createAndRecord_def createDisk_def checkExistingDisk_def
    DeleteDisk_def govcdDelete_def finishDelete_def AttachVolume_def govcdRefresh_def govcdGetDiskByHref_def
    DetachVolume_def UpdateDisk_def GovcdAttachedVM_def Let_def
  by (auto intro!: keeps_section keeps_rules pv_updates pv_leaves pv_calls split: list.splits)

lemma pv_with_token: "keeps pv_guard m \<Longrightarrow> keeps pv_guard (with_token m)"
  unfolding with_token_def by (auto intro!: keeps_rules pv_calls)

lemma pv_handlers:
  "keeps pv_guard (CreateVolume cs req)" "keeps pv_guard (DeleteVolume cs del)"
  "keeps pv_guard (ControllerPublishVolume cs pub)" "keeps pv_guard (ControllerUnpublishVolume cs unp)"
  "keeps pv_guard (ControllerExpandVolume cs exp)"
  unfolding handler_defs Let_def
  by (auto intro!: pv_with_token keeps_rules pv_leaves pv_calls pv_operations
      split: list.splits expansion.splits access_type.splits)

lemma pv_serve: "keeps pv_guard (serve cs calls)"
proof (induction calls)
  case (Cons c calls)
  then show ?case by (cases c) (auto intro!: keeps_rules pv_handlers)
qed simp

section \<open>The server\<close>

definition pvs_of :: "defined_entity \<Rightarrow> string list" where
  "pvs_of ent = (case GetPVsFromRDE ent of Inl _ \<Rightarrow> [] | Inr pvs \<Rightarrow> pvs)"

text \<open>One addition or one removal.\<close>

inductive pv_step :: "string list \<Rightarrow> string list \<Rightarrow> bool" where
  add: "pv_step pvs (pvs @ [ident])"
| remove: "ident \<in> set pvs \<Longrightarrow> pv_step pvs (remove1 ident pvs)"

lemma pv_rel_step: "pv_rel ent e \<Longrightarrow> pv_step (pvs_of ent) (pvs_of (stored_entity e))"
  by (auto simp: pv_rel_def add_rel_def remove_rel_def pvs_of_def AddPVs_stored intro: pv_step.intros)

text \<open>
  \<open>B\<close> and \<open>F\<close> give the entity with its etag before a request is handled and after it; from
  \<open>F\<close> of one request to \<open>B\<close> of the next other clients may have changed it. A read answers with
  what is there. A write that is answered without an error had the current etag, and stores the
  entity that was sent; one that is answered with an error is either not done, or is done too
  (the answer was lost). The requests of the sets and of the other parts of the API leave the
  list alone.
\<close>

definition written :: "(vcd_event list \<Rightarrow> defined_entity \<times> string) \<Rightarrow> (vcd_event list \<Rightarrow> defined_entity \<times> string) \<Rightarrow>
    vcd_event list \<Rightarrow> vcd_event \<Rightarrow> defined_entity \<Rightarrow> string \<Rightarrow> bool" where
  "written B F pre ev e tag \<longleftrightarrow> tag = snd (B pre) \<and> fst (F (pre @ [ev])) = stored_entity e"

fun accepted :: "string \<Rightarrow> vcd_event \<Rightarrow> bool" where
  "accepted c (EvPutEntity _ _ i _ (_, _, err)) \<longleftrightarrow> i = c \<and> err = None"
| "accepted c _ \<longleftrightarrow> False"

fun entity_answer :: "string \<Rightarrow> (vcd_event list \<Rightarrow> defined_entity \<times> string) \<Rightarrow>
    (vcd_event list \<Rightarrow> defined_entity \<times> string) \<Rightarrow> vcd_event list \<Rightarrow> vcd_event \<Rightarrow> bool" where
  "entity_answer c B F pre (EvGetEntity i g (ent, st, tag, err)) \<longleftrightarrow>
     F (pre @ [EvGetEntity i g (ent, st, tag, err)]) = B pre \<and> (i = c \<and> err = None \<longrightarrow> B pre = (ent, tag))"
| "entity_answer c B F pre (EvPutEntity e tag i g r) \<longleftrightarrow>
     i = c \<and> written B F pre (EvPutEntity e tag i g r) e tag \<or>
     \<not> accepted c (EvPutEntity e tag i g r) \<and> fst (F (pre @ [EvPutEntity e tag i g r])) = fst (B pre)"
| "entity_answer c B F pre ev \<longleftrightarrow> pvs_of (fst (F (pre @ [ev]))) = pvs_of (fst (B pre))"

text \<open>An etag names one version of the entity.\<close>

definition tags_tell :: "(vcd_event list \<Rightarrow> defined_entity \<times> string) \<Rightarrow> bool" where
  "tags_tell B \<longleftrightarrow> (\<forall>h h'. snd (B h) = snd (B h') \<longrightarrow> fst (B h) = fst (B h'))"

section \<open>No update is lost\<close>

lemma read_before:
  assumes "guard_ok (entity_answer c B F) [] (history L)"
    and "of_thread i L = a @ EvGetEntity c g (ent, st, tag, None) # b"
  shows "\<exists>h. B h = (ent, tag)"
proof -
  obtain K M where L: "L = K @ (i, EvGetEntity c g (ent, st, tag, None)) # M"
    using of_thread_split [OF assms(2)] by blast
  then have "B (history K) = (ent, tag)" using assms(1) by simp
  then show ?thesis by blast
qed

lemma write_step:
  assumes "guard_ok (entity_answer c B F) [] (history L)" and "tags_tell B"
    and "pv_guard (of_thread i L) (EvPutEntity e tag c g r)"
    and "written B F (history L) ev e tag"
  shows "pv_step (pvs_of (fst (B (history L)))) (pvs_of (fst (F (history L @ [ev]))))"
proof -
  obtain a ent st g' b where read: "of_thread i L = a @ EvGetEntity c g' (ent, st, tag, None) # b"
      and rel: "pv_rel ent e"
    using assms(3) by (auto simp: read_guard.simps)
  obtain h where "B h = (ent, tag)" using read_before [OF assms(1) read] by blast
  then have "fst (B (history L)) = ent"
    using assms(2,4) unfolding tags_tell_def written_def by (metis fst_conv snd_conv)
  then show ?thesis using pv_rel_step [OF rel] assms(4) by (simp add: written_def)
qed

lemma updates_step:
  assumes "\<And>i. prefix (of_thread i L) (snd (serve (cs i) (calls i) (env i) []))"
    and "guard_ok (entity_answer c B F) [] (history L)" and "tags_tell B"
  shows "guard_ok (\<lambda>pre e. (if accepted c e then pv_step else pv_step\<^sup>=\<^sup>=)
    (pvs_of (fst (B pre))) (pvs_of (fst (F (pre @ [e]))))) [] (history L)"
  unfolding guard_ok_split append_Nil
proof (intro allI impI)
  fix xs e ys
  assume "history L = xs @ e # ys"
  then obtain K i M where L: "L = K @ (i, e) # M" and xs: "xs = history K"
    by (auto simp: map_eq_append_conv map_eq_Cons_conv)
  have truth: "guard_ok (entity_answer c B F) [] (history K)" "entity_answer c B F xs e"
    using assms(2) by (simp_all add: L xs)
  have "guard_ok pv_guard [] (snd (serve (cs i) (calls i) (env i) []))"
    using keepsD [OF pv_serve] by (simp add: sat_iff)
  then have guard: "pv_guard (of_thread i K) e"
    using guard_in_log [of pv_guard "\<lambda>i. snd (serve (cs i) (calls i) (env i) [])" i K e M] assms(1) [of i]
    by (simp add: L)
  show "(if accepted c e then pv_step else pv_step\<^sup>=\<^sup>=) (pvs_of (fst (B xs))) (pvs_of (fst (F (xs @ [e]))))"
  proof (cases e)
    case (EvPutEntity e' tag d g r)
    then show ?thesis
      using write_step [OF truth(1) assms(3), of i e' tag g r e] guard truth(2) by (auto simp: xs)
  next
    case (EvGetEntity d g r)
    then show ?thesis using truth(2) by (cases r) simp
  qed (use truth(2) in simp_all)
qed

lemma steps_history:
  assumes "guard_ok (\<lambda>pre e. (if accepted c e then pv_step else pv_step\<^sup>=\<^sup>=)
      (pvs_of (fst (B pre))) (pvs_of (fst (F (pre @ [e]))))) [] es" and "\<And>h. F h = B h"
  shows "pv_step\<^sup>*\<^sup>* (pvs_of (fst (B []))) (pvs_of (fst (B es)))"
  using assms(1)
proof (induction es rule: rev_induct)
  case (snoc e es)
  then show ?case by (auto simp: assms(2) split: if_splits)
qed simp

text \<open>
  C6: controller calls of any number of driver processes at the same time, together with any
  other clients, on a server that answers truly about the cluster's entity and gives each
  version of it its own etag: each accepted write is one addition to the list of volumes or
  one removal from it, on the list as it is when the write is handled; and no other request of
  the drivers changes the list otherwise. So without other clients the list comes from the
  one at the start by additions and removals, in the order of the accepted writes.
\<close>

theorem no_update_lost:
  assumes "\<And>i. prefix (of_thread i L) (snd (serve (cs i) (calls i) (env i) []))"
    and "guard_ok (entity_answer c B F) [] (history L)" and "tags_tell B"
  shows "guard_ok (\<lambda>pre e. (if accepted c e then pv_step else pv_step\<^sup>=\<^sup>=)
      (pvs_of (fst (B pre))) (pvs_of (fst (F (pre @ [e]))))) [] (history L) \<and>
    ((\<forall>h. F h = B h) \<longrightarrow> pv_step\<^sup>*\<^sup>* (pvs_of (fst (B []))) (pvs_of (fst (B (history L)))))"
  using updates_step [OF assms] steps_history by blast

section \<open>An example\<close>

text \<open>
  Two processes delete the volume \<open>pvc1\<close> of one cluster. Both have read the entity when the
  first writes it; the write of the second is refused, and it reads the entity again.
\<close>

definition native2 :: defined_entity where
  "native2 = native0\<lparr>rdeEntity := fmap_of_list [(''status'',
     VMap (fmap_of_list [(''persistentVolumes'', VSlice [VStr ''id0'', VStr ''id1''])]))]\<rparr>"

definition trimmed :: defined_entity where
  "trimmed = (case AddPVsInRDE native2 [''id0''] of Inr e \<Rightarrow> e | Inl _ \<Rightarrow> native2)"

definition refusal :: goerr where "refusal = ApiError ''412 Precondition Failed'' False"

definition second_env :: vcd_env where
  "second_env = (one_disk_env [])\<lparr>q_getOrg := (\<lambda>_ _. Inr (Some (Some ''org1''))),
     q_deleteDisk := (\<lambda>_ _. Inr done_task),
     q_getEntity := (\<lambda>h _ _. if list_ex is_put h then (stored_entity trimmed, Some 200, ''t2'', None)
       else (native2, Some 200, ''t1'', None)),
     q_putEntity := (\<lambda>_ e _ _ _. (e, Some 412, Some refusal))\<rparr>"

definition first_env :: vcd_env where
  "first_env = second_env\<lparr>q_putEntity := (\<lambda>_ e _ _ _. (e, Some 200, None))\<rparr>"

definition cs1 :: controller_server where "cs1 = cs0\<lparr>DiskManager := dm1\<rparr>"

lemma native2_pvs: "GetPVsFromRDE native2 = Inr [''id0'', ''id1'']"
  by (simp add: GetPVsFromRDE_iff native2_def fmap_of_list.rep_eq)

lemma trimmed_pvs: "AddPVsInRDE native2 [''id0''] = Inr trimmed"
proof -
  obtain e where "AddPVsInRDE native2 [''id0''] = Inr e"
    using AddPVsInRDE_ok [OF native2_pvs] by metis
  then show ?thesis by (simp only: trimmed_def sum.case)
qed

lemma entity_pvs:
  "GetPVsFromRDE (stored_entity trimmed) = Inr [''id0'']"
  "IsNativeClusterEntityType (rdeEntityType native2)"
  "IsNativeClusterEntityType (rdeEntityType (stored_entity trimmed))"
  using AddPVs_stored [OF trimmed_pvs] native2_pvs by (simp_all add: GetPVsFromRDE_iff)

lemma env_lookup:
  "sat (GetDiskByNameOrId dm1 ''pvc1'' None ''ovdc'') second_env h Q =
     Q (Done (Inr disk0)) [EvGetVDC ''ovdc'' (Inr vdc0), EvGetDisk ''href1'' (Inr disk0)]"
  "sat (GetDiskByNameOrId dm1 ''pvc1'' None ''ovdc'') first_env h Q =
     Q (Done (Inr disk0)) [EvGetVDC ''ovdc'' (Inr vdc0), EvGetDisk ''href1'' (Inr disk0)]"
proof -
  have "\<not> isUrn ''pvc1''" "\<not> IsUuid ''pvc1''" by code_simp+
  then show "sat (GetDiskByNameOrId dm1 ''pvc1'' None ''ovdc'') second_env h Q =
     Q (Done (Inr disk0)) [EvGetVDC ''ovdc'' (Inr vdc0), EvGetDisk ''href1'' (Inr disk0)]"
    "sat (GetDiskByNameOrId dm1 ''pvc1'' None ''ovdc'') first_env h Q =
     Q (Done (Inr disk0)) [EvGetVDC ''ovdc'' (Inr vdc0), EvGetDisk ''href1'' (Inr disk0)]"
    by (simp_all add: GetDiskByNameOrId_def searchClusterVDC_def govcdGetDisksByNameOrId_def
        getEntityByNameOrIdSkipNonId_def disks_getter_def govcdGetDisksByName_def
        wp first_env_def second_env_def one_disk_env_def vdc0_def dm0_def dm1_def)
qed

lemma env_simps:
  "q_refreshToken second_env h = Inr ()" "q_getVms second_env h l = Inr []"
  "q_deleteDisk second_env h x = Inr done_task" "q_waitTask second_env h t = Inr t"
  "q_rde second_env h = Inr ()" "q_getOrg second_env h n = Inr (Some (Some ''org1''))"
  "q_getEntity second_env h a b = (if list_ex is_put h then (stored_entity trimmed, Some 200, ''t2'', None)
       else (native2, Some 200, ''t1'', None))"
  "q_putEntity second_env h e a b c = (e, Some 412, Some refusal)"
  "q_refreshToken first_env h = Inr ()" "q_getVms first_env h l = Inr []"
  "q_deleteDisk first_env h x = Inr done_task" "q_waitTask first_env h t = Inr t"
  "q_rde first_env h = Inr ()" "q_getOrg first_env h n = Inr (Some (Some ''org1''))"
  "q_getEntity first_env h a b = (if list_ex is_put h then (stored_entity trimmed, Some 200, ''t2'', None)
       else (native2, Some 200, ''t1'', None))"
  "q_putEntity first_env h e a b c = (e, Some 200, None)"
  by (simp_all add: first_env_def second_env_def one_disk_env_def down_env_def Let_def)

abbreviation org_found :: vcd_event where
  "org_found \<equiv> EvGetOrg ''org'' (Inr (Some (Some ''org1'')))"

abbreviation entity_read :: "defined_entity \<Rightarrow> string \<Rightarrow> vcd_event" where
  "entity_read ent tag \<equiv> EvGetEntity ''rde1'' ''org1'' (ent, Some 200, tag, None)"

lemma dm1_simps: "ClusterOrgName (VCDClient dm1) = ''org''" "ClusterID dm1 = ''rde1''"
  "ClusterOVDCIdentifier (VCDClient dm1) = ''ovdc''" "ZoneMap dm1 = None" "rdeEnabled dm1"
  "DiskManager cs1 = dm1" "dId disk0 = ''id1''" "dName disk0 = ''pvc1''"
  by (simp_all add: dm1_def dm0_def cs1_def rdeEnabled_def NoRdePrefix_def disk0_def)

lemma first_remove:
  assumes "list_all (\<lambda>e. \<not> is_put e) h"
  shows "sat (removePvFromRDE dm1 ''id1'' ''pvc1'') first_env h Q = Q (Done (Inr ()))
    [org_found, entity_read native2 ''t1'', org_found,
     EvPutEntity trimmed ''t1'' ''rde1'' ''org1'' (trimmed, Some 200, None)]"
  using assms
  by (simp add: removePvFromRDE_def retry_unfold removePvRound_def removeRDEPersistentVolumes_def
      GetRDEPersistentVolumes_def RemovePV_AddPV wp vcd_calls Let_def env_simps entity_pvs native2_pvs trimmed_pvs
      dm1_simps list_all_iff list_ex_iff)

lemma second_round:
  "retry 9 body final = bind body (\<lambda>o'. case o' of Some r \<Rightarrow> ret r | None \<Rightarrow> retry 8 body final)"
  using retry.simps(2) [of 8 body final] by simp

lemma second_remove:
  assumes "list_all (\<lambda>e. \<not> is_put e) h"
  shows "sat (removePvFromRDE dm1 ''id1'' ''pvc1'') second_env h Q = Q (Done (Inr ()))
    [org_found, entity_read native2 ''t1'', org_found,
     EvPutEntity trimmed ''t1'' ''rde1'' ''org1'' (trimmed, Some 412, Some refusal),
     org_found, entity_read (stored_entity trimmed) ''t2'']"
  using assms
  by (simp add: removePvFromRDE_def retry_unfold second_round removePvRound_def removeRDEPersistentVolumes_def
      GetRDEPersistentVolumes_def RemovePV_AddPV wp vcd_calls Let_def env_simps entity_pvs native2_pvs trimmed_pvs
      dm1_simps list_all_iff list_ex_iff StatusPreconditionFailed_def)

definition until_read :: "vcd_event list" where
  "until_read = [EvRefreshToken (Inr ()), EvLock, EvGetVDC ''ovdc'' (Inr vdc0), EvGetDisk ''href1'' (Inr disk0),
     EvGetVms vms0 (Inr []), EvGetVms vms0 (Inr []), EvDeleteDisk ''del1'' (Inr done_task),
     EvWaitTask done_task (Inr done_task), EvAddEvent ''rde1'' DiskDeleteEvent [] ''pvc1''
       [(''Detailed Info'', DText ''Volume deleted successfully'')] (Inr ()),
     org_found, entity_read native2 ''t1'', org_found]"

definition at_end :: "vcd_event list" where
  "at_end = [EvUnlock, EvRemoveError ''rde1'' DiskDeleteError [] ''pvc1'' (Inr ())]"

lemma disk0_links:
  "List.find (\<lambda>l. lRel l = RelRemove) (dLink disk0) = Some \<lparr>lHREF = ''del1'', lID = [], lType = [], lName = [], lRel = RelRemove\<rparr>"
  by (simp add: disk0_def RelRemove_def)

definition first_run :: "vcd_event list" where
  "first_run = until_read @ EvPutEntity trimmed ''t1'' ''rde1'' ''org1'' (trimmed, Some 200, None) # at_end"

definition second_run :: "vcd_event list" where
  "second_run = until_read @ EvPutEntity trimmed ''t1'' ''rde1'' ''org1'' (trimmed, Some 412, Some refusal) #
     org_found # entity_read (stored_entity trimmed) ''t2'' # at_end"

lemma delete_runs:
  "snd (serve cs1 [CallDelete (Some ''pvc1'')] first_env []) = first_run"
  "snd (serve cs1 [CallDelete (Some ''pvc1'')] second_env []) = second_run"
proof -
  have "sat (serve cs1 [CallDelete (Some ''pvc1'')] ) first_env [] (\<lambda>r es. es = first_run)"
    by (simp add: DeleteVolume_def DeleteDisk_def govcdDelete_def finishDelete_def first_run_def until_read_def
        at_end_def wp vcd_calls Let_def env_lookup env_simps dm1_simps vms_link_disk0 disk0_links first_remove)
  then show "snd (serve cs1 [CallDelete (Some ''pvc1'')] first_env []) = first_run"
    by (simp add: sat_iff)
  have "sat (serve cs1 [CallDelete (Some ''pvc1'')] ) second_env [] (\<lambda>r es. es = second_run)"
    by (simp add: DeleteVolume_def DeleteDisk_def govcdDelete_def finishDelete_def second_run_def until_read_def
        at_end_def wp vcd_calls Let_def env_lookup env_simps dm1_simps vms_link_disk0 disk0_links second_remove)
  then show "snd (serve cs1 [CallDelete (Some ''pvc1'')] second_env []) = second_run"
    by (simp add: sat_iff)
qed

definition delete_log :: "vcd_event log" where
  "delete_log = map (Pair 0) until_read @ map (Pair 1) until_read @ map (Pair 0) (drop 12 first_run) @
     map (Pair 1) (drop 12 second_run)"

definition entity_at :: "vcd_event list \<Rightarrow> defined_entity \<times> string" where
  "entity_at h = (if list_ex (accepted ''rde1'') h then (stored_entity trimmed, ''t2'') else (native2, ''t1''))"

definition delete_env :: "nat \<Rightarrow> vcd_env" where
  "delete_env i = (if i = 0 then first_env else second_env)"

definition delete_calls :: "nat \<Rightarrow> controller_call list" where
  "delete_calls i = (if i < 2 then [CallDelete (Some ''pvc1'')] else [])"

lemma delete_threads:
  "prefix (of_thread i delete_log) (snd (serve cs1 (delete_calls i) (delete_env i) []))"
proof -
  have parts: "until_read @ drop 12 first_run = first_run" "until_read @ drop 12 second_run = second_run"
    by (simp_all add: first_run_def second_run_def until_read_def)
  consider "i = 0" | "i = 1" | "2 \<le> i" by linarith
  then show ?thesis
    by cases (simp_all add: delete_log_def delete_env_def delete_calls_def delete_runs parts del: serve.simps(2))
qed

lemma delete_truth: "guard_ok (entity_answer ''rde1'' entity_at entity_at) [] (history delete_log)"
proof -
  have h: "history delete_log = until_read @ until_read @ drop 12 first_run @ drop 12 second_run"
    by (simp add: delete_log_def)
  show ?thesis
    unfolding h
    by (simp add: until_read_def first_run_def second_run_def at_end_def entity_at_def written_def)
qed

theorem no_update_lost_witness:
  "pv_step\<^sup>*\<^sup>* [''id0'', ''id1''] [''id0''] \<and>
   pvs_of (fst (entity_at (history delete_log))) = [''id0'']"
proof -
  have tell: "tags_tell entity_at"
    by (simp add: tags_tell_def entity_at_def)
  have "pv_step\<^sup>*\<^sup>* (pvs_of (fst (entity_at []))) (pvs_of (fst (entity_at (history delete_log))))"
    using no_update_lost [OF delete_threads delete_truth tell] by blast
  moreover have "list_ex (accepted ''rde1'') (history delete_log)"
    by (simp add: delete_log_def first_run_def until_read_def)
  ultimately show ?thesis
    by (simp add: entity_at_def pvs_of_def native2_pvs entity_pvs)
qed

end
