(* ===== verification/Attachment.thy ===== *)
theory Attachment
  imports ControllerSpec
begin

text \<open>
  The server's side of the story: which machines have which disk. The attachments are a
  function of the requests so far, of which only this is assumed: a disk gains a machine only
  by an attach of this driver, a query for the machines of a disk that was read answers with
  the attachments of that moment, and whether a disk is shareable does not change. The result
  spans every component below the handlers: any sequence of calls leaves a disk that is not
  shareable with at most one machine, and deletes a disk only while no machine has it.
\<close>

section \<open>The attach guard\<close>

text \<open>What the argument needs of the write guard: the disk was read, and is free or shareable.\<close>

fun attach_guard :: "vcd_event list \<Rightarrow> vcd_event \<Rightarrow> bool" where
  "attach_guard pre (EvAttach vm href r) \<longleftrightarrow> (\<exists>d x vms. just_asked d vms pre \<and>
     EvGetDisk x (Inr d) \<in> set pre \<and> href = dHREF d \<and> (vms = [] \<or> dShareable d))"
| "attach_guard pre _ \<longleftrightarrow> True"

lemma attach_guard_other: "\<not> is_attach e \<Longrightarrow> attach_guard pre e"
  by (cases e) simp_all

lemma not_attach [simp]:
  "is_query e \<Longrightarrow> \<not> is_attach e" "\<not> is_storage_write e \<Longrightarrow> \<not> is_attach e"
  by (cases e; simp)+

lemma write_attach_guard: "write_guard pre e \<Longrightarrow> attach_guard pre e"
  by (cases e) (auto simp: write_guard.simps)

lemma guard_ok_imp: "guard_ok G pre es \<Longrightarrow> (\<And>p e. G p e \<Longrightarrow> G' p e) \<Longrightarrow> guard_ok G' pre es"
  by (induction es arbitrary: pre) auto

lemma attach_serve: "keeps attach_guard (serve cs calls)"
  using safe_operation.checks [OF safe_serve] write_attach_guard
  unfolding keeps_def by (blast intro: sat_mono guard_ok_imp)

section \<open>The server\<close>

text \<open>The disks that have been read, and the machine that a disk may gain by an event.\<close>

fun disks_read :: "vcd_event list \<Rightarrow> disk list" where
  "disks_read [] = []"
| "disks_read (EvGetDisk _ (Inr d) # es) = d # disks_read es"
| "disks_read (_ # es) = disks_read es"

fun gained :: "vcd_event \<Rightarrow> string \<Rightarrow> string set" where
  "gained (EvAttach vm href _) x = (if href = x then {mHREF vm} else {})"
| "gained _ x = {}"

text \<open>
  \<open>server_guard A S\<close>: the attachments \<open>A\<close> grow only by an attach of this driver (also by one
  that is answered with an error), an answer about the machines of a disk that was read tells
  the attachments, and \<open>S\<close> says which disks are shareable.
\<close>

fun answers_truly :: "(vcd_event list \<Rightarrow> string \<Rightarrow> string set) \<Rightarrow> (string \<Rightarrow> bool) \<Rightarrow>
    vcd_event list \<Rightarrow> vcd_event \<Rightarrow> bool" where
  "answers_truly A S pre (EvGetVms l (Inr vms)) \<longleftrightarrow>
     list_all (\<lambda>d. vms_link d = Some l \<longrightarrow> A pre (dHREF d) = rHREF ` set vms) (disks_read pre)"
| "answers_truly A S pre (EvGetDisk _ (Inr d)) \<longleftrightarrow> dShareable d = S (dHREF d)"
| "answers_truly A S pre _ \<longleftrightarrow> True"

definition server_guard :: "(vcd_event list \<Rightarrow> string \<Rightarrow> string set) \<Rightarrow> (string \<Rightarrow> bool) \<Rightarrow>
    vcd_event list \<Rightarrow> vcd_event \<Rightarrow> bool" where
  "server_guard A S pre e \<longleftrightarrow> (\<forall>x. A (pre @ [e]) x \<subseteq> A pre x \<union> gained e x) \<and> answers_truly A S pre e"

definition truthful :: "(vcd_event list \<Rightarrow> string \<Rightarrow> string set) \<Rightarrow> (string \<Rightarrow> bool) \<Rightarrow>
    vcd_event list \<Rightarrow> bool" where
  "truthful A S es \<longleftrightarrow> guard_ok (server_guard A S) [] es"

lemma disks_read_iff: "d \<in> set (disks_read es) \<longleftrightarrow> (\<exists>x. EvGetDisk x (Inr d) \<in> set es)"
  by (induction es rule: disks_read.induct) auto

lemma truthful_shareable:
  "truthful A S es \<Longrightarrow> EvGetDisk x (Inr d) \<in> set es \<Longrightarrow> dShareable d = S (dHREF d)"
  unfolding truthful_def
  by (induction es rule: rev_induct) (auto simp: server_guard_def)

lemma truthful_asked:
  assumes "truthful A S es" and "just_asked d vms es" and "EvGetDisk x (Inr d) \<in> set es"
  shows "A es (dHREF d) \<subseteq> rHREF ` set vms"
proof -
  obtain l where l: "vms_link d = Some l" "last_is (\<lambda>e. e = EvGetVms l (Inr vms)) es"
    using assms(2) by (auto simp: just_asked_def)
  then obtain es' where es: "es = es' @ [EvGetVms l (Inr vms)]"
    by (cases es rule: rev_cases) (auto simp: last_is_def)
  have "d \<in> set (disks_read es')" using assms(3) by (auto simp: es disks_read_iff)
  then show ?thesis
    using assms(1) l(1) by (fastforce simp: es truthful_def server_guard_def list_all_iff)
qed

lemma exclusive_runs:
  assumes "truthful A S es" and "guard_ok attach_guard [] es" and "\<not> S x" and "at_most_one (A [] x)"
  shows "at_most_one (A es x)"
proof (rule ledger_exclusive [where A = "\<lambda>es. A es x" and gained = "\<lambda>e. gained e x"
      and G = "\<lambda>pre e. server_guard A S pre e \<and> attach_guard pre e"])
  have split: "guard_ok (\<lambda>pre e. server_guard A S pre e \<and> attach_guard pre e) [] es \<longleftrightarrow>
      truthful A S es \<and> guard_ok attach_guard [] es" for es
    by (auto simp: truthful_def guard_ok_split)
  show "guard_ok (\<lambda>pre e. server_guard A S pre e \<and> attach_guard pre e) [] es"
    using assms(1,2) split by simp
  fix pre e
  assume prev: "guard_ok (\<lambda>pre e. server_guard A S pre e \<and> attach_guard pre e) [] pre"
    and e: "server_guard A S pre e \<and> attach_guard pre e"
  then show "A (pre @ [e]) x \<subseteq> A pre x \<union> gained e x"
    by (simp add: server_guard_def)
  assume "gained e x \<noteq> {}"
  then obtain vm r where "e = EvAttach vm x r"
    by (cases e) (auto split: if_splits)
  then obtain d y vms where d: "just_asked d vms pre" "EvGetDisk y (Inr d) \<in> set pre" "x = dHREF d"
      "vms = [] \<or> dShareable d"
    using e by auto
  show "A pre x = {}"
  proof -
    have t: "truthful A S pre" using prev split by simp
    then have "A pre x \<subseteq> rHREF ` set vms" "\<not> dShareable d"
      using truthful_asked [OF t d(1,2)] truthful_shareable [OF t d(2)] d(3) assms(3) by simp_all
    then show ?thesis using d(4) by auto
  qed
next
  show "at_most_one (gained e x)" for e
    by (cases e) (simp_all add: at_most_one_def)
qed (rule assms(4))

text \<open>
  No sequence of controller calls, in an environment that answers truly, gives a disk that
  is not shareable to two machines at once, and a disk is deleted only while no machine has it.
  The attachments may shrink at any time; that they grow only by this driver's attaches is the
  assumption that no other client of the server attaches its disks.
\<close>

theorem serve_exclusive:
  assumes "serve cs calls env [] = (r, pre @ post)" and "truthful A S (pre @ post)"
    and "\<And>x. \<not> S x \<Longrightarrow> at_most_one (A [] x)"
  shows "(\<forall>x. \<not> S x \<longrightarrow> at_most_one (A pre x)) \<and>
    (\<forall>href a rest. post = EvDeleteDisk href a # rest \<longrightarrow> (\<exists>d l. d \<in> set (disks_read pre) \<and>
       List.find (\<lambda>l. lRel l = RelRemove) (dLink d) = Some l \<and> href = lHREF l \<and> A pre (dHREF d) = {}))"
proof -
  have t: "truthful A S pre" using assms(2) by (simp add: truthful_def)
  have a: "guard_ok attach_guard [] pre" and w: "guard_ok write_guard [] (pre @ post)"
    using keepsD [OF attach_serve, of cs calls env "[]"] assms(1)
      keepsD [OF safe_operation.checks [OF safe_serve], of cs calls env "[]"] by (simp_all add: sat_pair)
  show ?thesis
  proof (intro conjI allI impI)
    show "at_most_one (A pre x)" if "\<not> S x" for x
      using exclusive_runs [OF t a that] assms(3) that by blast
    fix href a' rest
    assume "post = EvDeleteDisk href a' # rest"
    then obtain d x l where d: "just_asked d [] pre" "EvGetDisk x (Inr d) \<in> set pre"
        "List.find (\<lambda>l. lRel l = RelRemove) (dLink d) = Some l" "href = lHREF l"
      using w by (auto simp: write_guard.simps)
    then show "\<exists>d l. d \<in> set (disks_read pre) \<and>
       List.find (\<lambda>l. lRel l = RelRemove) (dLink d) = Some l \<and> href = lHREF l \<and> A pre (dHREF d) = {}"
      using truthful_asked [OF t d(1,2)] by (auto simp: disks_read_iff)
  qed
qed

text \<open>The server of the example: the disk has the machines of the attaches so far.\<close>

definition live_attachments :: "vcd_event list \<Rightarrow> string \<Rightarrow> string set" where
  "live_attachments es x = (if x = ''href1'' \<and> list_ex is_attach es then {''vm1''} else {})"

theorem serve_exclusive_witness:
  "at_most_one (live_attachments (live_before @ EvAttach vm1 ''href1'' (Inr done_task) # live_after @
     live_refused) ''href1'') \<and>
   live_attachments (live_before @ EvAttach vm1 ''href1'' (Inr done_task) # live_after @
     live_refused) ''href1'' = {''vm1''}"
proof -
  let ?es = "live_before @ EvAttach vm1 ''href1'' (Inr done_task) # live_after @ live_refused"
  have "\<not> dShareable disk0" by (simp add: disk0_def zero_disk_def)
  then have "truthful live_attachments (\<lambda>_. False) (?es @ [])"
    by (simp add: truthful_def server_guard_def live_before_def live_after_def live_refused_def
        live_attachments_def vms_link_disk0 dm0_simps ref_vm1_def vm1_def)
  from serve_exclusive [OF _ this] live_run show ?thesis
    by (simp add: at_most_one_def live_attachments_def)
qed

end
