(* ===== verification/ConcurrentCalls.thy ===== *)
theory ConcurrentCalls
  imports Attachment Concurrency
begin

text \<open>
  Controller calls that run at the same time, in one process: the threads of theory
  Concurrency are sequences of calls of the controller service (in the server each call has
  its own goroutine, a sequence of one). The lock makes the check and the write of an
  operation one step for the other operations, so the results on sequences of calls hold for
  every interleaving; and every call returns.
\<close>

section \<open>The threads\<close>

definition call_threads :: "controller_server \<Rightarrow> (nat \<Rightarrow> controller_call list) \<Rightarrow> (nat \<Rightarrow> vcd_env) \<Rightarrow>
    nat \<Rightarrow> vcd_event list" where
  "call_threads cs calls env i = snd (serve cs (calls i) (env i) [])"

lemma call_threads_keep: "keeps G (serve cs (calls i)) \<Longrightarrow> guard_ok G [] (call_threads cs calls env i)"
  by (simp add: call_threads_def keeps_def sat_iff)

interpretation service: lock_users "call_threads cs calls env" for cs calls env
proof
  show "guard_ok lock_guard [] (call_threads cs calls env i)" "\<not> held (call_threads cs calls env i)" for i
    using balancedD [OF safe_operation.locking [OF safe_serve [of cs "calls i"]], of "[]" "env i"]
    by (simp_all add: call_threads_def sat_iff)
qed

section \<open>Exclusive disks\<close>

text \<open>What the thread in its critical section has learnt about a disk bounds its attachments.\<close>

definition learnt :: "(vcd_event list \<Rightarrow> string \<Rightarrow> string set) \<Rightarrow> vcd_event log \<Rightarrow> bool" where
  "learnt A L \<longleftrightarrow> (\<forall>i d vms x. holder L = Some i \<longrightarrow> just_asked d vms (of_thread i L) \<longrightarrow>
     EvGetDisk x (Inr d) \<in> set (of_thread i L) \<longrightarrow> A (history L) (dHREF d) \<subseteq> rHREF ` set vms)"

lemma gained_needs_lock: "gained e x \<noteq> {} \<Longrightarrow> needs_lock e"
  by (cases e) simp_all

lemma just_asked_last: "just_asked d vms (es @ [e]) \<longleftrightarrow> (\<exists>l. vms_link d = Some l \<and> e = EvGetVms l (Inr vms))"
  by (auto simp: just_asked_def)

lemma truthful_snoc:
  "truthful A S (es @ [e]) \<longleftrightarrow> truthful A S es \<and> server_guard A S es e"
  by (simp add: truthful_def)

context lock_users
begin

lemma learns: "interleaved runs L \<Longrightarrow> truthful A S (history L) \<Longrightarrow> learnt A L"
proof (induction rule: interleaved.induct)
  case nothing
  show ?case by (simp add: learnt_def)
next
  case (next_event L j e)
  then have truth: "truthful A S (history L)" "server_guard A S (history L) e"
    by (simp_all add: truthful_snoc)
  have step: "interleaved runs (L @ (j, e) # [])" using next_event.hyps by (simp add: interleaved.next_event)
  show ?case
    unfolding learnt_def
  proof (intro allI impI)
    fix i d vms x
    assume hold: "holder (L @ [(j, e)]) = Some i"
      and asked: "just_asked d vms (of_thread i (L @ [(j, e)]))"
      and read: "EvGetDisk x (Inr d) \<in> set (of_thread i (L @ [(j, e)]))"
    have grow: "A (history L @ [e]) (dHREF d) \<subseteq> A (history L) (dHREF d) \<union> gained e (dHREF d)"
      using truth(2) by (simp add: server_guard_def)
    show "A (history (L @ [(j, e)])) (dHREF d) \<subseteq> rHREF ` set vms"
    proof (cases "i = j")
      case True
      then obtain l where l: "vms_link d = Some l" "e = EvGetVms l (Inr vms)"
        using asked by (auto simp: just_asked_last)
      then have "EvGetDisk x (Inr d) \<in> set (of_thread j L)" using read True by simp
      from of_thread_set [OF this] have "d \<in> set (disks_read (history L))"
        by (auto simp: disks_read_iff)
      then show ?thesis
        using truth(2) grow l by (fastforce simp: server_guard_def list_all_iff)
    next
      case False
      then have quiet: "\<not> is_lock_event e" using hold by (cases e) auto
      then have hold': "holder L = Some i" using hold by (simp add: holder_other)
      then have "\<not> needs_lock e" using guarded_by_holder [OF step] False by auto
      then have "gained e (dHREF d) = {}" using gained_needs_lock by blast
      moreover have "learnt A L" by (rule next_event.IH [OF truth(1)])
      ultimately show ?thesis
        using grow hold' asked read False by (force simp: learnt_def)
    qed
  qed
qed

text \<open>At a request under the lock, the machines of a disk are among those just asked for.\<close>

lemma learnt_at:
  assumes "interleaved runs (L @ (i, e) # K)" and "truthful A S (history L)" and "needs_lock e"
    and "just_asked d vms (of_thread i L)" and "EvGetDisk x (Inr d) \<in> set (of_thread i L)"
  shows "A (history L) (dHREF d) \<subseteq> rHREF ` set vms"
  using learns [OF interleaved_step(1) [OF assms(1)] assms(2)] guarded_by_holder [OF assms(1,3)] assms(4,5)
  by (auto simp: learnt_def)

lemma exclusive:
  assumes "interleaved runs L" and "truthful A S (history L)" and "\<And>i. guard_ok attach_guard [] (runs i)"
    and "\<not> S x" and "at_most_one (A [] x)"
  shows "at_most_one (A (history L) x)"
  using assms(1,2)
proof (induction rule: interleaved.induct)
  case nothing
  show ?case using assms(5) by simp
next
  case (next_event L i e)
  then have truth: "truthful A S (history L)" "server_guard A S (history L) e"
    by (simp_all add: truthful_snoc)
  have step: "interleaved runs (L @ (i, e) # [])" using next_event.hyps by (simp add: interleaved.next_event)
  have grow: "A (history L @ [e]) x \<subseteq> A (history L) x \<union> gained e x"
    using truth(2) by (simp add: server_guard_def)
  have one: "at_most_one (A (history L) x)" by (rule next_event.IH [OF truth(1)])
  show ?case
  proof (cases "gained e x = {}")
    case True
    then show ?thesis using grow one by (auto intro: at_most_one_mono)
  next
    case False
    then obtain vm r where e: "e = EvAttach vm x r" by (cases e) (auto split: if_splits)
    have "attach_guard (of_thread i L) e" by (rule interleaved_step(3) [OF step assms(3)])
    then obtain d y vms where d: "just_asked d vms (of_thread i L)" "EvGetDisk y (Inr d) \<in> set (of_thread i L)"
        "x = dHREF d" "vms = [] \<or> dShareable d" by (auto simp: e)
    have "EvGetDisk y (Inr d) \<in> set (history L)" by (rule of_thread_set [OF d(2)])
    then have "\<not> dShareable d"
      using truthful_shareable [OF truth(1)] assms(4) d(3) by simp
    moreover have "A (history L) x \<subseteq> rHREF ` set vms"
      using learnt_at [OF step truth(1) _ d(1,2)] by (simp add: e d(3))
    ultimately have "A (history L @ [e]) x \<subseteq> {mHREF vm}"
      using grow d(4) by (auto simp: e)
    then show ?thesis by (auto simp: at_most_one_def)
  qed
qed

end

text \<open>
  C1: controller calls that run at the same time in any interleaving, with a server that
  answers truly: a disk that is not shareable has at most one machine at any point, and at the
  point where a disk is deleted no machine has it. The attachments may shrink at any time;
  that they grow only by this driver's attaches is the assumption that no other client of the
  server attaches its disks.
\<close>

theorem concurrent_exclusive:
  assumes "interleaved (call_threads cs calls env) (L @ K)" and "truthful A S (history L)"
    and "\<And>x. \<not> S x \<Longrightarrow> at_most_one (A [] x)"
  shows "(\<forall>x. \<not> S x \<longrightarrow> at_most_one (A (history L) x)) \<and>
    (\<forall>i href a M. K = (i, EvDeleteDisk href a) # M \<longrightarrow> (\<exists>d l. d \<in> set (disks_read (of_thread i L)) \<and>
       List.find (\<lambda>l. lRel l = RelRemove) (dLink d) = Some l \<and> href = lHREF l \<and> A (history L) (dHREF d) = {}))"
proof (intro conjI allI impI)
  have L: "interleaved (call_threads cs calls env) L" by (rule interleaved_prefix [OF assms(1)])
  show "at_most_one (A (history L) x)" if "\<not> S x" for x
    using service.exclusive [OF L assms(2) call_threads_keep [OF attach_serve] that assms(3) [OF that]] .
  fix i href a M
  assume K: "K = (i, EvDeleteDisk href a) # M"
  have "write_guard (of_thread i L) (EvDeleteDisk href a)"
    using interleaved_step(3) [OF assms(1) [unfolded K]
        call_threads_keep [OF safe_operation.checks [OF safe_serve]]] .
  then obtain d x l where d: "just_asked d [] (of_thread i L)" "EvGetDisk x (Inr d) \<in> set (of_thread i L)"
      "List.find (\<lambda>l. lRel l = RelRemove) (dLink d) = Some l" "href = lHREF l"
    by (auto simp: write_guard.simps)
  have "A (history L) (dHREF d) \<subseteq> {}"
    using service.learnt_at [OF assms(1) [unfolded K] assms(2) _ d(1,2)] by simp
  then show "\<exists>d l. d \<in> set (disks_read (of_thread i L)) \<and>
       List.find (\<lambda>l. lRel l = RelRemove) (dLink d) = Some l \<and> href = lHREF l \<and> A (history L) (dHREF d) = {}"
    using d by (auto simp: disks_read_iff)
qed

text \<open>
  The race of the example: two publish requests for one disk from two nodes. The second has
  looked up the disk before the first attaches it, and takes the lock after it.
\<close>

definition taken_env :: vcd_env where
  "taken_env = live_env\<lparr>q_getVms := (\<lambda>_ _. Inr [ref_vm1])\<rparr>"

definition race_env :: "nat \<Rightarrow> vcd_env" where
  "race_env i = (if i = 0 then live_env else taken_env)"

definition race_calls :: "nat \<Rightarrow> controller_call list" where
  "race_calls i = (if i = 0 then [publish0 ''node1''] else if i = 1 then [publish0 ''node2''] else [])"

definition race_log :: "vcd_event log" where
  "race_log = map (Pair 1) (take 5 live_refused) @ map (Pair 0) (live_before @ EvAttach vm1 ''href1'' (Inr done_task) #
     live_after) @ map (Pair 1) (drop 5 live_refused)"

lemma taken_lookup:
  "sat (GetDiskByNameOrId dm0 ''pvc1'' None ''ovdc'') taken_env h Q =
     Q (Done (Inr disk0)) [EvGetVDC ''ovdc'' (Inr vdc0), EvGetDisk ''href1'' (Inr disk0)]"
proof -
  have "\<not> isUrn ''pvc1''" "\<not> IsUuid ''pvc1''" by code_simp+
  then show ?thesis
    by (simp add: GetDiskByNameOrId_def searchClusterVDC_def govcdGetDisksByNameOrId_def
        getEntityByNameOrIdSkipNonId_def disks_getter_def govcdGetDisksByName_def
        wp taken_env_def live_env_def one_disk_env_def vdc0_def dm0_def)
qed

lemma taken_env_simps:
  "q_refreshToken taken_env h = Inr ()" "q_getVms taken_env h l = Inr [ref_vm1]"
  "q_searchVM taken_env h n a z =
     Inr (if n = ''node1'' then vm1 else vm1\<lparr>mHREF := ''vm2'', mName := ''node2''\<rparr>)"
  "q_getDisk taken_env h i = Inr disk0" "q_rde taken_env h = Inr ()"
  by (simp_all add: taken_env_def live_env_simps)

lemma taken_attach:
  "sat (AttachVolume dm0 (vm1\<lparr>mHREF := ''vm2'', mName := ''node2''\<rparr>) (Some disk0)) taken_env h Q =
     Q (Done (Inl (Errorf ''cannot attach disk since disk is not shareable and VMs are attached'' [])))
       [EvLock, EvGetVms vms0 (Inr [ref_vm1]), EvUnlock]"
proof -
  have "\<not> dShareable disk0" by (simp_all add: disk0_def zero_disk_def)
  then show ?thesis
    by (simp add: AttachVolume_def wp vcd_calls taken_env_simps vms_link_disk0 ref_vm1_def)
qed

lemma race_threads:
  "call_threads cs0 race_calls race_env 0 = live_before @ EvAttach vm1 ''href1'' (Inr done_task) # live_after"
  "call_threads cs0 race_calls race_env 1 = live_refused"
  "2 \<le> i \<Longrightarrow> call_threads cs0 race_calls race_env i = []"
proof -
  have "sat (controller_step cs0 (publish0 ''node2'')) taken_env [] (\<lambda>r es. r = Done () \<and> es = live_refused)"
    by (simp add: publish0_def ControllerPublishVolume_def attachToNode_def live_refused_def
      wp taken_lookup taken_attach taken_env_simps dm0_simps Let_def)
  then have "sat (serve cs0 [publish0 ''node2'']) taken_env [] (\<lambda>r es. es = live_refused)"
    by (simp add: sat_bind sat_ret) (rule sat_mono, simp, simp)
  then show "call_threads cs0 race_calls race_env 1 = live_refused"
    by (simp add: call_threads_def race_calls_def race_env_def sat_iff)
  have "sat (serve cs0 [publish0 ''node1'']) live_env [] (\<lambda>r es. es =
      live_before @ EvAttach vm1 ''href1'' (Inr done_task) # live_after)"
    by (simp add: sat_bind sat_ret live_first)
  then show "call_threads cs0 race_calls race_env 0 = live_before @ EvAttach vm1 ''href1'' (Inr done_task) # live_after"
    by (simp add: call_threads_def race_calls_def race_env_def sat_iff)
qed (simp add: call_threads_def race_calls_def run_simps)

lemma race_runs: "interleaved (call_threads cs0 race_calls race_env) race_log"
proof -
  have "goes_on (call_threads cs0 race_calls race_env) [] race_log"
    by (simp add: race_log_def race_threads race_threads(2) [unfolded One_nat_def] live_before_def live_after_def
        live_refused_def holder_def)
  then show ?thesis
    using interleaved_goes_on [OF interleaved.nothing] by fastforce
qed

lemma race_history:
  "history race_log = take 5 live_refused @ live_before @ EvAttach vm1 ''href1'' (Inr done_task) #
     live_after @ drop 5 live_refused"
  by (simp add: race_log_def)

lemma live_guard:
  "server_guard live_attachments S pre e \<longleftrightarrow>
     (is_attach e \<longrightarrow> list_ex is_attach pre \<or> ''vm1'' \<in> gained e ''href1'') \<and> answers_truly live_attachments S pre e"
  by (auto simp: server_guard_def live_attachments_def)

lemma race_truthful: "truthful live_attachments (\<lambda>_. False) (history race_log)"
proof -
  have "\<not> dShareable disk0" by (simp add: disk0_def zero_disk_def)
  then show ?thesis
    unfolding race_history
    by (simp add: truthful_def live_guard live_before_def live_after_def live_refused_def
        live_attachments_def vms_link_disk0 dm0_simps ref_vm1_def vm1_def)
qed

theorem concurrent_exclusive_witness:
  "at_most_one (live_attachments (history race_log) ''href1'') \<and>
   live_attachments (history race_log) ''href1'' = {''vm1''}"
proof -
  have "interleaved (call_threads cs0 race_calls race_env) (race_log @ [])"
    using race_runs by simp
  moreover have "at_most_one (live_attachments [] x)" for x
    by (simp add: live_attachments_def at_most_one_def)
  ultimately have "at_most_one (live_attachments (history race_log) ''href1'')"
    using concurrent_exclusive [OF _ race_truthful, THEN conjunct1] by blast
  moreover have "live_attachments (history race_log) ''href1'' = {''vm1''}"
    unfolding race_history by (simp add: live_attachments_def)
  ultimately show ?thesis by simp
qed

section \<open>Every call returns\<close>

text \<open>
  C7: calls that run at the same time never block each other for good: from every point that an
  execution of finitely many calls can reach, it can go on until every call has returned, and
  it cannot go on longer than all their events together; while a call has not returned, some
  call can make its next step; and of two calls, one is outside the critical sections.
\<close>

theorem concurrent_calls_return:
  assumes "interleaved (call_threads cs calls env) L" and "\<And>i. n \<le> i \<Longrightarrow> calls i = []"
  shows "(\<exists>K. interleaved (call_threads cs calls env) (L @ K) \<and>
      (\<forall>i. of_thread i (L @ K) = call_threads cs calls env i)) \<and>
    length L \<le> (\<Sum>i<n. length (call_threads cs calls env i)) \<and>
    ((\<exists>i. of_thread i L \<noteq> call_threads cs calls env i) \<longrightarrow>
      (\<exists>j e. interleaved (call_threads cs calls env) (L @ [(j, e)]))) \<and>
    (\<forall>i j. held (of_thread i L) \<and> held (of_thread j L) \<longrightarrow> i = j)"
proof -
  have none: "call_threads cs calls env i = []" if "n \<le> i" for i
    using assms(2) [OF that] by (simp add: call_threads_def run_simps)
  show ?thesis
    using service.all_return [OF assms(1) none] log_length [OF assms(1) none]
      service.can_go_on [OF assms(1)] service.exclusion [OF assms(1)] by blast
qed

theorem concurrent_calls_return_witness:
  "(\<exists>K. interleaved (call_threads cs0 race_calls race_env) (take 12 race_log @ K) \<and>
      (\<forall>i. of_thread i (take 12 race_log @ K) = call_threads cs0 race_calls race_env i)) \<and>
   holder (take 12 race_log) = Some 0"
proof -
  have "interleaved (call_threads cs0 race_calls race_env) (take 12 race_log)"
    using interleaved_prefix [of _ "take 12 race_log" "drop 12 race_log"] race_runs by simp
  moreover have "race_calls i = []" if "2 \<le> i" for i
    using that by (simp add: race_calls_def)
  ultimately have "\<exists>K. interleaved (call_threads cs0 race_calls race_env) (take 12 race_log @ K) \<and>
      (\<forall>i. of_thread i (take 12 race_log @ K) = call_threads cs0 race_calls race_env i)"
    using concurrent_calls_return [of cs0 race_calls race_env "take 12 race_log" 2] by blast
  moreover have "holder (take 12 race_log) = Some 0"
    by (simp add: race_log_def live_before_def live_refused_def holder_def)
  ultimately show ?thesis by blast
qed

end
