(* ===== verification/AttachmentMachine.thy ===== *)
theory AttachmentMachine
  imports ConcurrentCalls
begin

text \<open>
  The abstract specification of attachments, and the proof that controller calls at the same
  time implement it. The abstract machine knows for each disk the machines that have it, and
  attaches and detaches in one step each; the driver asks, decides and requests, in between
  other calls.
\<close>

section \<open>The abstract machine\<close>

type_synonym attachments = "string \<Rightarrow> string set"

text \<open>\<open>S\<close>: the disks that are shareable.\<close>

inductive att_step :: "(string \<Rightarrow> bool) \<Rightarrow> attachments \<Rightarrow> attachments \<Rightarrow> bool" for S where
  att_attach: "vm \<notin> a x \<Longrightarrow> a x = {} \<or> S x \<Longrightarrow> att_step S a (a(x := insert vm (a x)))"
| att_detach: "vm \<in> a x \<Longrightarrow> att_step S a (a(x := a x - {vm}))"

definition att_ok :: "(string \<Rightarrow> bool) \<Rightarrow> attachments \<Rightarrow> bool" where
  "att_ok S a \<longleftrightarrow> (\<forall>x. S x \<or> at_most_one (a x))"

lemma att_step_ok: "att_step S a b \<Longrightarrow> att_ok S a \<Longrightarrow> att_ok S b"
  by (induction rule: att_step.induct) (auto simp: att_ok_def at_most_one_def)

section \<open>A server that only this process changes\<close>

text \<open>
  An attach or a detach is done or not done, whatever its answer; nothing else changes the
  attachments; and the answers are true.
\<close>

fun done_by :: "vcd_event \<Rightarrow> attachments \<Rightarrow> attachments" where
  "done_by (EvAttach vm href r) a = a(href := insert (mHREF vm) (a href))"
| "done_by (EvDetach vm href r) a = a(href := a href - {mHREF vm})"
| "done_by e a = a"

definition exact_guard :: "(vcd_event list \<Rightarrow> attachments) \<Rightarrow> (string \<Rightarrow> bool) \<Rightarrow>
    vcd_event list \<Rightarrow> vcd_event \<Rightarrow> bool" where
  "exact_guard A S pre e \<longleftrightarrow>
     (A (pre @ [e]) = A pre \<or> A (pre @ [e]) = done_by e (A pre)) \<and> answers_truly A S pre e"

lemma exact_truthful:
  assumes "guard_ok (exact_guard A S) [] es"
  shows "truthful A S es"
proof -
  have "A (pre @ [e]) x \<subseteq> A pre x \<union> gained e x" if "exact_guard A S pre e" for pre e x
    using that by (cases e) (auto simp: exact_guard_def split: if_splits)
  then show ?thesis
    using assms unfolding truthful_def guard_ok_split by (auto simp: server_guard_def exact_guard_def)
qed

lemma done_by_quiet: "\<not> needs_lock e \<Longrightarrow> done_by e a = a"
  by (cases e) simp_all

section \<open>The refinement\<close>

text \<open>Under the lock, what the thread has just been told is still the case.\<close>

definition knows :: "(vcd_event list \<Rightarrow> attachments) \<Rightarrow> vcd_event log \<Rightarrow> bool" where
  "knows A L \<longleftrightarrow> (\<forall>i d vms x. holder L = Some i \<longrightarrow> just_asked d vms (of_thread i L) \<longrightarrow>
     EvGetDisk x (Inr d) \<in> set (of_thread i L) \<longrightarrow> A (history L) (dHREF d) = rHREF ` set vms)"

context lock_users
begin

lemma knowing: "interleaved runs L \<Longrightarrow> guard_ok (exact_guard A S) [] (history L) \<Longrightarrow> knows A L"
proof (induction rule: interleaved.induct)
  case nothing
  show ?case by (simp add: knows_def)
next
  case (next_event L j e)
  then have truth: "guard_ok (exact_guard A S) [] (history L)" "exact_guard A S (history L) e"
    by simp_all
  have step: "interleaved runs (L @ (j, e) # [])" using next_event.hyps by (simp add: interleaved.next_event)
  show ?case
    unfolding knows_def
  proof (intro allI impI)
    fix i d vms x
    assume hold: "holder (L @ [(j, e)]) = Some i"
      and asked: "just_asked d vms (of_thread i (L @ [(j, e)]))"
      and read: "EvGetDisk x (Inr d) \<in> set (of_thread i (L @ [(j, e)]))"
    show "A (history (L @ [(j, e)])) (dHREF d) = rHREF ` set vms"
    proof (cases "i = j")
      case True
      then obtain l where l: "vms_link d = Some l" "e = EvGetVms l (Inr vms)"
        using asked by (auto simp: just_asked_last)
      then have "EvGetDisk x (Inr d) \<in> set (of_thread j L)" using read True by simp
      from of_thread_set [OF this] have "d \<in> set (disks_read (history L))"
        by (auto simp: disks_read_iff)
      then show ?thesis
        using truth(2) l by (auto simp: exact_guard_def list_all_iff)
    next
      case False
      then have quiet: "\<not> is_lock_event e" using hold by (cases e) auto
      then have hold': "holder L = Some i" using hold by (simp add: holder_other)
      then have "\<not> needs_lock e" using guarded_by_holder [OF step] False by auto
      then have "A (history L @ [e]) = A (history L)"
        using truth(2) done_by_quiet by (auto simp: exact_guard_def)
      moreover have "knows A L" by (rule next_event.IH [OF truth(1)])
      ultimately show ?thesis
        using hold' asked read False by (auto simp: knows_def)
    qed
  qed
qed

lemma known_at:
  assumes "interleaved runs (L @ (i, e) # K)" and "guard_ok (exact_guard A S) [] (history L)" and "needs_lock e"
    and "just_asked d vms (of_thread i L)" and "EvGetDisk x (Inr d) \<in> set (of_thread i L)"
  shows "A (history L) (dHREF d) = rHREF ` set vms"
  using knowing [OF interleaved_step(1) [OF assms(1)] assms(2)] guarded_by_holder [OF assms(1,3)] assms(4,5)
  by (auto simp: knows_def)

end

lemma just_asked_same: "just_asked d vms es \<Longrightarrow> just_asked d' vms' es \<Longrightarrow> vms = vms'"
  by (cases es rule: rev_cases) (auto simp: just_asked_def)

lemma truthful_shareable_read:
  assumes "truthful A S (history L)" and "EvGetDisk x (Inr d) \<in> set (of_thread i L)"
  shows "dShareable d = S (dHREF d)"
  by (rule truthful_shareable [OF assms(1) of_thread_set [OF assms(2)]])

text \<open>One event of a controller thread is a step of the abstract machine, or none.\<close>

lemma call_step:
  assumes "interleaved (call_threads cs calls env) (L @ (i, e) # K)"
    and "guard_ok (exact_guard A S) [] (history L)" and "exact_guard A S (history L) e"
  shows "(att_step S)\<^sup>=\<^sup>= (A (history L)) (A (history L @ [e]))"
proof (cases "A (history L @ [e]) = A (history L)")
  case False
  then have change: "A (history L @ [e]) = done_by e (A (history L))"
    using assms(3) by (auto simp: exact_guard_def)
  have checked: "write_guard (of_thread i L) e" and free: "attach_guard (of_thread i L) e"
    by (rule interleaved_step(3) [OF assms(1) call_threads_keep],
        rule safe_operation.checks [OF safe_serve] attach_serve)+
  show ?thesis
  proof (cases e)
    case (EvAttach vm href r)
    obtain d x vms where d: "just_asked d vms (of_thread i L)" "EvGetDisk x (Inr d) \<in> set (of_thread i L)"
        "href = dHREF d" "vms = [] \<or> dShareable d"
      using free EvAttach by auto
    have new: "mHREF vm \<notin> rHREF ` set vms"
      using checked EvAttach just_asked_same [OF d(1)] by (auto simp: write_guard.simps)
    have "A (history L) href = rHREF ` set vms"
      using service.known_at [OF assms(1,2) _ d(1,2)] EvAttach d(3) by simp
    moreover have "dShareable d = S href"
      using truthful_shareable_read [OF exact_truthful [OF assms(2)] d(2)] d(3) by simp
    ultimately have "att_step S (A (history L)) ((A (history L))(href := insert (mHREF vm) (A (history L) href)))"
      using new d(4) by (intro att_attach) auto
    then show ?thesis using change EvAttach by simp
  next
    case (EvDetach vm href r)
    obtain d x vms where d: "just_asked d vms (of_thread i L)" "EvGetDisk x (Inr d) \<in> set (of_thread i L)"
        "href = dHREF d" "mHREF vm \<in> rHREF ` set vms"
      using checked EvDetach by (auto simp: write_guard.simps)
    have "A (history L) href = rHREF ` set vms"
      using service.known_at [OF assms(1,2) _ d(1,2)] EvDetach d(3) by simp
    then have "att_step S (A (history L)) ((A (history L))(href := A (history L) href - {mHREF vm}))"
      using d(4) by (intro att_detach) simp
    then show ?thesis using change EvDetach by simp
  qed (use change False in simp_all)
qed simp

text \<open>
  C5: controller calls at the same time, on a server whose attachments only this process
  changes, implement the abstract machine: every event of every interleaving is a step of the
  machine, which attaches a machine that does not have the disk, and only to a disk that is
  free or shareable, and detaches a machine that has it, or leaves the attachments as they
  are; so they are reached from those at the start by such steps.
\<close>

theorem calls_refine_attachments:
  assumes "interleaved (call_threads cs calls env) L" and "guard_ok (exact_guard A S) [] (history L)"
  shows "guard_ok (\<lambda>pre e. (att_step S)\<^sup>=\<^sup>= (A pre) (A (pre @ [e]))) [] (history L) \<and>
    (att_step S)\<^sup>*\<^sup>* (A []) (A (history L))"
  using assms
proof (induction rule: interleaved.induct)
  case (next_event L i e)
  then have "interleaved (call_threads cs calls env) (L @ (i, e) # [])"
    by (simp add: interleaved.next_event)
  from call_step [OF this, of A S] next_event
  have "(att_step S)\<^sup>=\<^sup>= (A (history L)) (A (history L @ [e]))" "(att_step S)\<^sup>*\<^sup>* (A []) (A (history L))"
    "guard_ok (\<lambda>pre e. (att_step S)\<^sup>=\<^sup>= (A pre) (A (pre @ [e]))) [] (history L)" by simp_all
  then show ?case by (auto intro: rtranclp.rtrancl_into_rtrancl)
qed simp

text \<open>The race of theory ConcurrentCalls, step by step of the abstract machine.\<close>

lemma live_exact:
  "exact_guard live_attachments S pre e \<longleftrightarrow>
     (is_attach e \<longrightarrow> list_ex is_attach pre \<or> done_by e (\<lambda>_. {}) = (\<lambda>x. if x = ''href1'' then {''vm1''} else {})) \<and>
     answers_truly live_attachments S pre e"
proof -
  have "live_attachments (pre @ [e]) = live_attachments pre" if "\<not> is_attach e \<or> list_ex is_attach pre"
    using that by (auto simp: live_attachments_def fun_eq_iff)
  moreover have "live_attachments pre = (\<lambda>_. {})" "live_attachments (pre @ [e]) = (\<lambda>x. if x = ''href1'' then {''vm1''} else {})"
    if "is_attach e" "\<not> list_ex is_attach pre"
    using that by (auto simp: live_attachments_def fun_eq_iff)
  moreover have "(\<lambda>x. if x = ''href1'' then {''vm1''} else {}) \<noteq> (\<lambda>_. {})"
    by (metis insert_not_empty)
  ultimately show ?thesis
    unfolding exact_guard_def by (cases "is_attach e \<and> \<not> list_ex is_attach pre") auto
qed

lemma race_exact: "guard_ok (exact_guard live_attachments (\<lambda>_. False)) [] (history race_log)"
proof -
  have "\<not> dShareable disk0" by (simp add: disk0_def zero_disk_def)
  then show ?thesis
    unfolding race_history
    by (simp add: live_exact live_before_def live_after_def live_refused_def fun_eq_iff
        live_attachments_def vms_link_disk0 dm0_simps ref_vm1_def vm1_def)
qed

theorem calls_refine_attachments_witness:
  "(att_step (\<lambda>_. False))\<^sup>*\<^sup>* (live_attachments []) (live_attachments (history race_log)) \<and>
   live_attachments [] ''href1'' = {} \<and> live_attachments (history race_log) ''href1'' = {''vm1''}"
proof -
  have "live_attachments [] ''href1'' = {}" "live_attachments (history race_log) ''href1'' = {''vm1''}"
    unfolding race_history by (simp_all add: live_attachments_def)
  then show ?thesis
    using calls_refine_attachments [OF race_runs race_exact] by blast
qed

end
