(* ===== verification/HostApi.thy ===== *)
theory HostApi
  imports Prelude GoStrings "HOL-Library.Word"
begin

text \<open>
  The node's operating system as the node service (pkg/csi/node.go) and the endpoint parser
  (pkg/util/util.go) use it: files, directory walks, mounts (gofsutil, mount-utils), the
  scsi_id program and statfs. Each call is answered by the environment from the history of
  calls, so an environment can be any host. The path functions of Go's standard library are
  written out.
\<close>

section \<open>Paths\<close>

text \<open>
  \<open>path.Clean\<close>: empty and dot components go, a dot-dot removes the component before it, and
  at the root it is dropped. The accumulator holds the components so far, the last one first.
\<close>

fun clean_parts :: "bool \<Rightarrow> string list \<Rightarrow> string list \<Rightarrow> string list" where
  "clean_parts rooted acc [] = rev acc"
| "clean_parts rooted acc (p # ps) =
     (if p = [] \<or> p = ''.'' then clean_parts rooted acc ps
      else if p = ''..'' then
        (case acc of
           [] \<Rightarrow> if rooted then clean_parts rooted [] ps else clean_parts rooted [''..''] ps
         | q # qs \<Rightarrow> if q = ''..'' then clean_parts rooted (''..'' # q # qs) ps
             else clean_parts rooted qs ps)
      else clean_parts rooted (p # acc) ps)"

definition Clean :: "string \<Rightarrow> string" where
  "Clean path =
     (let rooted = has_prefix path ''/'';
          s = join_with (CHR ''/'') (clean_parts rooted [] (split_on (CHR ''/'') path)) in
      if rooted then CHR ''/'' # s else if s = [] then ''.'' else s)"

text \<open>\<open>filepath.Dir\<close>: what comes before the last slash, that slash included, cleaned.\<close>

definition Dir :: "string \<Rightarrow> string" where
  "Dir path = Clean (rev (dropWhile (\<lambda>c. c \<noteq> CHR ''/'') (rev path)))"

text \<open>\<open>path.Join\<close>: the elements that are not empty, joined with slashes and cleaned.\<close>

definition Join :: "string list \<Rightarrow> string" where
  "Join elems = (let es = filter (\<lambda>e. e \<noteq> []) elems in
     if es = [] then [] else Clean (join_with (CHR ''/'') es))"

definition proper_part :: "string \<Rightarrow> bool" where
  "proper_part p \<longleftrightarrow> p \<noteq> [] \<and> p \<noteq> ''.'' \<and> p \<noteq> ''..''"

lemma clean_parts_id: "list_all proper_part ps \<Longrightarrow> clean_parts rooted acc ps = rev acc @ ps"
  by (induction ps arbitrary: acc) (simp_all add: proper_part_def)

lemma clean_parts_rooted:
  "rooted \<Longrightarrow> list_all proper_part acc \<Longrightarrow> list_all proper_part (clean_parts rooted acc ps)"
proof (induction ps arbitrary: acc)
  case Nil
  then show ?case by simp
next
  case (Cons p ps)
  then show ?case
    by (cases acc) (simp_all add: proper_part_def)
qed

section \<open>Calls to the host\<close>

datatype stat_reply = IsDirectory | NotDirectory | NotExist | StatError string
datatype remove_reply = Removed | RemoveNotExist | RemoveError string
datatype file_kind = DirEntry | SymlinkEntry | OtherEntry

text \<open>An entry that a walk reports: with an error, or with the file's path, name and kind.\<close>

datatype walk_entry = WalkError | WalkEntry (wPath: string) (wName: string) (wKind: file_kind)

record mount_info =
  mntPath :: string
  mntOpts :: "string list"

text \<open>The fields of statfs(2); the counters are unsigned, the block size is signed.\<close>

record statfs =
  Bavail :: "64 word"
  Bsize :: "64 word"
  Blocks :: "64 word"
  Files :: "64 word"
  Ffree :: "64 word"

record url =
  urlScheme :: string
  urlHost :: string
  urlPath :: string

datatype host_event =
    EvStat string stat_reply
  | EvMkdirAll string nat "unit res"
  | EvWriteFile string string "unit res"
  | EvCreateFile string "unit res"
  | EvCloseFile string "unit res"
  | EvRemove string remove_reply
  | EvWalk string "walk_entry list"
  | EvEvalSymlinks string "string res"
  | EvScsiId string "string res"
  | EvDevMounts string "mount_info list res"
  | EvMounts "mount_info list res"
  | EvFormatAndMount string string string "string list" "unit res"
  | EvBindMount string string "string list" "unit res"
  | EvUnmount string "unit res"
  | EvStatfs string "statfs res"
  | EvDeviceFromMount string "string res"
  | EvResize string string "unit res"
  | EvReadFile string "string res"
  | EvSleep nat
  | EvListen string string "unit res"
  | EvServe "unit res"
  | EvStopServer

type_synonym host_history = "host_event list"

text \<open>
  A walk is answered with all its entries at once. An entry's own later calls come after it
  in the history; in an environment that answers every call this loses no behaviour.
\<close>

record host_env =
  h_stat :: "host_history \<Rightarrow> string \<Rightarrow> stat_reply"
  h_mkdirAll :: "host_history \<Rightarrow> string \<Rightarrow> nat \<Rightarrow> unit res"
  h_writeFile :: "host_history \<Rightarrow> string \<Rightarrow> string \<Rightarrow> unit res"
  h_createFile :: "host_history \<Rightarrow> string \<Rightarrow> unit res"
  h_closeFile :: "host_history \<Rightarrow> string \<Rightarrow> unit res"
  h_remove :: "host_history \<Rightarrow> string \<Rightarrow> remove_reply"
  h_walk :: "host_history \<Rightarrow> string \<Rightarrow> walk_entry list"
  h_evalSymlinks :: "host_history \<Rightarrow> string \<Rightarrow> string res"
  h_scsiId :: "host_history \<Rightarrow> string \<Rightarrow> string res"
  h_devMounts :: "host_history \<Rightarrow> string \<Rightarrow> mount_info list res"
  h_mounts :: "host_history \<Rightarrow> mount_info list res"
  h_formatAndMount :: "host_history \<Rightarrow> string \<Rightarrow> string \<Rightarrow> string \<Rightarrow> string list \<Rightarrow> unit res"
  h_bindMount :: "host_history \<Rightarrow> string \<Rightarrow> string \<Rightarrow> string list \<Rightarrow> unit res"
  h_unmount :: "host_history \<Rightarrow> string \<Rightarrow> unit res"
  h_statfs :: "host_history \<Rightarrow> string \<Rightarrow> statfs res"
  h_deviceFromMount :: "host_history \<Rightarrow> string \<Rightarrow> string res"
  h_resize :: "host_history \<Rightarrow> string \<Rightarrow> string \<Rightarrow> unit res"
  h_readFile :: "host_history \<Rightarrow> string \<Rightarrow> string res"
  h_listen :: "host_history \<Rightarrow> string \<Rightarrow> string \<Rightarrow> unit res"
  h_serve :: "host_history \<Rightarrow> unit res"
  h_getenv :: "string \<Rightarrow> string"
  h_urlParse :: "string \<Rightarrow> url res"  \<comment> \<open>url.Parse\<close>

type_synonym 'a host = "(host_env, host_event, 'a) io"

definition Stat :: "string \<Rightarrow> stat_reply host" where
  "Stat path = call (\<lambda>env h. h_stat env h path) (EvStat path)"

definition MkdirAll :: "string \<Rightarrow> nat \<Rightarrow> unit res host" where
  "MkdirAll path mode = call (\<lambda>env h. h_mkdirAll env h path mode) (EvMkdirAll path mode)"

definition WriteFile :: "string \<Rightarrow> string \<Rightarrow> unit res host" where
  "WriteFile path bytes = call (\<lambda>env h. h_writeFile env h path bytes) (EvWriteFile path bytes)"

definition CreateFile :: "string \<Rightarrow> unit res host" where
  "CreateFile path = call (\<lambda>env h. h_createFile env h path) (EvCreateFile path)"

definition CloseFile :: "string \<Rightarrow> unit res host" where
  "CloseFile path = call (\<lambda>env h. h_closeFile env h path) (EvCloseFile path)"

definition Remove :: "string \<Rightarrow> remove_reply host" where
  "Remove path = call (\<lambda>env h. h_remove env h path) (EvRemove path)"

definition Walk :: "string \<Rightarrow> walk_entry list host" where
  "Walk root = call (\<lambda>env h. h_walk env h root) (EvWalk root)"

definition EvalSymlinks :: "string \<Rightarrow> string res host" where
  "EvalSymlinks path = call (\<lambda>env h. h_evalSymlinks env h path) (EvEvalSymlinks path)"

definition ScsiId :: "string \<Rightarrow> string res host" where
  "ScsiId device = call (\<lambda>env h. h_scsiId env h device) (EvScsiId device)"

definition GetDevMounts :: "string \<Rightarrow> mount_info list res host" where
  "GetDevMounts device = call (\<lambda>env h. h_devMounts env h device) (EvDevMounts device)"

definition GetMounts :: "mount_info list res host" where
  "GetMounts = call (\<lambda>env h. h_mounts env h) EvMounts"

definition FormatAndMount :: "string \<Rightarrow> string \<Rightarrow> string \<Rightarrow> string list \<Rightarrow> unit res host" where
  "FormatAndMount device dir fs opts =
     call (\<lambda>env h. h_formatAndMount env h device dir fs opts) (EvFormatAndMount device dir fs opts)"

definition BindMount :: "string \<Rightarrow> string \<Rightarrow> string list \<Rightarrow> unit res host" where
  "BindMount source target opts =
     call (\<lambda>env h. h_bindMount env h source target opts) (EvBindMount source target opts)"

definition Unmount :: "string \<Rightarrow> unit res host" where
  "Unmount target = call (\<lambda>env h. h_unmount env h target) (EvUnmount target)"

definition Statfs :: "string \<Rightarrow> statfs res host" where
  "Statfs path = call (\<lambda>env h. h_statfs env h path) (EvStatfs path)"

definition GetDeviceNameFromMount :: "string \<Rightarrow> string res host" where
  "GetDeviceNameFromMount path = call (\<lambda>env h. h_deviceFromMount env h path) (EvDeviceFromMount path)"

definition ResizeFs :: "string \<Rightarrow> string \<Rightarrow> unit res host" where
  "ResizeFs device path = call (\<lambda>env h. h_resize env h device path) (EvResize device path)"

definition ReadFile :: "string \<Rightarrow> string res host" where
  "ReadFile path = call (\<lambda>env h. h_readFile env h path) (EvReadFile path)"

definition Sleep :: "nat \<Rightarrow> unit host" where
  "Sleep seconds = call (\<lambda>env h. ()) (\<lambda>_. EvSleep seconds)"

definition Listen :: "string \<Rightarrow> string \<Rightarrow> unit res host" where
  "Listen scheme addr = call (\<lambda>env h. h_listen env h scheme addr) (EvListen scheme addr)"

definition Serve :: "unit res host" where
  "Serve = call (\<lambda>env h. h_serve env h) EvServe"

definition StopServer :: "unit host" where
  "StopServer = call (\<lambda>env h. ()) (\<lambda>_. EvStopServer)"

definition Getenv :: "string \<Rightarrow> string host" where
  "Getenv name = pick (\<lambda>env h. h_getenv env name)"

definition UrlParse :: "string \<Rightarrow> url res host" where
  "UrlParse ep = pick (\<lambda>env h. h_urlParse env ep)"

lemmas host_calls = Stat_def MkdirAll_def WriteFile_def CreateFile_def CloseFile_def Remove_def
  Walk_def EvalSymlinks_def ScsiId_def GetDevMounts_def GetMounts_def FormatAndMount_def
  BindMount_def Unmount_def Statfs_def GetDeviceNameFromMount_def ResizeFs_def ReadFile_def
  Sleep_def Listen_def Serve_def StopServer_def Getenv_def UrlParse_def

text \<open>The events that change the mount table.\<close>

fun is_mount_event :: "host_event \<Rightarrow> bool" where
  "is_mount_event (EvFormatAndMount _ _ _ _ _) = True"
| "is_mount_event (EvBindMount _ _ _ _) = True"
| "is_mount_event (EvUnmount _ _) = True"
| "is_mount_event _ = False"

text \<open>A host on which every file and device is missing; the examples change some of its answers.\<close>

definition idle_host :: host_env where
  "idle_host = \<lparr>h_stat = (\<lambda>_ _. NotExist), h_mkdirAll = (\<lambda>_ _ _. Inr ()),
     h_writeFile = (\<lambda>_ _ _. Inr ()), h_createFile = (\<lambda>_ _. Inr ()), h_closeFile = (\<lambda>_ _. Inr ()),
     h_remove = (\<lambda>_ _. RemoveNotExist), h_walk = (\<lambda>_ _. []),
     h_evalSymlinks = (\<lambda>_ _. Inl (ApiError ''no'' False)), h_scsiId = (\<lambda>_ _. Inl (ApiError ''no'' False)),
     h_devMounts = (\<lambda>_ _. Inr []), h_mounts = (\<lambda>_. Inr []),
     h_formatAndMount = (\<lambda>_ _ _ _ _. Inr ()), h_bindMount = (\<lambda>_ _ _ _. Inr ()),
     h_unmount = (\<lambda>_ _. Inr ()), h_statfs = (\<lambda>_ _. Inl (ApiError ''no'' False)),
     h_deviceFromMount = (\<lambda>_ _. Inl (ApiError ''no'' False)), h_resize = (\<lambda>_ _ _. Inr ()),
     h_readFile = (\<lambda>_ _. Inl (ApiError ''no'' False)), h_listen = (\<lambda>_ _ _. Inr ()),
     h_serve = (\<lambda>_. Inr ()), h_getenv = (\<lambda>_. []), h_urlParse = (\<lambda>_. Inl (ApiError ''no'' False))\<rparr>"

end
