(* ===== verification/Node.thy ===== *)
theory Node
  imports HostApi Controller
begin

text \<open>
  The CSI node service (pkg/csi/node.go) and CollectMountOptions (pkg/util/util.go): stage and
  unstage a volume on the host, publish it to a pod and take it back, expand its file system,
  and the statistics. A nil request, map or message is None.
\<close>

section \<open>The service and its requests\<close>

definition maxVolumesPerNode :: nat where "maxVolumesPerNode = 15"
definition DevDiskPath :: string where "DevDiskPath = ''/dev/disk/by-path''"
definition ScsiHostPath :: string where "ScsiHostPath = ''/sys/class/scsi_host''"
definition ScsiBlockPathPrefix :: string where "ScsiBlockPathPrefix = ''/sys/class/block''"
definition ScsiBlockPathSuffix :: string where "ScsiBlockPathSuffix = ''device/rescan''"
definition fsTypeXFS :: string where "fsTypeXFS = ''xfs''"

record node_service =
  nsDriver :: vcd_driver
  nsNodeID :: string

definition NewNodeService :: "vcd_driver \<Rightarrow> string \<Rightarrow> node_service" where
  "NewNodeService driver nodeID = \<lparr>nsDriver = driver, nsNodeID = nodeID\<rparr>"

type_synonym context_map = "(string \<times> string) list"

record stage_request =
  srVolumeId :: string
  srPublishContext :: "context_map option"
  srStagingTargetPath :: string
  srVolumeCapability :: "volume_capability option"
  srVolumeContext :: "context_map option"

record unstage_request =
  urVolumeId :: string
  urStagingTargetPath :: string

record node_publish_request =
  nprVolumeId :: string
  nprPublishContext :: "context_map option"
  nprStagingTargetPath :: string
  nprTargetPath :: string
  nprVolumeCapability :: "volume_capability option"
  nprVolumeContext :: "context_map option"

record node_unpublish_request =
  nurVolumeId :: string
  nurTargetPath :: string

record node_expand_request =
  nerVolumeId :: string
  nerVolumePath :: string
  nerStagingTargetPath :: string
  nerVolumeCapability :: "volume_capability option"

section \<open>Mount options\<close>

definition CollectMountOptions :: "string \<Rightarrow> string list \<Rightarrow> string list" where
  "CollectMountOptions fsType mntFlags =
     (if fsType = fsTypeXFS then mntFlags @ [''nouuid''] else mntFlags)"

definition isVolumeReadOnly :: "volume_capability \<Rightarrow> bool" where
  "isVolumeReadOnly c = (let accessMode = (case AccessMode c of None \<Rightarrow> MODE_UNKNOWN | Some m \<Rightarrow> m) in
     accessMode = SINGLE_NODE_READER_ONLY \<or> accessMode = MULTI_NODE_READER_ONLY)"

section \<open>Files and mounts\<close>

definition checkIfDirExists :: "string \<Rightarrow> bool res host" where
  "checkIfDirExists path = bind (Stat path) (\<lambda>s. case s of
     IsDirectory \<Rightarrow> ok True
   | NotDirectory \<Rightarrow> fail (Errorf ''path is not a dir'' [])
   | NotExist \<Rightarrow> ok False
   | StatError m \<Rightarrow> fail (Errorf ''unable to get stat'' [ApiError m False]))"

definition checkIfPathExists :: "string \<Rightarrow> bool res host" where
  "checkIfPathExists path = bind (Stat path) (\<lambda>s. case s of
     NotExist \<Rightarrow> ok False
   | StatError m \<Rightarrow> fail (Errorf ''unable to get stat'' [ApiError m False])
   | _ \<Rightarrow> ok True)"

definition checkIfPathMounted :: "string \<Rightarrow> bool res host" where
  "checkIfPathMounted mountDir = attempt GetMounts
     (\<lambda>e. fail (Errorf ''unable to get mounts of node'' []))
     (\<lambda>mounts. ok (mountDir \<in> set (map mntPath mounts)))"

definition mkdir :: "string \<Rightarrow> unit res host" where
  "mkdir path = bind (Stat path) (\<lambda>s. case s of
     IsDirectory \<Rightarrow> ok ()
   | NotDirectory \<Rightarrow> fail (Errorf ''path exists but is not a directory'' [])
   | StatError m \<Rightarrow> fail (Errorf ''unable to check stats of path'' [ApiError m False])
   | NotExist \<Rightarrow> attempt (MkdirAll path 493)
       (\<lambda>e. fail (Errorf ''unable to recursively create dir'' [e])) (\<lambda>_. ok ()))"

definition rmdir :: "string \<Rightarrow> unit res host" where
  "rmdir path = bind (Remove path) (\<lambda>r. case r of
     Removed \<Rightarrow> ok ()
   | RemoveNotExist \<Rightarrow> ok ()
   | RemoveError m \<Rightarrow> fail (ApiError m False))"

text \<open>Whether the device is mounted, and whether it is mounted there with the mode.\<close>

definition isVolumeMountedAsExpected :: "string \<Rightarrow> string \<Rightarrow> string \<Rightarrow> (bool \<times> bool) res host" where
  "isVolumeMountedAsExpected devicePath mountDir mountMode = attempt (GetDevMounts devicePath)
     (\<lambda>e. fail (Errorf ''unable to check if device is mounted'' [e]))
     (\<lambda>mountedDevs.
        if mountedDevs = [] then ok (False, False)
        else (case List.find (\<lambda>m. mntPath m = mountDir) mountedDevs of
            None \<Rightarrow> ok (True, False)
          | Some m \<Rightarrow> ok (True, mountMode \<in> set (mntOpts m))))"

section \<open>Devices\<close>

text \<open>The bytes that the code writes: \<open>- - -\<close> to the scan file of each SCSI host.\<close>

fun rescanHosts :: "walk_entry list \<Rightarrow> unit res host" where
  "rescanHosts [] = ok ()"
| "rescanHosts (WalkError # es) = rescanHosts es"
| "rescanHosts (WalkEntry path name kind # es) =
     (if kind = DirEntry then rescanHosts es
      else if match_host name then
        attempt (WriteFile (path @ ''/scan'') ''- - -'')
          (\<lambda>e. fail (Errorf ''encounter error while rescanning the disk in VM'' [e]))
          (\<lambda>_. rescanHosts es)
      else rescanHosts es)"

definition rescanDiskInVM :: "unit res host" where
  "rescanDiskInVM = bind (Walk ScsiHostPath) (\<lambda>es. attempt (rescanHosts es)
     (\<lambda>e. fail (Errorf ''CSI node plugin could not rescan SCSI bus'' [e])) (\<lambda>_. ok ()))"

definition rescanScsiBlockDiskInVM :: "string \<Rightarrow> unit res host" where
  "rescanScsiBlockDiskInVM blockDevice =
     (let parts = split_on (CHR ''/'') blockDevice in
      if length parts \<noteq> 3 then fail (Errorf ''block device path in invalid format'' [])
      else attempt (WriteFile (ScsiBlockPathPrefix @ ''/'' @ parts ! 2 @ ''/'' @ ScsiBlockPathSuffix) ''1'')
        (\<lambda>e. fail (Errorf ''unable to write into file'' [e])) (\<lambda>_. ok ()))"

text \<open>The identifier in the output of scsi_id: 32 characters, or 33 with a type digit in front.\<close>

definition scsiUuid :: "string \<Rightarrow> string option" where
  "scsiUuid outBytes = (let out = trim_space outBytes in
     if length out = 33 then Some (tl out) else if length out \<noteq> 32 then None else Some out)"

text \<open>One file of the walk: the device it stands for when that has the identifier, else the empty string.\<close>

definition checkFile :: "string \<Rightarrow> string \<Rightarrow> file_kind \<Rightarrow> string host" where
  "checkFile hexDiskUUID path kind =
     bind (if kind = SymlinkEntry then
             attempt (EvalSymlinks path) (\<lambda>e. ret []) (\<lambda>dst. ret dst)
           else ret path) (\<lambda>fileToProcess.
       if fileToProcess = [] then ret []
       else attempt (ScsiId fileToProcess) (\<lambda>e. ret []) (\<lambda>outBytes.
         case scsiUuid outBytes of
           None \<Rightarrow> ret []
         | Some out \<Rightarrow> if to_lower out = to_lower hexDiskUUID then ret fileToProcess else ret []))"

fun findDevice :: "string \<Rightarrow> walk_entry list \<Rightarrow> string host" where
  "findDevice hexDiskUUID [] = ret []"
| "findDevice hexDiskUUID (WalkError # es) = findDevice hexDiskUUID es"
| "findDevice hexDiskUUID (WalkEntry path name kind # es) =
     (if kind = DirEntry then findDevice hexDiskUUID es
      else bind (checkFile hexDiskUUID path kind) (\<lambda>guestDiskPath.
        if guestDiskPath \<noteq> [] then ret guestDiskPath else findDevice hexDiskUUID es))"

definition getDiskPath :: "string \<Rightarrow> string res host" where
  "getDiskPath diskUUID =
     (if diskUUID = [] then fail (Errorf ''diskUUID should not be an empty string'' [])
      else bind (Walk DevDiskPath) (\<lambda>es.
        bind (findDevice (remove_char (CHR ''-'') diskUUID) es) (\<lambda>guestDiskPath. ok guestDiskPath)))"

section \<open>NodeStageVolume\<close>

text \<open>The three steps that both kinds of staging start with; \<open>who\<close> is the caller's name.\<close>

definition prepareDevice :: "string \<Rightarrow> string \<Rightarrow> string res host" where
  "prepareDevice who diskUUID =
     attempt rescanDiskInVM
       (\<lambda>e. fail (StatusError Internal (who @ '': unable to scan SCSI bus'') [e])) (\<lambda>_.
     attempt (getDiskPath diskUUID)
       (\<lambda>e. fail (StatusError Internal (who @ '': unable to obtain disk'') [e])) (\<lambda>devicePath.
     attempt (rescanScsiBlockDiskInVM devicePath)
       (\<lambda>e. fail (StatusError Internal (who @ '': Unable to rescan disk'') [e])) (\<lambda>_. ok devicePath)))"

definition NodeStageVolumeBlockMount :: "context_map \<Rightarrow> stage_request \<Rightarrow> unit res host" where
  "NodeStageVolumeBlockMount publishContext req =
     (if srVolumeId req = [] then
        fail (StatusError InvalidArgument ''NodeStageVolumeBlockMount: Volume Id not provided'' [])
      else (case map_of publishContext VMFullNameAttribute of
        None \<Rightarrow> fail (StatusError InvalidArgument
          ''NodeStageVolumeBlockMount: PublishContext did not contain full vm name'' [])
      | Some vmFullName \<Rightarrow> (case map_of publishContext DiskUUIDAttribute of
          None \<Rightarrow> fail (StatusError InvalidArgument
            ''NodeStageVolumeBlockMount: PublishContext did not contain disk UUID'' [])
        | Some diskUUID \<Rightarrow>
            attempt (prepareDevice ''NodeStageVolumeBlockMount'' diskUUID) (\<lambda>e. fail e) (\<lambda>_. ok ()))))"

definition stagedFsType :: "context_map option \<Rightarrow> context_map \<Rightarrow> string res" where
  "stagedFsType volumeContext publishContext = (case volumeContext of
     None \<Rightarrow> (case map_of publishContext FileSystemParameter of
         None \<Rightarrow> Inl (StatusError InvalidArgument
           ''NodeStageVolumeFilesystemMount: PublishContext does not have the file system set'' [])
       | Some fsType \<Rightarrow> Inr fsType)
   | Some vc \<Rightarrow>
       if map_of vc EphemeralVolumeContext = Some ''true'' then
         Inl (StatusError Unimplemented ''NodeStageVolumeFilesystemMount: not supported'' [])
       else (case map_of vc FileSystemParameter of
         None \<Rightarrow> Inl (StatusError InvalidArgument
           ''NodeStageVolumeFilesystemMount: PublishContext does not have the file system set'' [])
       | Some fsType \<Rightarrow> Inr fsType))"

text \<open>Mount the device on the directory, unless it is mounted there already.\<close>

definition stageDevice :: "string \<Rightarrow> string \<Rightarrow> string \<Rightarrow> string \<Rightarrow> string list \<Rightarrow> unit res host" where
  "stageDevice devicePath mountDir mountMode fsType mountFlags =
     attempt (isVolumeMountedAsExpected devicePath mountDir mountMode)
       (\<lambda>e. fail (Errorf ''unable to check if device is mounted'' [e])) (\<lambda>(isMounted, isMountedAsExpected).
     if isMounted then
       (if \<not> isMountedAsExpected then
          fail (StatusError Internal ''device not mounted as expected'' [])
        else ok ())
     else attempt (checkIfDirExists mountDir)
       (\<lambda>e. fail (StatusError Internal ''could not verify that path is a dir'' [e])) (\<lambda>mountDirExists.
     attempt (if mountDirExists then ok () else MkdirAll mountDir 488)
       (\<lambda>e. fail (StatusError Internal ''unable to mkdir at path'' [e])) (\<lambda>_.
     attempt (FormatAndMount devicePath mountDir fsType mountFlags)
       (\<lambda>e. fail (StatusError Internal ''unable to format and mount device'' [e])) (\<lambda>_. ok ()))))"

definition NodeStageVolumeFilesystemMount :: "volume_capability \<Rightarrow> context_map \<Rightarrow> stage_request \<Rightarrow>
    unit res host" where
  "NodeStageVolumeFilesystemMount c publishContext req =
     (case stagedFsType (srVolumeContext req) publishContext of
        Inl e \<Rightarrow> fail e
      | Inr fsType \<Rightarrow> (case map_of publishContext VMFullNameAttribute of
        None \<Rightarrow> fail (StatusError InvalidArgument
          ''NodeStageVolumeFilesystemMount: PublishContext did not contain full vm name'' [])
      | Some vmFullName \<Rightarrow>
          (let mountMode = (if isVolumeReadOnly c then ''ro'' else ''rw'') in
           case AccessType c of
             MountAccess _ flags \<Rightarrow> (case map_of publishContext DiskUUIDAttribute of
               None \<Rightarrow> fail (StatusError InvalidArgument
                 ''NodeStageVolumeFilesystemMount: PublishContext did not contain disk UUID'' [])
             | Some diskUUID \<Rightarrow>
                 if srVolumeId req = [] then
                   fail (StatusError InvalidArgument ''NodeStageVolumeFilesystemMount: Volume Id not provided'' [])
                 else if srStagingTargetPath req = [] then
                   fail (StatusError InvalidArgument
                     ''NodeStageVolumeFilesystemMount: Staging target not provided'' [])
                 else attempt (prepareDevice ''NodeStageVolumeFilesystemMount'' diskUUID) (\<lambda>e. fail e)
                   (\<lambda>devicePath. stageDevice devicePath (srStagingTargetPath req) mountMode fsType
                      (CollectMountOptions fsType flags @ [mountMode])))
           | _ \<Rightarrow> fail (StatusError InvalidArgument ''volume capability must have mount details'' []))))"

definition NodeStageVolume :: "stage_request option \<Rightarrow> unit res host" where
  "NodeStageVolume req = (case req of
     None \<Rightarrow> fail (StatusError InvalidArgument ''NodeStageVolume: Request is empty'' [])
   | Some r \<Rightarrow> (case srVolumeCapability r of
       None \<Rightarrow> fail (StatusError InvalidArgument ''NodeStageVolume: Volume capability not provided'' [])
     | Some c \<Rightarrow> (case srPublishContext r of
         None \<Rightarrow> fail (StatusError InvalidArgument ''NodeStageVolume: Publish context not provided'' [])
       | Some publishContext \<Rightarrow>
           if GetBlock c then
             attempt (NodeStageVolumeBlockMount publishContext r)
               (\<lambda>e. fail (StatusError Internal ''unable to stage volume as block volume'' [e])) (\<lambda>_. ok ())
           else attempt (NodeStageVolumeFilesystemMount c publishContext r)
             (\<lambda>e. fail (StatusError Internal ''unable to stage volume as filesystem volume'' [e])) (\<lambda>_. ok ()))))"

section \<open>NodeUnstageVolume\<close>

text \<open>A nil request has an empty path.\<close>

definition NodeUnstageVolume :: "unstage_request option \<Rightarrow> unit res host" where
  "NodeUnstageVolume req =
     (let mountDir = (case req of None \<Rightarrow> [] | Some r \<Rightarrow> urStagingTargetPath r) in
      if mountDir = [] then
        fail (StatusError InvalidArgument ''NodeUnstageVolume: Staging Target Path must be provided'' [])
      else attempt (checkIfDirExists mountDir)
        (\<lambda>e. fail (StatusError Internal ''could not verify that path is a dir'' [e])) (\<lambda>mountDirExists.
      if \<not> mountDirExists then ok ()
      else attempt (checkIfPathMounted mountDir)
        (\<lambda>e. fail (StatusError Internal ''unable to check if path is mounted'' [e])) (\<lambda>isMountDirMounted.
      if \<not> isMountDirMounted then ok ()
      else attempt (Unmount mountDir)
        (\<lambda>e. fail (StatusError Internal ''unable to unmount'' [e])) (\<lambda>_. ok ()))))"

section \<open>NodePublishVolume\<close>

text \<open>The target: a file for a block volume, made with its directory, else a directory.\<close>

definition prepareTarget :: "bool \<Rightarrow> string \<Rightarrow> unit res host" where
  "prepareTarget isBlockMount podMountPath =
     (if isBlockMount then
        attempt (MkdirAll (Dir podMountPath) 488)
          (\<lambda>e. fail (StatusError Internal ''unable to create dir for path'' [e])) (\<lambda>_.
        attempt (CreateFile podMountPath)
          (\<lambda>e. fail (StatusError Internal ''unable to create file'' [e])) (\<lambda>_.
        attempt (CloseFile podMountPath)
          (\<lambda>e. fail (StatusError Internal ''unable to close file'' [e])) (\<lambda>_. ok ())))
      else attempt (mkdir podMountPath)
        (\<lambda>e. fail (StatusError Internal ''unable to create dir'' [e])) (\<lambda>_. ok ()))"

text \<open>What is mounted: the device of a block volume, else the staging directory.\<close>

definition publishSource :: "bool \<Rightarrow> context_map \<Rightarrow> node_publish_request \<Rightarrow> string res host" where
  "publishSource isBlockMount publishContext r =
     (if isBlockMount then (case map_of publishContext DiskUUIDAttribute of
        None \<Rightarrow> fail (StatusError InvalidArgument ''PublishContext did not contain disk UUID'' [])
      | Some diskUUID \<Rightarrow> (case map_of publishContext VMFullNameAttribute of
          None \<Rightarrow> fail (StatusError InvalidArgument ''PublishContext did not contain full vm name'' [])
        | Some vmFullName \<Rightarrow> attempt (getDiskPath diskUUID)
            (\<lambda>e. fail (StatusError Internal ''unable to obtain disk'' [e])) (\<lambda>devicePath. ok devicePath)))
      else if nprStagingTargetPath r = [] then
        fail (StatusError InvalidArgument ''NodeStageVolume: StagingTargetPath not provided'' [])
      else attempt (checkIfDirExists (nprStagingTargetPath r))
        (\<lambda>e. fail (StatusError Internal ''unable to check if host mount dir exists'' [e]))
        (\<lambda>hostMountPathExists.
           if \<not> hostMountPathExists then fail (StatusError Internal ''host mount dir does not exist'' [])
           else ok (nprStagingTargetPath r)))"

definition bindTarget :: "string \<Rightarrow> string \<Rightarrow> string \<Rightarrow> string list \<Rightarrow> unit res host" where
  "bindTarget hostMountPath podMountPath mountMode flags =
     attempt (isVolumeMountedAsExpected hostMountPath podMountPath mountMode)
       (\<lambda>e. fail (Errorf ''unable to check if dir is mounted'' [e])) (\<lambda>(isMounted, isMountedAsExpected).
     if isMounted then
       (if \<not> isMountedAsExpected then fail (StatusError Internal ''dir not mounted as expected'' [])
        else ok ())
     else attempt (BindMount hostMountPath podMountPath (flags @ [mountMode]))
       (\<lambda>e. fail (StatusError Internal ''unable to format and mount path'' [e])) (\<lambda>_. ok ()))"

definition publishVolume :: "volume_capability \<Rightarrow> context_map \<Rightarrow> node_publish_request \<Rightarrow> unit res host" where
  "publishVolume c publishContext r =
     (let isBlockMount = GetBlock c;
          flags = (case AccessType c of MountAccess _ fl \<Rightarrow> fl | _ \<Rightarrow> []);
          mountMode = (if isVolumeReadOnly c then ''ro'' else ''rw'') in
      if isVolumeReadOnly c \<and> isBlockMount then
        fail (StatusError InvalidArgument ''Block volume cannot be ReadOnly'' [])
      else attempt (prepareTarget isBlockMount (nprTargetPath r)) (\<lambda>e. fail e) (\<lambda>_.
        attempt (publishSource isBlockMount publishContext r) (\<lambda>e. fail e) (\<lambda>hostMountPath.
          bindTarget hostMountPath (nprTargetPath r) mountMode flags)))"

text \<open>The call log dereferences the request.\<close>

definition NodePublishVolume :: "node_publish_request option \<Rightarrow> unit res host" where
  "NodePublishVolume req = (case req of
     None \<Rightarrow> panic ''nil request''
   | Some r \<Rightarrow>
       if (case nprVolumeContext r of None \<Rightarrow> False
           | Some vc \<Rightarrow> map_of vc EphemeralVolumeContext = Some ''true'') then
         fail (StatusError Unimplemented ''not supported'' [])
       else if nprVolumeId r = [] then
         fail (StatusError InvalidArgument ''NodePublishVolume: VolumeId not provided'' [])
       else (case nprVolumeCapability r of
         None \<Rightarrow> fail (StatusError InvalidArgument ''NodePublishVolume: VolumeCapability not provided'' [])
       | Some c \<Rightarrow> (case nprPublishContext r of
           None \<Rightarrow> fail (StatusError InvalidArgument ''NodePublishVolume: PublishContext not provided'' [])
         | Some publishContext \<Rightarrow>
             if AccessType c = NoAccess then
               fail (StatusError InvalidArgument ''volume capability must have mount details'' [])
             else if nprTargetPath r = [] then
               fail (StatusError InvalidArgument ''NodePublishVolume: TargetPath not provided'' [])
             else publishVolume c publishContext r)))"

section \<open>NodeUnpublishVolume\<close>

definition NodeUnpublishVolume :: "node_unpublish_request option \<Rightarrow> unit res host" where
  "NodeUnpublishVolume req =
     (let diskName = (case req of None \<Rightarrow> [] | Some r \<Rightarrow> nurVolumeId r);
          podMountPath = (case req of None \<Rightarrow> [] | Some r \<Rightarrow> nurTargetPath r) in
      if diskName = [] then
        fail (StatusError InvalidArgument ''NodeUnpublishVolume: volumeID must be provided'' [])
      else if podMountPath = [] then
        fail (StatusError InvalidArgument ''NodeUnpublishVolume: Target Path must be provided'' [])
      else attempt (checkIfPathExists podMountPath)
        (\<lambda>e. fail (StatusError Internal ''unable to check if pod mount path exists'' [e])) (\<lambda>podMountPathExists.
      if \<not> podMountPathExists then ok ()
      else attempt (checkIfPathMounted podMountPath)
        (\<lambda>e. fail (Errorf ''unable to check if pod mount dir is mounted'' [e])) (\<lambda>isDirMounted.
      attempt (if isDirMounted then Unmount podMountPath else ok ())
        (\<lambda>e. fail (Errorf ''unable to unmount pod mount dir'' [e])) (\<lambda>_.
      attempt (rmdir podMountPath)
        (\<lambda>e. fail (Errorf ''failed to remove pod mount dir'' [])) (\<lambda>_. ok ())))))"

section \<open>NodeExpandVolume\<close>

definition expandNode :: "node_expand_request \<Rightarrow> unit res host" where
  "expandNode r =
     (if nerVolumePath r = [] then fail (Errorf ''unable to get volume path from request'' [])
      else if nerStagingTargetPath r = [] then
        fail (StatusError InvalidArgument ''NodeExpandVolume: Staging Path context not provided'' [])
      else if nerVolumeId r = [] then
        fail (StatusError InvalidArgument ''NodeExpandVolume: Disk UUID not provided'' [])
      else attempt (GetDeviceNameFromMount (nerStagingTargetPath r))
        (\<lambda>e. fail (StatusError Internal ''NodeExpandVolume: Unable to get device path'' [e])) (\<lambda>devicePath.
      if devicePath = [] then
        fail (StatusError Internal ''NodeExpandVolume: Empty device path obtained'' [])
      else attempt (rescanScsiBlockDiskInVM devicePath)
        (\<lambda>e. fail (StatusError Internal ''NodeExpandVolume: Unable to rescan disk in VM'' [e])) (\<lambda>_.
      attempt (ResizeFs devicePath (nerStagingTargetPath r))
        (\<lambda>e. fail (StatusError Internal ''NodeExpandVolume: Failed to resize volume'' [e])) (\<lambda>_. ok ()))))"

definition NodeExpandVolume :: "node_expand_request option \<Rightarrow> unit res host" where
  "NodeExpandVolume req = (case req of
     None \<Rightarrow> fail (Errorf ''unable to get volume path from request'' [])
   | Some r \<Rightarrow> (case nerVolumeCapability r of
       None \<Rightarrow> expandNode r
     | Some c \<Rightarrow> if GetBlock c then ok () else expandNode r))"

section \<open>Information and statistics\<close>

datatype usage_unit = BYTES | INODES

record usage =
  Available :: int64
  Total :: int64
  Used :: int64
  Unit :: usage_unit

definition volumeUsage :: "statfs \<Rightarrow> usage list" where
  "volumeUsage s =
     [\<lparr>Available = Bavail s * Bsize s, Total = Blocks s * Bsize s,
       Used = (Blocks s - Bavail s) * Bsize s, Unit = BYTES\<rparr>,
      \<lparr>Available = Ffree s, Total = Files s, Used = Files s - Ffree s, Unit = INODES\<rparr>]"

text \<open>A nil request has an empty path.\<close>

definition NodeGetVolumeStats :: "string option \<Rightarrow> usage list res host" where
  "NodeGetVolumeStats req =
     (let volumePath = (case req of None \<Rightarrow> [] | Some p \<Rightarrow> p) in
      if volumePath = [] then fail (Errorf ''unable to get volume path from request'' [])
      else attempt (Statfs volumePath) (\<lambda>e. fail (Errorf ''unable to get stats of volume'' [e]))
        (\<lambda>s. ok (volumeUsage s)))"

definition NodeGetInfo :: "node_service \<Rightarrow> string \<times> nat" where
  "NodeGetInfo ns = (nsNodeID ns, maxVolumesPerNode)"

definition NodeGetCapabilities :: "node_service \<Rightarrow> node_rpc list" where
  "NodeGetCapabilities ns = nodeServiceCapabilities (nsDriver ns)"

end
