(* ===== verification/NodeSpec.thy ===== *)
theory NodeSpec
  imports Node ControllerSpec
begin

text \<open>
  What the node calls have done when they answer success, in every environment: which device
  a disk's UUID stands for, what is mounted where, and when nothing is mounted at all.
\<close>

section \<open>Shared rules\<close>

lemma sat_stat_checks [wp]:
  "sat (checkIfDirExists path) env h Q = (let s = h_stat env h path in
     Q (Done (case s of IsDirectory \<Rightarrow> Inr True | NotDirectory \<Rightarrow> Inl (Errorf ''path is not a dir'' [])
       | NotExist \<Rightarrow> Inr False | StatError m \<Rightarrow> Inl (Errorf ''unable to get stat'' [ApiError m False])))
       [EvStat path s])"
  "sat (checkIfPathExists path) env h Q = (let s = h_stat env h path in
     Q (Done (case s of NotExist \<Rightarrow> Inr False
       | StatError m \<Rightarrow> Inl (Errorf ''unable to get stat'' [ApiError m False]) | _ \<Rightarrow> Inr True))
       [EvStat path s])"
  by (auto simp: checkIfDirExists_def checkIfPathExists_def wp host_calls Let_def split: stat_reply.splits)

lemma sat_checkIfPathMounted [wp]:
  "sat (checkIfPathMounted dir) env h Q = (let r = h_mounts env h in
     Q (Done (case r of Inl e \<Rightarrow> Inl (Errorf ''unable to get mounts of node'' [])
       | Inr ms \<Rightarrow> Inr (dir \<in> set (map mntPath ms)))) [EvMounts r])"
  by (auto simp: checkIfPathMounted_def wp host_calls Let_def split: sum.splits)

definition mounted_answer :: "string \<Rightarrow> string \<Rightarrow> mount_info list \<Rightarrow> bool \<times> bool" where
  "mounted_answer dir mode ms = (if ms = [] then (False, False)
     else (case List.find (\<lambda>m. mntPath m = dir) ms of
       None \<Rightarrow> (True, False) | Some m \<Rightarrow> (True, mode \<in> set (mntOpts m))))"

lemma sat_isVolumeMountedAsExpected [wp]:
  "sat (isVolumeMountedAsExpected dev dir mode) env h Q = (let r = h_devMounts env h dev in
     Q (Done (case r of Inl e \<Rightarrow> Inl (Errorf ''unable to check if device is mounted'' [e])
       | Inr ms \<Rightarrow> Inr (mounted_answer dir mode ms))) [EvDevMounts dev r])"
  by (auto simp: isVolumeMountedAsExpected_def mounted_answer_def wp host_calls Let_def
      split: sum.splits option.splits)

lemma mounted_answer_simps:
  "fst (mounted_answer dir mode ms) \<longleftrightarrow> ms \<noteq> []"
  "snd (mounted_answer dir mode ms) \<longleftrightarrow>
     (\<exists>m. List.find (\<lambda>m. mntPath m = dir) ms = Some m \<and> mode \<in> set (mntOpts m))"
  by (auto simp: mounted_answer_def split: option.splits)

text \<open>Calls that only look at the host or write to the rescan files of the kernel.\<close>

fun is_probe :: "host_event \<Rightarrow> bool" where
  "is_probe (EvStat _ _) = True"
| "is_probe (EvWriteFile _ _ _) = True"
| "is_probe (EvWalk _ _) = True"
| "is_probe (EvEvalSymlinks _ _) = True"
| "is_probe (EvScsiId _ _) = True"
| "is_probe _ = False"

lemma emits_rescan [trace_rules]: "emits is_probe rescanDiskInVM"
proof -
  have "emits is_probe (rescanHosts es)" for es
    by (induction es rule: rescanHosts.induct) (auto intro!: trace_rules simp: host_calls)
  then show ?thesis
    unfolding rescanDiskInVM_def by (auto intro!: trace_rules simp: host_calls)
qed

section \<open>The device of a disk\<close>

text \<open>
  The output of scsi_id, without white space around it, is the disk's UUID: the 32 characters
  that the UUID has without its dashes, or one more character and then these, in any case.
\<close>

definition identity_of :: "string \<Rightarrow> string \<Rightarrow> bool" where
  "identity_of uuid out \<longleftrightarrow> (let digits = to_lower (remove_char (CHR ''-'') uuid);
       answer = to_lower (trim_space out) in
     length digits = 32 \<and> (answer = digits \<or> (\<exists>c. answer = c # digits)))"

lemma identity_of_scsiUuid:
  "identity_of uuid out \<longleftrightarrow> (case scsiUuid out of
     None \<Rightarrow> False | Some u \<Rightarrow> to_lower u = to_lower (remove_char (CHR ''-'') uuid))"
proof -
  let ?d = "to_lower (remove_char (CHR ''-'') uuid)" and ?t = "trim_space out"
  have len: "length (to_lower x) = length x" for x by (simp add: to_lower_def)
  have same: "to_lower x = ?d \<Longrightarrow> length ?d = length x" for x using len by metis
  have tl: "to_lower ?t = c # ?d \<Longrightarrow> to_lower (tl ?t) = ?d \<and> length ?t = Suc (length ?d)" for c
    using len [of ?t] by (cases ?t) (auto simp: to_lower_def)
  have longer: "length ?t = 33 \<Longrightarrow> to_lower (tl ?t) = ?d \<Longrightarrow> \<exists>c. to_lower ?t = c # ?d"
    by (cases ?t) (auto simp: to_lower_def)
  have id: "identity_of uuid out \<longleftrightarrow> length ?d = 32 \<and> (to_lower ?t = ?d \<or> (\<exists>c. to_lower ?t = c # ?d))"
    by (simp only: identity_of_def Let_def)
  consider "length ?t = 33" | "length ?t = 32" | "length ?t \<noteq> 33" "length ?t \<noteq> 32" by blast
  then show ?thesis
  proof cases
    case 1
    have "to_lower ?t \<noteq> ?d \<or> length ?d \<noteq> 32" using same [of ?t] 1 by auto
    moreover have "(\<exists>c. to_lower ?t = c # ?d) \<longleftrightarrow> to_lower (tl ?t) = ?d" using tl longer [OF 1] by blast
    moreover have "to_lower (tl ?t) = ?d \<Longrightarrow> length ?d = 32" using same [of "tl ?t"] 1 by simp
    ultimately have "identity_of uuid out \<longleftrightarrow> to_lower (tl ?t) = ?d" unfolding id by blast
    then show ?thesis using 1 by (simp add: scsiUuid_def)
  next
    case 2
    then have "to_lower ?t = ?d \<Longrightarrow> length ?d = 32" using same [of ?t] by simp
    moreover have "length ?d \<noteq> 32 \<or> \<not> (\<exists>c. to_lower ?t = c # ?d)" using tl 2 by auto
    ultimately have "identity_of uuid out \<longleftrightarrow> to_lower ?t = ?d" unfolding id by blast
    then show ?thesis using 2 by (simp add: scsiUuid_def)
  next
    case 3
    have "to_lower ?t \<noteq> ?d \<or> length ?d \<noteq> 32" using same [of ?t] 3 by auto
    moreover have "length ?d \<noteq> 32 \<or> \<not> (\<exists>c. to_lower ?t = c # ?d)" using tl 3 by auto
    ultimately have "\<not> identity_of uuid out" unfolding id by blast
    then show ?thesis using 3 by (simp add: scsiUuid_def)
  qed
qed

text \<open>
  What is asked about one entry of the walk: nothing for an entry with an error, a directory or an
  empty path; a symbolic link is followed, and the file it leads to is asked for its identity;
  any other file is asked itself.
\<close>

inductive file_looked :: "walk_entry \<Rightarrow> (string \<times> string res) option \<Rightarrow> host_event list \<Rightarrow> bool" where
  unreadable: "file_looked WalkError None []"
| directory: "file_looked (WalkEntry p n DirEntry) None []"
| broken_link: "file_looked (WalkEntry p n SymlinkEntry) None [EvEvalSymlinks p (Inl e)]"
| empty_link: "file_looked (WalkEntry p n SymlinkEntry) None [EvEvalSymlinks p (Inr [])]"
| good_link: "f \<noteq> [] \<Longrightarrow> file_looked (WalkEntry p n SymlinkEntry) (Some (f, out))
     [EvEvalSymlinks p (Inr f), EvScsiId f out]"
| plain_file: "p \<noteq> [] \<Longrightarrow> file_looked (WalkEntry p n OtherEntry) (Some (p, out)) [EvScsiId p out]"
| no_file: "file_looked (WalkEntry [] n OtherEntry) None []"

text \<open>
  A search through the entries, in their order: it ends at the first file that identifies itself as
  the disk, which is its result, and otherwise goes through all of them and finds none.
\<close>

inductive disk_search :: "string \<Rightarrow> walk_entry list \<Rightarrow> host_event list \<Rightarrow> string \<Rightarrow> bool" for uuid where
  found_none: "disk_search uuid [] [] []"
| found_here: "file_looked w (Some (dev, Inr out)) es \<Longrightarrow> identity_of uuid out \<Longrightarrow>
     disk_search uuid (w # ws) es dev"
| looked_on: "file_looked w a es \<Longrightarrow> (\<And>f out. a = Some (f, Inr out) \<Longrightarrow> \<not> identity_of uuid out) \<Longrightarrow>
     disk_search uuid ws es' dev \<Longrightarrow> disk_search uuid (w # ws) (es @ es') dev"

text \<open>The events of a search that found \<open>dev\<close>: the walk of the disk directory, and what was asked in it.\<close>

definition located :: "string \<Rightarrow> string \<Rightarrow> host_event list \<Rightarrow> bool" where
  "located uuid dev es \<longleftrightarrow> (\<exists>ws es'. es = EvWalk DevDiskPath ws # es' \<and> disk_search uuid ws es' dev)"

text \<open>What an answer decides: the file is the result exactly when it identified itself.\<close>

definition decided :: "string \<Rightarrow> (string \<times> string res) option \<Rightarrow> string \<Rightarrow> bool" where
  "decided uuid a dev \<longleftrightarrow> (if dev = [] then \<forall>f out. a = Some (f, Inr out) \<longrightarrow> \<not> identity_of uuid out
     else \<exists>out. a = Some (dev, Inr out) \<and> identity_of uuid out)"

lemma decided_nothing [simp]: "decided uuid None []" "decided uuid (Some (f, Inl e)) []"
  by (simp_all add: decided_def)

lemma sat_compared:
  "f \<noteq> [] \<Longrightarrow> sat (case scsiUuid outBytes of
        None \<Rightarrow> ret []
      | Some out \<Rightarrow> if to_lower out = to_lower (remove_char (CHR ''-'') uuid) then ret f else ret []) env h
     (\<lambda>r es. es = [] \<and> (\<exists>dev. r = Done dev \<and> decided uuid (Some (f, Inr outBytes)) dev))"
  by (auto simp: wp decided_def identity_of_scsiUuid split: option.splits)

lemma sat_checkFile:
  assumes "kind \<noteq> DirEntry"
  shows "sat (checkFile (remove_char (CHR ''-'') uuid) path kind) env h
     (\<lambda>r es. \<exists>dev a. r = Done dev \<and> file_looked (WalkEntry path name kind) a es \<and> decided uuid a dev)"
proof (cases kind)
  case DirEntry
  then show ?thesis using assms by simp
next
  case SymlinkEntry
  show ?thesis
    unfolding checkFile_def SymlinkEntry
    by (auto simp: wp host_calls split: sum.splits intro!: sat_mono [OF sat_compared])
      (blast intro: decided_nothing broken_link empty_link good_link)+
next
  case OtherEntry
  show ?thesis
    unfolding checkFile_def OtherEntry
    by (auto simp: wp host_calls split: sum.splits intro!: sat_mono [OF sat_compared])
      (blast intro: decided_nothing no_file plain_file)+
qed

lemma sat_findDevice:
  "sat (findDevice (remove_char (CHR ''-'') uuid) ws) env h
     (\<lambda>r es. \<exists>dev. r = Done dev \<and> disk_search uuid ws es dev)"
proof (induction ws arbitrary: h)
  case Nil
  show ?case by (simp add: wp found_none)
next
  case (Cons w ws)
  note on = looked_on [of w None "[]" uuid ws, simplified]
  show ?case
  proof (cases w)
    case WalkError
    then show ?thesis
      using on unreadable by (auto intro: sat_mono [OF Cons.IH])
  next
    case (WalkEntry p n k)
    show ?thesis
    proof (cases "k = DirEntry")
      case True
      then show ?thesis using WalkEntry on directory by (auto intro: sat_mono [OF Cons.IH])
    next
      case False
      have "sat (bind (checkFile (remove_char (CHR ''-'') uuid) p k) (\<lambda>g.
          if g \<noteq> [] then ret g else findDevice (remove_char (CHR ''-'') uuid) ws)) env h
          (\<lambda>r es. \<exists>dev. r = Done dev \<and> disk_search uuid (w # ws) es dev)"
        unfolding sat_bind
      proof (rule sat_mono [OF sat_checkFile [OF False, where name = n]], elim exE conjE)
        fix r es dev a
        assume r: "r = Done dev" and looked: "file_looked (WalkEntry p n k) a es" and answer: "decided uuid a dev"
        show "case r of Done x \<Rightarrow> sat (if x \<noteq> [] then ret x else findDevice (remove_char (CHR ''-'') uuid) ws)
              env (h @ es) (\<lambda>r' es'. \<exists>dev. r' = Done dev \<and> disk_search uuid (w # ws) (es @ es') dev)
            | Panic s \<Rightarrow> \<exists>dev. Panic s = Done dev \<and> disk_search uuid (w # ws) es dev"
        proof (cases "dev = []")
          case True
          then show ?thesis
            using answer looked_on [OF looked] by (auto simp: r WalkEntry decided_def intro!: sat_mono [OF Cons.IH])
        next
          case False
          then show ?thesis
            using answer found_here looked by (auto simp: r WalkEntry decided_def wp)
        qed
      qed
      then show ?thesis using WalkEntry False by simp
    qed
  qed
qed

lemma sat_getDiskPath:
  "sat (getDiskPath uuid) env h (\<lambda>r es.
     case r of Done (Inr dev) \<Rightarrow> uuid \<noteq> [] \<and> located uuid dev es
     | Done (Inl _) \<Rightarrow> uuid = [] \<and> es = [] | Panic _ \<Rightarrow> False)"
proof (cases "uuid = []")
  case True
  then show ?thesis by (simp add: getDiskPath_def wp)
next
  case False
  then show ?thesis
    by (auto simp: getDiskPath_def wp host_calls located_def intro!: sat_mono [OF sat_findDevice])
qed

text \<open>What follows for the result: it identified itself in the last answer, and nothing did before.\<close>

fun identifies :: "string \<Rightarrow> host_event \<Rightarrow> bool" where
  "identifies uuid (EvScsiId dev (Inr out)) \<longleftrightarrow> identity_of uuid out"
| "identifies uuid _ \<longleftrightarrow> False"

definition device_of :: "string \<Rightarrow> string \<Rightarrow> host_event list \<Rightarrow> bool" where
  "device_of uuid dev es \<longleftrightarrow> (\<exists>pre out. es = pre @ [EvScsiId dev (Inr out)] \<and> dev \<noteq> [] \<and>
     identity_of uuid out \<and> list_all (\<lambda>e. \<not> identifies uuid e) pre)"

fun only_looks :: "host_event \<Rightarrow> bool" where
  "only_looks (EvWalk _ _) = True"
| "only_looks (EvEvalSymlinks _ _) = True"
| "only_looks (EvScsiId _ _) = True"
| "only_looks _ = False"

lemma only_looks_probe: "only_looks e \<Longrightarrow> is_probe e"
  by (cases e) simp_all

lemma file_looked_events:
  "file_looked w a es \<Longrightarrow> list_all only_looks es"
  "file_looked w (Some (dev, Inr out)) es \<Longrightarrow> identity_of uuid out \<Longrightarrow> device_of uuid dev es"
  "file_looked w a es \<Longrightarrow> (\<And>f out. a = Some (f, Inr out) \<Longrightarrow> \<not> identity_of uuid out) \<Longrightarrow>
     list_all (\<lambda>e. \<not> identifies uuid e) es"
proof -
  show "file_looked w a es \<Longrightarrow> list_all only_looks es"
    by (cases rule: file_looked.cases) auto
  show "device_of uuid dev es" if "file_looked w (Some (dev, Inr out)) es" "identity_of uuid out"
    using that(1) by (cases rule: file_looked.cases) (use that(2) in \<open>auto simp: device_of_def\<close>)
  show "list_all (\<lambda>e. \<not> identifies uuid e) es" if "file_looked w a es"
    "\<And>f out. a = Some (f, Inr out) \<Longrightarrow> \<not> identity_of uuid out"
  proof -
    have not: "\<not> identifies uuid (EvScsiId f out)" if "a = Some (f, out)" for f out
      using that \<open>\<And>f out. a = Some (f, Inr out) \<Longrightarrow> \<not> identity_of uuid out\<close> by (cases out) auto
    from that(1) show ?thesis by (cases rule: file_looked.cases) (simp_all add: not)
  qed
qed

lemma device_of_prepend:
  "list_all (\<lambda>e. \<not> identifies uuid e) pre \<Longrightarrow> device_of uuid dev es \<Longrightarrow> device_of uuid dev (pre @ es)"
  unfolding device_of_def by (metis append_assoc list_all_append)

lemma disk_search_result:
  "disk_search uuid ws es dev \<Longrightarrow> list_all only_looks es \<and>
     (if dev = [] then list_all (\<lambda>e. \<not> identifies uuid e) es else device_of uuid dev es)"
proof (induction rule: disk_search.induct)
  case found_none
  then show ?case by simp
next
  case (found_here w dev out es ws)
  then show ?case using file_looked_events(1,2) by (force simp: device_of_def)
next
  case (looked_on w a es ws es' dev)
  then show ?case using file_looked_events(1,3) device_of_prepend by (auto split: if_splits)
qed

lemma located_result:
  "located uuid dev es \<Longrightarrow> list_all only_looks es \<and>
     (if dev = [] then list_all (\<lambda>e. \<not> identifies uuid e) es else device_of uuid dev es)"
proof -
  assume "located uuid dev es"
  then obtain ws es' where es: "es = [EvWalk DevDiskPath ws] @ es'" and search: "disk_search uuid ws es' dev"
    by (auto simp: located_def)
  show ?thesis
    using disk_search_result [OF search] device_of_prepend [of uuid "[EvWalk DevDiskPath ws]" dev es']
    by (simp add: es split: if_splits)
qed

text \<open>
  C29: getDiskPath, in every environment. It fails only for an empty UUID, without a look. Else
  it walks the disk directory and asks the files in it one after the other, a symbolic link for
  the file it leads to, until the first whose scsi_id output, with or without a leading type
  digit, is the UUID up to dashes and case, and returns that file; so the result is empty
  exactly when every file was asked and none answered so, and all that was done was to look.
\<close>

theorem getDiskPath_spec:
  "sat (getDiskPath uuid) env h (\<lambda>r es.
     case r of Done (Inr dev) \<Rightarrow> uuid \<noteq> [] \<and> list_all only_looks es \<and>
        (\<exists>ws es'. es = EvWalk DevDiskPath ws # es' \<and> disk_search uuid ws es' dev) \<and>
        (if dev = [] then list_all (\<lambda>e. \<not> identifies uuid e) es else device_of uuid dev es)
     | Done (Inl _) \<Rightarrow> uuid = [] \<and> es = [] | Panic _ \<Rightarrow> False)"
proof (rule sat_mono [OF sat_getDiskPath], goal_cases)
  case (1 r es)
  show ?case
  proof (cases r)
    case (Done x)
    show ?thesis
    proof (cases x)
      case (Inl e)
      then show ?thesis using 1 Done by simp
    next
      case (Inr dev)
      then have found: "uuid \<noteq> []" "located uuid dev es" using 1 Done by simp_all
      then show ?thesis
        unfolding Done Inr outcome.case sum.case
        using located_result [OF found(2)] found(2) [unfolded located_def] by blast
    qed
  qed (use 1 in simp)
qed

section \<open>NodeStageVolume\<close>

definition rescan_file :: "string \<Rightarrow> string" where
  "rescan_file dev =
     ScsiBlockPathPrefix @ ''/'' @ split_on (CHR ''/'') dev ! 2 @ ''/'' @ ScsiBlockPathSuffix"

text \<open>
  The device of the disk was found, after every SCSI host of the walk was rescanned, and then
  it was rescanned itself.
\<close>

fun host_scans :: "walk_entry list \<Rightarrow> host_event list" where
  "host_scans [] = []"
| "host_scans (WalkError # ws) = host_scans ws"
| "host_scans (WalkEntry path name kind # ws) =
     (if kind \<noteq> DirEntry \<and> match_host name then [EvWriteFile (path @ ''/scan'') ''- - -'' (Inr ())] else []) @
     host_scans ws"

definition prepared :: "string \<Rightarrow> string \<Rightarrow> host_event list \<Rightarrow> bool" where
  "prepared uuid dev es \<longleftrightarrow> (\<exists>ws ds. es = EvWalk ScsiHostPath ws # host_scans ws @ ds @
       [EvWriteFile (rescan_file dev) ''1'' (Inr ())] \<and> dev \<noteq> [] \<and> located uuid dev ds)"

lemma sat_rescanHosts: "sat (rescanHosts ws) env h (only_succeeds (\<lambda>r es _. es = host_scans ws))"
proof (induction ws arbitrary: h rule: host_scans.induct)
  case (2 ws)
  then show ?case unfolding host_scans.simps rescanHosts.simps .
next
  case (3 path name kind ws)
  then show ?case
    by (auto simp: wp host_calls split: sum.split outcome.splits intro!: sat_mono [OF "3.IH"])
qed (simp_all add: wp)

lemma sat_rescanDiskInVM:
  "sat rescanDiskInVM env h (only_succeeds (\<lambda>r es _. \<exists>ws. es = EvWalk ScsiHostPath ws # host_scans ws))"
  unfolding rescanDiskInVM_def
  by (auto simp: wp host_calls split: sum.splits outcome.splits intro!: sat_mono [OF sat_rescanHosts])

lemma sat_rescanBlock [wp]:
  "sat (rescanScsiBlockDiskInVM dev) env h Q =
     (if length (split_on (CHR ''/'') dev) \<noteq> 3 then
        Q (Done (Inl (Errorf ''block device path in invalid format'' []))) []
      else (let r = h_writeFile env h (rescan_file dev) ''1'' in
        Q (Done (case r of Inl e \<Rightarrow> Inl (Errorf ''unable to write into file'' [e]) | Inr _ \<Rightarrow> Inr ()))
          [EvWriteFile (rescan_file dev) ''1'' r]))"
  by (auto simp: rescanScsiBlockDiskInVM_def rescan_file_def wp host_calls Let_def split: sum.splits)

lemma preparedI:
  assumes "located uuid dev ds" and "length (split_on (CHR ''/'') dev) = 3"
  shows "prepared uuid dev (EvWalk ScsiHostPath ws # host_scans ws @ ds @ [EvWriteFile (rescan_file dev) ''1'' (Inr ())])"
proof -
  have "dev \<noteq> []" using assms(2) by auto
  then show ?thesis using assms(1) unfolding prepared_def by blast
qed

lemma sat_prepareDevice:
  "sat (prepareDevice who uuid) env h (only_succeeds (\<lambda>r es dev. prepared uuid dev es))"
  unfolding prepareDevice_def
  by (auto simp: wp Let_def split: outcome.splits sum.splits
      intro!: sat_mono [OF sat_rescanDiskInVM] sat_mono [OF sat_getDiskPath] preparedI)

text \<open>
  The device is on the directory with the mode. Either it was, in the answer about the
  device's mounts; or the device had no mount, the directory exists or was made, and the
  device was mounted there, formatted if need be.
\<close>

inductive on_directory :: "string \<Rightarrow> string \<Rightarrow> string \<Rightarrow> string \<Rightarrow> string list \<Rightarrow> host_event list \<Rightarrow> bool"
  for dev dir mode fs flags where
  staged_before: "List.find (\<lambda>m. mntPath m = dir) ms = Some m \<Longrightarrow> mode \<in> set (mntOpts m) \<Longrightarrow>
     on_directory dev dir mode fs flags [EvDevMounts dev (Inr ms)]"
| staged_there: "on_directory dev dir mode fs flags
     [EvDevMounts dev (Inr []), EvStat dir IsDirectory, EvFormatAndMount dev dir fs flags (Inr ())]"
| staged_new: "on_directory dev dir mode fs flags
     [EvDevMounts dev (Inr []), EvStat dir NotExist, EvMkdirAll dir 488 (Inr ()),
      EvFormatAndMount dev dir fs flags (Inr ())]"

lemma mounted_answer_cases:
  "mounted_answer dir mode ms = (False, b) \<Longrightarrow> ms = []"
  "mounted_answer dir mode ms = (True, True) \<Longrightarrow>
     \<exists>m. List.find (\<lambda>m. mntPath m = dir) ms = Some m \<and> mode \<in> set (mntOpts m)"
  by (auto simp: mounted_answer_def split: if_splits option.splits)

lemma on_directory_answers:
  "mounted_answer dir mode ms = (True, True) \<Longrightarrow> on_directory dev dir mode fs flags [EvDevMounts dev (Inr ms)]"
  "mounted_answer dir mode ms = (False, b) \<Longrightarrow> on_directory dev dir mode fs flags
     [EvDevMounts dev (Inr ms), EvStat dir IsDirectory, EvFormatAndMount dev dir fs flags (Inr ())]"
  "mounted_answer dir mode ms = (False, b) \<Longrightarrow> on_directory dev dir mode fs flags
     [EvDevMounts dev (Inr ms), EvStat dir NotExist, EvMkdirAll dir 488 (Inr ()),
      EvFormatAndMount dev dir fs flags (Inr ())]"
  by (auto dest!: mounted_answer_cases intro: staged_before staged_there staged_new)

lemma sat_stageDevice:
  "sat (stageDevice dev dir mode fs flags) env h
     (only_succeeds (\<lambda>r es _. on_directory dev dir mode fs flags es))"
  unfolding stageDevice_def
  by (auto simp: wp host_calls Let_def split: sum.splits stat_reply.splits prod.splits
      intro: on_directory_answers)

text \<open>What has happened when staging is reported as done.\<close>

inductive staged :: "volume_capability \<Rightarrow> context_map \<Rightarrow> stage_request \<Rightarrow> host_event list \<Rightarrow> bool"
  for c ctx q where
  staged_block: "GetBlock c \<Longrightarrow> map_of ctx DiskUUIDAttribute = Some uuid \<Longrightarrow> prepared uuid dev es \<Longrightarrow>
     staged c ctx q es"
| staged_fs: "AccessType c = MountAccess fs' flags \<Longrightarrow> map_of ctx DiskUUIDAttribute = Some uuid \<Longrightarrow>
     stagedFsType (srVolumeContext q) ctx = Inr fs \<Longrightarrow> srStagingTargetPath q \<noteq> [] \<Longrightarrow>
     mode = (if isVolumeReadOnly c then ''ro'' else ''rw'') \<Longrightarrow> prepared uuid dev es \<Longrightarrow>
     on_directory dev (srStagingTargetPath q) mode fs (CollectMountOptions fs flags @ [mode]) es' \<Longrightarrow>
     staged c ctx q (es @ es')"

lemma sat_NodeStageVolume:
  "sat (NodeStageVolume req) env h (only_succeeds (\<lambda>r es _. \<exists>q c ctx.
     req = Some q \<and> srVolumeCapability q = Some c \<and> srPublishContext q = Some ctx \<and>
     srVolumeId q \<noteq> [] \<and> staged c ctx q es))"
proof -
  have block: "sat (NodeStageVolumeBlockMount ctx q) env h (only_succeeds (\<lambda>r es _. srVolumeId q \<noteq> [] \<and> staged c ctx q es))"
    if "GetBlock c" for c ctx q h
    unfolding NodeStageVolumeBlockMount_def
    by (auto simp: wp split: option.splits outcome.splits sum.splits
        intro!: sat_mono [OF sat_prepareDevice] intro: staged_block [OF that])
  have fs: "sat (NodeStageVolumeFilesystemMount c ctx q) env h
      (only_succeeds (\<lambda>r es _. srVolumeId q \<noteq> [] \<and> staged c ctx q es))" for c ctx q h
    unfolding NodeStageVolumeFilesystemMount_def
    by (auto simp: wp Let_def split: option.splits outcome.splits sum.splits access_type.splits
        intro!: sat_mono [OF sat_prepareDevice] sat_mono [OF sat_stageDevice] intro: staged_fs)
  show ?thesis
    unfolding NodeStageVolume_def
    by (auto simp: wp split: option.splits outcome.splits sum.splits
        intro!: sat_mono [OF block] sat_mono [OF fs])
qed

text \<open>
  C18: NodeStageVolume, in every environment: when it answers success, the device of the disk
  in the publish context was found by its UUID and rescanned; for a file system, that device
  is on the staging directory with the mode of the capability: it was already, or it had no
  mount and was mounted there with the file system and options of the request.
\<close>

theorem NodeStageVolume_spec:
  "sat (NodeStageVolume req) env h (only_succeeds (\<lambda>r es _. \<exists>q c ctx.
     req = Some q \<and> srVolumeCapability q = Some c \<and> srPublishContext q = Some ctx \<and>
     srVolumeId q \<noteq> [] \<and> staged c ctx q es))"
  by (rule sat_NodeStageVolume)

section \<open>NodePublishVolume\<close>

text \<open>The target exists: a file that was opened in a directory that was made, or a directory.\<close>

inductive target_ready :: "string \<Rightarrow> bool \<Rightarrow> host_event list \<Rightarrow> bool" for dst where
  target_file: "target_ready dst True [EvMkdirAll (Dir dst) 488 (Inr ()), EvCreateFile dst (Inr ()),
     EvCloseFile dst (Inr ())]"
| target_there: "target_ready dst False [EvStat dst IsDirectory]"
| target_new: "target_ready dst False [EvStat dst NotExist, EvMkdirAll dst 493 (Inr ())]"

lemma sat_prepareTarget:
  "sat (prepareTarget blk dst) env h (only_succeeds (\<lambda>r es _. target_ready dst blk es))"
  unfolding prepareTarget_def mkdir_def
  by (auto simp: wp host_calls split: sum.splits stat_reply.splits
      intro: target_file target_there target_new)

text \<open>
  What is mounted for the pod: for a block volume the device of the disk, or the empty string
  when no device identified itself as the disk; else the staging directory, which exists.
\<close>

inductive source_found :: "context_map \<Rightarrow> node_publish_request \<Rightarrow> bool \<Rightarrow> string \<Rightarrow>
    host_event list \<Rightarrow> bool" for ctx q where
  source_device: "map_of ctx DiskUUIDAttribute = Some uuid \<Longrightarrow> uuid \<noteq> [] \<Longrightarrow> located uuid dev es \<Longrightarrow>
     source_found ctx q True dev es"
| source_staged: "nprStagingTargetPath q \<noteq> [] \<Longrightarrow> source_found ctx q False (nprStagingTargetPath q)
     [EvStat (nprStagingTargetPath q) IsDirectory]"

lemma sat_publishSource:
  "sat (publishSource blk ctx q) env h (only_succeeds (\<lambda>r es src. source_found ctx q blk src es))"
  unfolding publishSource_def
  by (auto simp: wp Let_def split: option.splits sum.splits outcome.splits stat_reply.splits
      intro!: sat_mono [OF sat_getDiskPath] intro: source_device source_staged)

text \<open>The source is on the target with the mode: it was, or it had no mount and was bound there.\<close>

inductive on_target :: "string \<Rightarrow> string \<Rightarrow> string \<Rightarrow> string list \<Rightarrow> host_event list \<Rightarrow> bool"
  for src dst mode flags where
  bound_before: "List.find (\<lambda>m. mntPath m = dst) ms = Some m \<Longrightarrow> mode \<in> set (mntOpts m) \<Longrightarrow>
     on_target src dst mode flags [EvDevMounts src (Inr ms)]"
| bound_now: "on_target src dst mode flags
     [EvDevMounts src (Inr []), EvBindMount src dst (flags @ [mode]) (Inr ())]"

lemma on_target_answers:
  "mounted_answer dst mode ms = (True, True) \<Longrightarrow> on_target src dst mode flags [EvDevMounts src (Inr ms)]"
  "mounted_answer dst mode ms = (False, b) \<Longrightarrow> on_target src dst mode flags
     [EvDevMounts src (Inr ms), EvBindMount src dst (flags @ [mode]) (Inr ())]"
  by (auto dest!: mounted_answer_cases intro: bound_before bound_now)

lemma sat_bindTarget:
  "sat (bindTarget src dst mode flags) env h (only_succeeds (\<lambda>r es _. on_target src dst mode flags es))"
  unfolding bindTarget_def
  by (auto simp: wp host_calls Let_def split: sum.splits prod.splits intro: on_target_answers)

definition capability_flags :: "volume_capability \<Rightarrow> string list" where
  "capability_flags c = (case AccessType c of MountAccess _ fl \<Rightarrow> fl | _ \<Rightarrow> [])"

definition capability_mode :: "volume_capability \<Rightarrow> string" where
  "capability_mode c = (if isVolumeReadOnly c then ''ro'' else ''rw'')"

inductive published_to_pod :: "volume_capability \<Rightarrow> context_map \<Rightarrow> node_publish_request \<Rightarrow>
    host_event list \<Rightarrow> bool" for c ctx q where
  published_to_podI: "\<not> (isVolumeReadOnly c \<and> GetBlock c) \<Longrightarrow> target_ready (nprTargetPath q) (GetBlock c) ts \<Longrightarrow>
     source_found ctx q (GetBlock c) src ss \<Longrightarrow>
     on_target src (nprTargetPath q) (capability_mode c) (capability_flags c) ms \<Longrightarrow>
     published_to_pod c ctx q (ts @ ss @ ms)"

lemma sat_publishVolume:
  "sat (publishVolume c ctx q) env h (only_succeeds (\<lambda>r es _. published_to_pod c ctx q es))"
  unfolding publishVolume_def capability_mode_def [symmetric] capability_flags_def [symmetric]
  by (auto simp: wp Let_def split: sum.splits outcome.splits
      intro!: sat_mono [OF sat_prepareTarget] sat_mono [OF sat_publishSource] sat_mono [OF sat_bindTarget]
        published_to_podI)

text \<open>
  C19: NodePublishVolume, in every environment: when it answers success, the target exists, the
  source is the device of the disk for a block volume (or the empty string when no device
  identified itself as the disk) and the existing staging directory otherwise, and it is on
  the target with the mode of the capability: it was already, or it had no mount and was
  bound there; a block volume is never published read-only, and an ephemeral one never.
\<close>

theorem NodePublishVolume_spec:
  "sat (NodePublishVolume req) env h (only_succeeds (\<lambda>r es _. \<exists>q c ctx.
     req = Some q \<and> nprVolumeId q \<noteq> [] \<and> nprTargetPath q \<noteq> [] \<and> nprVolumeCapability q = Some c \<and>
     nprPublishContext q = Some ctx \<and> AccessType c \<noteq> NoAccess \<and>
     (case nprVolumeContext q of None \<Rightarrow> True | Some vc \<Rightarrow> map_of vc EphemeralVolumeContext \<noteq> Some ''true'') \<and>
     published_to_pod c ctx q es))"
  unfolding NodePublishVolume_def
  by (auto simp: wp split: option.splits outcome.splits sum.splits intro!: sat_mono [OF sat_publishVolume])

section \<open>NodeUnstageVolume and NodeUnpublishVolume\<close>

inductive off_directory :: "string \<Rightarrow> host_event list \<Rightarrow> bool" for dir where
  no_directory: "off_directory dir [EvStat dir NotExist]"
| not_mounted: "dir \<notin> set (map mntPath ms) \<Longrightarrow> off_directory dir [EvStat dir IsDirectory, EvMounts (Inr ms)]"
| unmounted: "dir \<in> set (map mntPath ms) \<Longrightarrow>
     off_directory dir [EvStat dir IsDirectory, EvMounts (Inr ms), EvUnmount dir (Inr ())]"

inductive off_target :: "string \<Rightarrow> host_event list \<Rightarrow> bool" for dst where
  no_target: "off_target dst [EvStat dst NotExist]"
| removed: "s = IsDirectory \<or> s = NotDirectory \<Longrightarrow> rm = Removed \<or> rm = RemoveNotExist \<Longrightarrow>
     us = (if dst \<in> set (map mntPath ms) then [EvUnmount dst (Inr ())] else []) \<Longrightarrow>
     off_target dst ([EvStat dst s, EvMounts (Inr ms)] @ us @ [EvRemove dst rm])"

lemma removed_answers:
  "dst \<in> mntPath ` set ms \<Longrightarrow> s = IsDirectory \<or> s = NotDirectory \<Longrightarrow> rm = Removed \<or> rm = RemoveNotExist \<Longrightarrow>
   off_target dst [EvStat dst s, EvMounts (Inr ms), EvUnmount dst (Inr ()), EvRemove dst rm]"
  "dst \<notin> mntPath ` set ms \<Longrightarrow> s = IsDirectory \<or> s = NotDirectory \<Longrightarrow> rm = Removed \<or> rm = RemoveNotExist \<Longrightarrow>
   off_target dst [EvStat dst s, EvMounts (Inr ms), EvRemove dst rm]"
  using removed [of s rm _ dst ms] by simp_all

text \<open>
  C28: taking a volume back, in every environment. When NodeUnstageVolume answers success, the
  staging directory does not exist, or was not among the mounts of the host, or was unmounted.
  When NodeUnpublishVolume answers success, the target does not exist, or it was unmounted if
  it was among the mounts, and then removed. Nothing else is unmounted or removed.
\<close>

theorem take_back_spec:
  "sat (NodeUnstageVolume un) env h (only_succeeds (\<lambda>r es _. \<exists>q. un = Some q \<and>
     urStagingTargetPath q \<noteq> [] \<and> off_directory (urStagingTargetPath q) es)) \<and>
   sat (NodeUnpublishVolume pub) env h (only_succeeds (\<lambda>r es _. \<exists>q. pub = Some q \<and>
     nurVolumeId q \<noteq> [] \<and> nurTargetPath q \<noteq> [] \<and> off_target (nurTargetPath q) es))"
proof
  show "sat (NodeUnstageVolume un) env h (only_succeeds (\<lambda>r es _. \<exists>q. un = Some q \<and>
     urStagingTargetPath q \<noteq> [] \<and> off_directory (urStagingTargetPath q) es))"
    unfolding NodeUnstageVolume_def
    by (cases un) (auto simp: wp host_calls Let_def split: sum.splits stat_reply.splits
        intro: no_directory not_mounted unmounted)
  show "sat (NodeUnpublishVolume pub) env h (only_succeeds (\<lambda>r es _. \<exists>q. pub = Some q \<and>
     nurVolumeId q \<noteq> [] \<and> nurTargetPath q \<noteq> [] \<and> off_target (nurTargetPath q) es))"
    unfolding NodeUnpublishVolume_def rmdir_def
    by (cases pub) (auto simp: wp host_calls Let_def split: sum.splits stat_reply.splits remove_reply.splits
        intro: no_target removed_answers)
qed

end
