(* ===== verification/NodeSequences.thy ===== *)
theory NodeSequences
  imports NodeSpec
begin

text \<open>
  Sequences of node calls: what precedes every mount and unmount, and what follows for a host
  that answers truly about its mounts: a device is staged on at most one directory.
\<close>

section \<open>What must hold before a mount or an unmount\<close>

text \<open>\<open>P\<close> held of an event after which nothing was mounted or unmounted.\<close>

definition still :: "(host_event \<Rightarrow> bool) \<Rightarrow> host_event list \<Rightarrow> bool" where
  "still P pre \<longleftrightarrow> (\<exists>a e mid. pre = a @ e # mid \<and> P e \<and> list_all (\<lambda>x. \<not> is_mount_event x) mid)"

lemma still_snoc: "P e \<Longrightarrow> still P (pre @ [e])"
  unfolding still_def by (intro exI [of _ pre] exI [of _ e] exI [of _ "[]"]) simp

lemma still_keep: "still P pre \<Longrightarrow> \<not> is_mount_event e \<Longrightarrow> still P (pre @ [e])"
  unfolding still_def by (elim exE conjE) (intro exI conjI, simp, simp_all)

text \<open>
  A device or directory is mounted after the answer that it has no mount; a directory is
  unmounted after a list of the mounts in which it is; and nothing changed in between.
\<close>

fun mount_guard :: "host_event list \<Rightarrow> host_event \<Rightarrow> bool" where
  "mount_guard pre (EvFormatAndMount dev dir fs opts r) \<longleftrightarrow> still (\<lambda>e. e = EvDevMounts dev (Inr [])) pre"
| "mount_guard pre (EvBindMount src dst opts r) \<longleftrightarrow> still (\<lambda>e. e = EvDevMounts src (Inr [])) pre"
| "mount_guard pre (EvUnmount dir r) \<longleftrightarrow>
     still (\<lambda>e. \<exists>ms. e = EvMounts (Inr ms) \<and> dir \<in> set (map mntPath ms)) pre"
| "mount_guard pre _ \<longleftrightarrow> True"

lemma mount_guard_other: "\<not> is_mount_event e \<Longrightarrow> mount_guard pre e"
  by (cases e) simp_all

lemma still_answers:
  "mounted_answer dir mode ms = (False, b) \<Longrightarrow>
     still (\<lambda>e. e = EvDevMounts dev (Inr [])) (pre @ [EvDevMounts dev (Inr ms)])"
  "mounted_answer dir mode ms = (False, b) \<Longrightarrow> \<not> is_mount_event x \<Longrightarrow>
     still (\<lambda>e. e = EvDevMounts dev (Inr [])) (pre @ [EvDevMounts dev (Inr ms), x])"
  "mounted_answer dir mode ms = (False, b) \<Longrightarrow> \<not> is_mount_event x \<Longrightarrow> \<not> is_mount_event y \<Longrightarrow>
     still (\<lambda>e. e = EvDevMounts dev (Inr [])) (pre @ [EvDevMounts dev (Inr ms), x, y])"
  "dir \<in> mntPath ` set ms \<Longrightarrow>
     still (\<lambda>e. \<exists>ms. e = EvMounts (Inr ms) \<and> dir \<in> mntPath ` set ms) (pre @ [x, EvMounts (Inr ms)])"
proof -
  show one: "still (\<lambda>e. e = EvDevMounts dev (Inr [])) (pre @ [EvDevMounts dev (Inr ms)])"
    if "mounted_answer dir mode ms = (False, b)"
    using mounted_answer_cases(1) [OF that] by (simp add: still_snoc)
  show two: "still (\<lambda>e. e = EvDevMounts dev (Inr [])) (pre @ [EvDevMounts dev (Inr ms), x])"
    if "mounted_answer dir mode ms = (False, b)" "\<not> is_mount_event x" for x
    using still_keep [OF one [OF that(1)] that(2)] by simp
  show "still (\<lambda>e. e = EvDevMounts dev (Inr [])) (pre @ [EvDevMounts dev (Inr ms), x, y])"
    if "mounted_answer dir mode ms = (False, b)" "\<not> is_mount_event x" "\<not> is_mount_event y"
    using still_keep [OF two [OF that(1,2)] that(3)] by simp
  show "still (\<lambda>e. \<exists>ms. e = EvMounts (Inr ms) \<and> dir \<in> mntPath ` set ms) (pre @ [x, EvMounts (Inr ms)])"
    if "dir \<in> mntPath ` set ms"
    using still_snoc [of "\<lambda>e. \<exists>ms. e = EvMounts (Inr ms) \<and> dir \<in> mntPath ` set ms" "EvMounts (Inr ms)" "pre @ [x]"]
      that by simp
qed

section \<open>Every call keeps the guard\<close>

lemma keeps_probe: "emits is_probe m \<Longrightarrow> keeps mount_guard m"
proof (erule keeps_emits)
  show "is_probe e \<Longrightarrow> mount_guard pre e" for pre e
    by (cases e) simp_all
qed

lemma emits_getDiskPath: "emits is_probe (getDiskPath uuid)"
proof -
  have one: "emits is_probe (checkFile hex p k)" for hex p k
    unfolding checkFile_def by (auto intro!: trace_rules simp: host_calls)
  have "emits is_probe (findDevice hex ws)" for hex ws
    by (induction hex ws rule: findDevice.induct) (auto intro!: trace_rules one)
  then show ?thesis
    unfolding getDiskPath_def by (auto intro!: trace_rules simp: host_calls)
qed

lemma emits_prepareDevice: "emits is_probe (prepareDevice who uuid)"
  unfolding prepareDevice_def rescanScsiBlockDiskInVM_def
  by (auto intro!: trace_rules emits_getDiskPath simp: host_calls Let_def)

lemma keeps_stageDevice: "keeps mount_guard (stageDevice dev dir mode fs flags)"
  unfolding keeps_def stageDevice_def
  by (auto simp: wp host_calls Let_def split: sum.splits stat_reply.splits prod.splits intro: still_answers)

lemma keeps_bindTarget: "keeps mount_guard (bindTarget src dst mode flags)"
  unfolding keeps_def bindTarget_def
  by (auto simp: wp host_calls Let_def split: sum.splits prod.splits intro: still_answers)

lemma keeps_publish_parts:
  "keeps mount_guard (prepareTarget blk dst)" "keeps mount_guard (publishSource blk ctx q)"
proof -
  show "keeps mount_guard (prepareTarget blk dst)"
    unfolding keeps_def prepareTarget_def mkdir_def
    by (auto simp: wp host_calls split: sum.splits stat_reply.splits)
  show "keeps mount_guard (publishSource blk ctx q)"
    unfolding publishSource_def checkIfDirExists_def
    by (rule keeps_probe, auto intro!: trace_rules emits_getDiskPath simp: host_calls Let_def
        split: stat_reply.splits)
qed

lemma keeps_case_access_host [keeps_rules]:
  "keeps G m \<Longrightarrow> keeps G m' \<Longrightarrow> (\<And>fs fl. keeps G (k fs fl)) \<Longrightarrow>
   keeps G (case a of NoAccess \<Rightarrow> m | BlockAccess \<Rightarrow> m' | MountAccess fs fl \<Rightarrow> k fs fl)"
  by (cases a) auto

lemma keeps_node_calls:
  "keeps mount_guard (NodeStageVolume st)" "keeps mount_guard (NodeUnstageVolume un)"
  "keeps mount_guard (NodePublishVolume pb)" "keeps mount_guard (NodeUnpublishVolume up)"
  "keeps mount_guard (NodeExpandVolume ex)" "keeps mount_guard (NodeGetVolumeStats vs)"
proof -
  show "keeps mount_guard (NodeStageVolume st)"
    unfolding NodeStageVolume_def NodeStageVolumeBlockMount_def NodeStageVolumeFilesystemMount_def Let_def
    by (auto intro!: keeps_rules keeps_stageDevice keeps_probe [OF emits_prepareDevice])
  show "keeps mount_guard (NodePublishVolume pb)"
    unfolding NodePublishVolume_def publishVolume_def Let_def
    by (auto intro!: keeps_rules keeps_publish_parts keeps_bindTarget)
  show "keeps mount_guard (NodeUnstageVolume un)"
    unfolding keeps_def NodeUnstageVolume_def
    by (auto simp: wp host_calls Let_def split: sum.splits stat_reply.splits intro: still_answers)
  show "keeps mount_guard (NodeUnpublishVolume up)"
    unfolding keeps_def NodeUnpublishVolume_def rmdir_def
    by (auto simp: wp host_calls Let_def split: sum.splits stat_reply.splits remove_reply.splits
        intro: still_answers)
  show "keeps mount_guard (NodeExpandVolume ex)"
    unfolding NodeExpandVolume_def expandNode_def rescanScsiBlockDiskInVM_def
    by (auto intro!: keeps_rules simp: host_calls Let_def)
  show "keeps mount_guard (NodeGetVolumeStats vs)"
    unfolding NodeGetVolumeStats_def by (auto intro!: keeps_rules simp: host_calls Let_def)
qed

section \<open>Sequences of calls\<close>

datatype node_call =
    CallStage "stage_request option"
  | CallUnstage "unstage_request option"
  | CallNodePublish "node_publish_request option"
  | CallNodeUnpublish "node_unpublish_request option"
  | CallNodeExpand "node_expand_request option"
  | CallStats "string option"

fun node_step :: "node_call \<Rightarrow> unit host" where
  "node_step (CallStage r) = bind (NodeStageVolume r) (\<lambda>_. ret ())"
| "node_step (CallUnstage r) = bind (NodeUnstageVolume r) (\<lambda>_. ret ())"
| "node_step (CallNodePublish r) = bind (NodePublishVolume r) (\<lambda>_. ret ())"
| "node_step (CallNodeUnpublish r) = bind (NodeUnpublishVolume r) (\<lambda>_. ret ())"
| "node_step (CallNodeExpand r) = bind (NodeExpandVolume r) (\<lambda>_. ret ())"
| "node_step (CallStats r) = bind (NodeGetVolumeStats r) (\<lambda>_. ret ())"

fun node_serve :: "node_call list \<Rightarrow> unit host" where
  "node_serve [] = ret ()"
| "node_serve (c # calls) = bind (node_step c) (\<lambda>_. node_serve calls)"

lemma keeps_node_serve: "keeps mount_guard (node_serve calls)"
proof (induction calls)
  case (Cons c calls)
  then show ?case
    by (cases c) (auto intro!: keeps_rules keeps_node_calls)
qed simp

text \<open>
  Over any sequence of node calls, in every environment: a device or a directory is only
  mounted after the answer that it has no mount, and a directory is only unmounted after a
  list of the host's mounts in which it is, with no mount or unmount of the driver in between.
\<close>

theorem node_serve_guarded:
  "sat (node_serve calls) env h (\<lambda>r es. guard_ok mount_guard h es)"
  by (rule keepsD [OF keeps_node_serve])

section \<open>A host that answers truly\<close>

text \<open>
  The directories that a device is staged on are a function of the history. They grow only by
  a mount of this driver, and the answer that a device has no mount is true of them.
\<close>

fun staged_by :: "host_event \<Rightarrow> string \<Rightarrow> string set" where
  "staged_by (EvFormatAndMount dev dir _ _ _) x = (if dev = x then {dir} else {})"
| "staged_by _ x = {}"

definition host_truth :: "(host_event list \<Rightarrow> string \<Rightarrow> string set) \<Rightarrow> host_event list \<Rightarrow> host_event \<Rightarrow> bool"
where
  "host_truth T pre e \<longleftrightarrow> (\<forall>x. T (pre @ [e]) x \<subseteq> T pre x \<union> staged_by e x) \<and>
     (case e of EvDevMounts dev (Inr ms) \<Rightarrow> if ms = [] then T pre dev = {} else True | _ \<Rightarrow> True)"

lemma staged_by_other: "\<not> is_mount_event e \<Longrightarrow> staged_by e x = {}"
  by (cases e) simp_all

lemma stays_empty:
  assumes "T p dev = {}" and "guard_ok (host_truth T) p es" and "list_all (\<lambda>e. staged_by e dev = {}) es"
  shows "T (p @ es) dev = {}"
  using assms
proof (induction es arbitrary: p)
  case (Cons e es)
  have "T (p @ [e]) dev \<subseteq> T p dev \<union> staged_by e dev"
    using Cons.prems(2) by (simp add: host_truth_def)
  then have "T (p @ [e]) dev = {}" using Cons.prems(1,3) by simp
  then show ?case using Cons.IH [of "p @ [e]"] Cons.prems by simp
qed simp

text \<open>A true answer that the device has no mount holds until a device is staged.\<close>

lemma empty_since:
  assumes "guard_ok (host_truth T) [] (a @ EvDevMounts dev (Inr []) # mid)"
    and "list_all (\<lambda>e. staged_by e dev = {}) mid"
  shows "T (a @ EvDevMounts dev (Inr []) # mid) dev = {}"
proof -
  have "T (a @ [EvDevMounts dev (Inr [])]) dev = {}" and "guard_ok (host_truth T) (a @ [EvDevMounts dev (Inr [])]) mid"
    using assms(1) by (auto simp: host_truth_def)
  from stays_empty [OF this assms(2)] show ?thesis by simp
qed

lemma still_empty:
  assumes "guard_ok (host_truth T) [] pre" and "still (\<lambda>e. e = EvDevMounts dev (Inr [])) pre"
  shows "T pre dev = {}"
proof -
  obtain a mid where pre: "pre = a @ EvDevMounts dev (Inr []) # mid"
      and mid: "list_all (\<lambda>x. \<not> is_mount_event x) mid"
    using assms(2) by (auto simp: still_def)
  have "list_all (\<lambda>e. staged_by e dev = {}) mid"
    using mid by (auto simp: list_all_iff staged_by_other)
  then show ?thesis using empty_since [of T a dev mid] assms(1) by (simp add: pre)
qed

text \<open>
  Over any sequence of node calls, on a host that answers truly about its mounts, a device is
  staged on at most one directory at any time.
\<close>

theorem node_staged_once:
  assumes "node_serve calls env [] = (r, pre @ post)" and "guard_ok (host_truth T) [] (pre @ post)"
    and "at_most_one (T [] dev)"
  shows "at_most_one (T pre dev)"
proof (rule ledger_exclusive [where A = "\<lambda>es. T es dev" and gained = "\<lambda>e. staged_by e dev"
      and G = "\<lambda>pre e. host_truth T pre e \<and> mount_guard pre e"])
  have split: "guard_ok (\<lambda>pre e. host_truth T pre e \<and> mount_guard pre e) [] es \<longleftrightarrow>
      guard_ok (host_truth T) [] es \<and> guard_ok mount_guard [] es" for es
    by (auto simp: guard_ok_split)
  show "guard_ok (\<lambda>pre e. host_truth T pre e \<and> mount_guard pre e) [] pre"
    using keepsD [OF keeps_node_serve, of calls env "[]"] assms(1,2) split by (simp add: sat_pair)
  fix p e
  assume prev: "guard_ok (\<lambda>pre e. host_truth T pre e \<and> mount_guard pre e) [] p"
    and e: "host_truth T p e \<and> mount_guard p e"
  then show "T (p @ [e]) dev \<subseteq> T p dev \<union> staged_by e dev"
    by (simp add: host_truth_def)
  assume "staged_by e dev \<noteq> {}"
  then obtain dir fs opts r where "e = EvFormatAndMount dev dir fs opts r"
    by (cases e) (auto split: if_splits)
  then show "T p dev = {}"
    using still_empty [of T p dev] prev split e by simp
next
  show "at_most_one (staged_by e dev)" for e
    by (cases e) (simp_all add: at_most_one_def)
qed (rule assms(3))

section \<open>An example\<close>

text \<open>A host with one disk, and two requests to stage it: on one directory and on another.\<close>

definition uuid0 :: string where "uuid0 = ''6000c29f-8a1b-2c3d-4e5f-60718293a4b5''"
definition scsi0 :: string where "scsi0 = ''36000C29f8a1b2c3d4e5f60718293a4b5'' @ [CHR 0x0A]"

definition host0 :: host_env where
  "host0 = idle_host\<lparr>h_stat := (\<lambda>_ _. IsDirectory),
     h_walk := (\<lambda>_ root. if root = DevDiskPath
       then [WalkEntry ''/dev/disk/by-path/pci-0'' ''pci-0'' SymlinkEntry] else []),
     h_evalSymlinks := (\<lambda>_ _. Inr ''/dev/sdb''), h_scsiId := (\<lambda>_ _. Inr scsi0),
     h_devMounts := (\<lambda>h dev. Inr (if list_ex is_mount_event h
       then [\<lparr>mntPath = ''/stage1'', mntOpts = [''rw'']\<rparr>] else []))\<rparr>"

definition context0 :: context_map where
  "context0 = [(VMFullNameAttribute, ''node1''), (DiskIDAttribute, ''pvc1''),
     (DiskUUIDAttribute, uuid0), (FileSystemAttribute, ''ext4'')]"

definition stage0 :: "string \<Rightarrow> stage_request" where
  "stage0 dir = \<lparr>srVolumeId = ''pvc1'', srPublishContext = Some context0,
     srStagingTargetPath = dir, srVolumeCapability = Some \<lparr>AccessMode = Some SINGLE_NODE_WRITER,
       AccessType = MountAccess ''ext4'' []\<rparr>, srVolumeContext = None\<rparr>"

definition find0 :: "host_event list" where
  "find0 = [EvWalk ScsiHostPath [], EvWalk DevDiskPath [WalkEntry ''/dev/disk/by-path/pci-0'' ''pci-0'' SymlinkEntry],
     EvEvalSymlinks ''/dev/disk/by-path/pci-0'' (Inr ''/dev/sdb''), EvScsiId ''/dev/sdb'' (Inr scsi0),
     EvWriteFile (rescan_file ''/dev/sdb'') ''1'' (Inr ())]"

lemma uuid0_matches:
  "scsiUuid scsi0 = Some ''6000C29f8a1b2c3d4e5f60718293a4b5''"
  "to_lower ''6000C29f8a1b2c3d4e5f60718293a4b5'' = to_lower (remove_char (CHR ''-'') uuid0)"
  "uuid0 \<noteq> []" "length (split_on (CHR ''/'') ''/dev/sdb'') = 3"
  by code_simp+

lemma host0_simps:
  "h_stat host0 h p = IsDirectory" "h_writeFile host0 h p b = Inr ()"
  "h_walk host0 h ScsiHostPath = []"
  "h_walk host0 h DevDiskPath = [WalkEntry ''/dev/disk/by-path/pci-0'' ''pci-0'' SymlinkEntry]"
  "h_evalSymlinks host0 h p = Inr ''/dev/sdb''" "h_scsiId host0 h p = Inr scsi0"
  "h_devMounts host0 h p = Inr (if list_ex is_mount_event h
     then [\<lparr>mntPath = ''/stage1'', mntOpts = [''rw'']\<rparr>] else [])"
  "h_formatAndMount host0 h a b c d = Inr ()"
  by (simp_all add: host0_def idle_host_def ScsiHostPath_def DevDiskPath_def)

lemma stage0_prepare:
  "sat (prepareDevice who uuid0) host0 h Q = Q (Done (Inr ''/dev/sdb'')) find0"
  by (simp add: prepareDevice_def rescanDiskInVM_def rescanScsiBlockDiskInVM_def getDiskPath_def
      checkFile_def find0_def rescan_file_def wp host_calls host0_simps uuid0_matches Let_def)

lemma context0_lookup:
  "map_of context0 VMFullNameAttribute = Some ''node1''"
  "map_of context0 DiskUUIDAttribute = Some uuid0"
  "map_of context0 FileSystemParameter = Some ''ext4''"
  by (simp_all add: context0_def VMFullNameAttribute_def DiskIDAttribute_def DiskUUIDAttribute_def
      FileSystemAttribute_def FileSystemParameter_def)

lemma stage0_steps:
  "dir \<noteq> [] \<Longrightarrow> NodeStageVolume (Some (stage0 dir)) =
   attempt (attempt (prepareDevice ''NodeStageVolumeFilesystemMount'' uuid0) (\<lambda>e. fail e)
       (\<lambda>devicePath. stageDevice devicePath dir ''rw'' ''ext4'' [''rw'']))
     (\<lambda>e. fail (StatusError Internal ''unable to stage volume as filesystem volume'' [e])) (\<lambda>_. ok ())"
  by (simp add: NodeStageVolume_def NodeStageVolumeFilesystemMount_def stage0_def GetBlock_def
      stagedFsType_def context0_lookup CollectMountOptions_def fsTypeXFS_def isVolumeReadOnly_def mode_defs Let_def)

definition mounted0 :: "host_event list" where
  "mounted0 = find0 @ [EvDevMounts ''/dev/sdb'' (Inr []), EvStat ''/stage1'' IsDirectory,
     EvFormatAndMount ''/dev/sdb'' ''/stage1'' ''ext4'' [''rw''] (Inr ())]"

definition refused0 :: "host_event list" where
  "refused0 = find0 @ [EvDevMounts ''/dev/sdb'' (Inr [\<lparr>mntPath = ''/stage1'', mntOpts = [''rw'']\<rparr>])]"

lemma find0_mounts: "list_ex is_mount_event find0 = False"
  by (simp add: find0_def)

lemma stage0_mounts:
  "sat (NodeStageVolume (Some (stage0 ''/stage1''))) host0 [] Q = Q (Done (Inr ())) mounted0"
  by (simp add: stage0_steps stageDevice_def mounted_answer_def mounted0_def wp host_calls
      stage0_prepare host0_simps find0_mounts)

lemma stage0_refused:
  "sat (NodeStageVolume (Some (stage0 ''/stage2''))) host0 mounted0 Q =
   Q (Done (Inl (StatusError Internal ''unable to stage volume as filesystem volume''
     [StatusError Internal ''device not mounted as expected'' []]))) refused0"
  by (simp add: stage0_steps stageDevice_def mounted_answer_def mounted0_def refused0_def wp host_calls
      stage0_prepare host0_simps find0_mounts)

lemma stage0_run:
  "node_serve [CallStage (Some (stage0 ''/stage1'')), CallStage (Some (stage0 ''/stage2''))] host0 [] =
   (Done (), mounted0 @ refused0)"
  by (rule sat_exact) (simp add: wp stage0_mounts stage0_refused)

definition staged0 :: "host_event list \<Rightarrow> string \<Rightarrow> string set" where
  "staged0 es x = (if x = ''/dev/sdb'' \<and> list_ex is_mount_event es then {''/stage1''} else {})"

theorem node_staged_once_witness: "at_most_one (staged0 mounted0 ''/dev/sdb'')"
  by (rule node_staged_once [OF stage0_run])
    (simp_all add: host_truth_def staged0_def mounted0_def refused0_def find0_def at_most_one_def)

end
