(* ===== verification/ConcurrentNode.thy ===== *)
theory ConcurrentNode
  imports NodeSequences Concurrency
begin

text \<open>
  Node calls that run at the same time. The node service holds no lock: the check that a
  device has no mount and the mount are two requests, and another call may act between them.
  The interface (CSI) asks the orchestrator to have no more than one call in flight for a
  volume. Under that condition a device is still staged on at most one directory; without it
  the two calls of the example stage one device twice.
\<close>

section \<open>Executions without a lock\<close>

text \<open>
  The threads are sequences of node calls, each with the answers of an environment of its own;
  a log is an execution up to some point when each thread has done a part of its events.
\<close>

definition node_threads :: "(nat \<Rightarrow> node_call list) \<Rightarrow> (nat \<Rightarrow> host_env) \<Rightarrow> nat \<Rightarrow> host_event list" where
  "node_threads calls env i = snd (node_serve (calls i) (env i) [])"

definition shuffled :: "(nat \<Rightarrow> 'ev list) \<Rightarrow> 'ev log \<Rightarrow> bool" where
  "shuffled runs L \<longleftrightarrow> (\<forall>i. prefix (of_thread i L) (runs i))"

lemma shuffled_prefix: "shuffled runs (L @ K) \<Longrightarrow> shuffled runs L"
  unfolding shuffled_def by (metis of_thread_simps(2) append_prefixD)

lemma shuffled_guard:
  assumes "shuffled runs (L @ (i, e) # K)" and "guard_ok G [] (runs i)"
  shows "G (of_thread i L) e"
  using guard_in_log [of G runs i L e K] assms unfolding shuffled_def by blast

lemma node_threads_guarded: "guard_ok mount_guard [] (node_threads calls env i)"
  using keepsD [OF keeps_node_serve, of "calls i" "env i" "[]"] by (simp add: node_threads_def sat_iff)

text \<open>
  One at a time, for a device: when a thread stages it, any other thread that stages it has not
  begun, or makes no further request.
\<close>

definition stages :: "string \<Rightarrow> nat \<Rightarrow> host_event log \<Rightarrow> bool" where
  "stages dev j L \<longleftrightarrow> list_ex (\<lambda>e. staged_by e dev \<noteq> {}) (of_thread j L)"

definition one_at_a_time :: "string \<Rightarrow> host_event log \<Rightarrow> bool" where
  "one_at_a_time dev L \<longleftrightarrow> (\<forall>K i e M j. L = K @ (i, e) # M \<longrightarrow> staged_by e dev \<noteq> {} \<longrightarrow> j \<noteq> i \<longrightarrow>
     stages dev j L \<longrightarrow> of_thread j K = [] \<or> of_thread j M = [])"

lemma one_at_a_timeD:
  "one_at_a_time dev (K @ (i, e) # M) \<Longrightarrow> staged_by e dev \<noteq> {} \<Longrightarrow> j \<noteq> i \<Longrightarrow>
   stages dev j (K @ (i, e) # M) \<Longrightarrow> of_thread j K = [] \<or> of_thread j M = []"
  unfolding one_at_a_time_def by blast

lemma one_at_a_time_prefix:
  assumes "one_at_a_time dev (L @ R)"
  shows "one_at_a_time dev L"
  unfolding one_at_a_time_def
proof (intro allI impI)
  fix K i e M j
  assume L: "L = K @ (i, e) # M" and e: "staged_by e dev \<noteq> {}" and j: "j \<noteq> i" "stages dev j L"
  have "stages dev j (L @ R)" using j(2) by (simp add: stages_def)
  then show "of_thread j K = [] \<or> of_thread j M = []"
    using one_at_a_timeD [of dev K i e "M @ R" j] assms e j(1) by (auto simp: L)
qed

text \<open>
  At a mount, the thread's own check of the device still holds: since then no thread has staged
  the device, the thread itself by its guard, and the others because it has begun and goes on.
\<close>

lemma check_holds:
  assumes "shuffled runs (L @ [(j, e)])" and "guard_ok mount_guard [] (runs j)"
    and "one_at_a_time dev (L @ [(j, e)])" and "staged_by e dev \<noteq> {}"
    and "guard_ok (host_truth T) [] (history L)"
  shows "T (history L) dev = {}"
proof -
  obtain dir fs opts r where e: "e = EvFormatAndMount dev dir fs opts r"
    using assms(4) by (cases e) (auto split: if_splits)
  have "mount_guard (of_thread j L) e" by (rule shuffled_guard [OF assms(1,2)])
  then obtain a mid where own: "of_thread j L = a @ EvDevMounts dev (Inr []) # mid"
      and mid: "list_all (\<lambda>x. \<not> is_mount_event x) mid"
    by (auto simp: e still_def)
  obtain K M where L: "L = K @ (j, EvDevMounts dev (Inr [])) # M" and M: "of_thread j M = mid"
    using of_thread_split [OF own] by blast
  have "staged_by f dev = {}" if inM: "f \<in> set (history M)" for f
  proof (rule ccontr)
    assume f: "staged_by f dev \<noteq> {}"
    obtain k where "(k, f) \<in> set M" using inM by auto
    then obtain M1 M2 where split: "M = M1 @ (k, f) # M2" by (meson split_list)
    have "k \<noteq> j"
    proof
      assume "k = j"
      then have "f \<in> set mid" using M by (auto simp: split)
      then show False using mid f by (auto simp: list_all_iff staged_by_other)
    qed
    moreover have "stages dev j (L @ [(j, e)])" using assms(4) by (simp add: stages_def)
    ultimately show False
      using one_at_a_timeD [of dev "K @ (j, EvDevMounts dev (Inr [])) # M1" k f "M2 @ [(j, e)]" j] assms(3) f
      by (auto simp: L split)
  qed
  then have "list_all (\<lambda>f. staged_by f dev = {}) (history M)" by (auto simp: list_all_iff)
  from empty_since [OF _ this, of T "history K"] show ?thesis using assms(5) by (simp add: L)
qed

section \<open>At most one directory\<close>

text \<open>
  C20: node calls that run at the same time in any interleaving, on a host that answers truly
  about its mounts: a device is staged on at most one directory at any point, provided that
  the calls that stage this device do not overlap. The mounts of a device may go at any time;
  that they come only by this driver's mounts is the assumption that nobody else mounts it.
\<close>

theorem concurrent_staged_once:
  assumes "shuffled (node_threads calls env) L" and "guard_ok (host_truth T) [] (history L)"
    and "one_at_a_time dev L" and "at_most_one (T [] dev)"
  shows "at_most_one (T (history L) dev)"
  using assms(1-3)
proof (induction L rule: rev_induct)
  case Nil
  show ?case using assms(4) by simp
next
  case (snoc x L)
  obtain j e where x: "x = (j, e)" by fastforce
  have truth: "guard_ok (host_truth T) [] (history L)" "host_truth T (history L) e"
    using snoc.prems(2) by (simp_all add: x)
  then have grow: "T (history L @ [e]) dev \<subseteq> T (history L) dev \<union> staged_by e dev"
    by (simp add: host_truth_def)
  have one: "at_most_one (T (history L) dev)"
    by (rule snoc.IH [OF shuffled_prefix [OF snoc.prems(1)] truth(1) one_at_a_time_prefix [OF snoc.prems(3)]])
  show ?case
  proof (cases "staged_by e dev = {}")
    case True
    then show ?thesis using grow one by (auto simp: x intro: at_most_one_mono)
  next
    case False
    have "T (history L) dev = {}"
      using check_holds [of "node_threads calls env" L j e dev T] node_threads_guarded snoc.prems(1,3) False truth(1)
      by (simp add: x)
    moreover have "at_most_one (staged_by e dev)"
      by (cases e) (simp_all add: at_most_one_def)
    ultimately show ?thesis using grow by (auto simp: x intro: at_most_one_mono)
  qed
qed

section \<open>Examples\<close>

text \<open>
  Two requests for the disk of the example, on two directories. The second looks for the
  device before the first mounts it, and asks about its mounts afterwards: it is refused.
\<close>

definition busy_host :: host_env where
  "busy_host = host0\<lparr>h_devMounts := (\<lambda>_ _. Inr [\<lparr>mntPath = ''/stage1'', mntOpts = [''rw'']\<rparr>])\<rparr>"

definition two_stages :: "string \<Rightarrow> nat \<Rightarrow> node_call list" where
  "two_stages dir i = (if i = 0 then [CallStage (Some (stage0 ''/stage1''))]
     else if i = 1 then [CallStage (Some (stage0 dir))] else [])"

definition mounted_at :: "string \<Rightarrow> host_event list" where
  "mounted_at dir = find0 @ [EvDevMounts ''/dev/sdb'' (Inr []), EvStat dir IsDirectory,
     EvFormatAndMount ''/dev/sdb'' dir ''ext4'' [''rw''] (Inr ())]"

definition late_log :: "host_event log" where
  "late_log = map (Pair 1) find0 @ map (Pair 0) mounted0 @
     [(1, EvDevMounts ''/dev/sdb'' (Inr [\<lparr>mntPath = ''/stage1'', mntOpts = [''rw'']\<rparr>]))]"

lemma busy_host_simps:
  "h_devMounts busy_host h dev = Inr [\<lparr>mntPath = ''/stage1'', mntOpts = [''rw'']\<rparr>]"
  "h_stat busy_host = h_stat host0" "h_writeFile busy_host = h_writeFile host0" "h_walk busy_host = h_walk host0"
  "h_evalSymlinks busy_host = h_evalSymlinks host0" "h_scsiId busy_host = h_scsiId host0"
  by (simp_all add: busy_host_def)

lemma busy_prepare: "sat (prepareDevice who uuid0) busy_host h Q = Q (Done (Inr ''/dev/sdb'')) find0"
  by (simp add: prepareDevice_def rescanDiskInVM_def rescanScsiBlockDiskInVM_def getDiskPath_def
      checkFile_def find0_def rescan_file_def wp host_calls busy_host_simps host0_simps uuid0_matches Let_def)

lemma late_threads:
  "node_threads (two_stages ''/stage2'') (\<lambda>i. if i = 0 then host0 else busy_host) =
     (\<lambda>i. if i = 0 then mounted0 else if i = 1 then refused0 else [])"
proof -
  have "node_serve [CallStage (Some (stage0 ''/stage1''))] host0 [] = (Done (), mounted0)"
    by (rule sat_exact) (simp add: wp stage0_mounts)
  moreover have "node_serve [CallStage (Some (stage0 ''/stage2''))] busy_host [] = (Done (), refused0)"
    by (rule sat_exact) (simp add: wp stage0_steps stageDevice_def mounted_answer_def refused0_def host_calls
        busy_prepare busy_host_simps)
  ultimately show ?thesis
    by (auto simp: node_threads_def two_stages_def run_simps)
qed

lemma late_shuffled: "shuffled (node_threads (two_stages ''/stage2'') (\<lambda>i. if i = 0 then host0 else busy_host)) late_log"
  by (simp add: shuffled_def late_threads late_log_def refused0_def)

lemma late_history:
  "history late_log = find0 @ mounted0 @ [EvDevMounts ''/dev/sdb'' (Inr [\<lparr>mntPath = ''/stage1'', mntOpts = [''rw'']\<rparr>])]"
  by (simp add: late_log_def)

lemma late_one: "one_at_a_time ''/dev/sdb'' late_log"
proof -
  have "\<not> stages ''/dev/sdb'' j late_log" if "j \<noteq> 0" for j
    using that by (cases "j = 1") (simp_all add: stages_def late_log_def find0_def)
  moreover have "stages ''/dev/sdb'' i late_log"
    if "late_log = K @ (i, e) # M" "staged_by e ''/dev/sdb'' \<noteq> {}" for K i e M
    using that(2) unfolding that(1) by (simp add: stages_def)
  ultimately show ?thesis unfolding one_at_a_time_def by metis
qed

theorem concurrent_staged_once_witness: "at_most_one (staged0 (history late_log) ''/dev/sdb'')"
  by (rule concurrent_staged_once [OF late_shuffled _ late_one])
    (simp_all add: host_truth_def staged0_def late_history mounted0_def find0_def at_most_one_def)

text \<open>
  The same requests, when the second asks about the mounts before the first mounts: both calls
  mount the device, on a host that answers truly, and it is staged on two directories. So the
  condition that the calls do not overlap is needed.
\<close>

definition staged_dirs :: "host_event list \<Rightarrow> string \<Rightarrow> string set" where
  "staged_dirs es x = \<Union> (set (map (\<lambda>e. staged_by e x) es))"

definition overlap_log :: "host_event log" where
  "overlap_log = map (Pair 0) (find0 @ [EvDevMounts ''/dev/sdb'' (Inr []), EvStat ''/stage1'' IsDirectory]) @
     map (Pair 1) (mounted_at ''/stage2'') @
     [(0, EvFormatAndMount ''/dev/sdb'' ''/stage1'' ''ext4'' [''rw''] (Inr ()))]"

lemma overlap_staged_twice:
  "shuffled (node_threads (two_stages ''/stage2'') (\<lambda>_. host0)) overlap_log"
  "guard_ok (host_truth staged_dirs) [] (history overlap_log)"
  "staged_dirs (history overlap_log) ''/dev/sdb'' = {''/stage1'', ''/stage2''}"
proof -
  have run: "node_serve [CallStage (Some (stage0 dir))] host0 [] = (Done (), mounted_at dir)" if "dir \<noteq> []" for dir
    by (rule sat_exact) (simp add: that wp stage0_steps stageDevice_def mounted_answer_def mounted_at_def host_calls
        stage0_prepare host0_simps find0_mounts)
  then have "node_threads (two_stages ''/stage2'') (\<lambda>_. host0) i =
      (if i = 0 then mounted_at ''/stage1'' else if i = 1 then mounted_at ''/stage2'' else [])" for i
    by (simp add: node_threads_def two_stages_def run_simps)
  then show "shuffled (node_threads (two_stages ''/stage2'') (\<lambda>_. host0)) overlap_log"
    by (simp add: shuffled_def overlap_log_def mounted_at_def)
  have "staged_dirs [] x = {}" "staged_dirs (es @ [e]) x = staged_dirs es x \<union> staged_by e x" for es e x
    by (auto simp: staged_dirs_def)
  then show "guard_ok (host_truth staged_dirs) [] (history overlap_log)"
    by (simp add: host_truth_def overlap_log_def mounted_at_def find0_def staged_dirs_def)
qed (auto simp: overlap_log_def mounted_at_def find0_def staged_dirs_def)

end
