(* ===== verification/MountTable.thy ===== *)
theory MountTable
  imports NodeSequences
begin

text \<open>
  The node calls against a mount table: on a host whose mounts are those that it had at the start
  and those that the calls have made since, staging and unstaging act on the table as an abstract
  machine does. What the kernel decides is a parameter: the mounts of the start, the options it
  lists for those that were asked for, the source it lists for a path that is bound and is no mount
  point, and what a bind leaves behind that fails in its second step.
\<close>

section \<open>The abstract machine\<close>

type_synonym mtab = "(string \<times> mount_info) list"

definition mounts_of :: "mtab \<Rightarrow> string \<Rightarrow> mount_info list" where
  "mounts_of t dev = map snd (filter (\<lambda>x. fst x = dev) t)"

text \<open>The device is in the table on the directory with the mode.\<close>

definition in_table :: "mtab \<Rightarrow> string \<Rightarrow> string \<Rightarrow> string \<Rightarrow> bool" where
  "in_table t dev dir mode \<longleftrightarrow> list_ex (\<lambda>m. mntPath m = dir \<and> mode \<in> set (mntOpts m)) (mounts_of t dev)"

text \<open>
  Staging: a device that is in the table is not mounted again, and staging is done only when
  it is there on the directory with the mode. None: not possible.
\<close>

definition abs_stage :: "string \<Rightarrow> string \<Rightarrow> string \<Rightarrow> string list \<Rightarrow> mtab \<Rightarrow> mtab option" where
  "abs_stage dev dir mode opts t =
     (if mounts_of t dev = [] then Some ((dev, \<lparr>mntPath = dir, mntOpts = opts\<rparr>) # t)
      else if in_table t dev dir mode then Some t else None)"

fun abs_unmount :: "string \<Rightarrow> mtab \<Rightarrow> mtab" where
  "abs_unmount dir [] = []"
| "abs_unmount dir (x # t) = (if mntPath (snd x) = dir then t else x # abs_unmount dir t)"

lemma abs_unmount_id: "dir \<notin> set (map (mntPath \<circ> snd) t) \<Longrightarrow> abs_unmount dir t = t"
  by (induction t) auto

section \<open>The table of a history\<close>

text \<open>
  The kernel's part. gofsutil takes the device of a mount from the mount source in mountinfo: for a
  bound directory that is a mount point it is the device mounted there, and for any other path it is
  the source of the file system that holds it, as devtmpfs for a device file. A bind is two
  mounts, the second one to set the options; when that one fails, the first stays.
\<close>

record kernel =
  atBoot :: mtab
  listed :: "string list \<Rightarrow> string list"
  sourceOf :: "mtab \<Rightarrow> string \<Rightarrow> string"
  leaves :: "mtab \<Rightarrow> host_event \<Rightarrow> string list option"

definition mount_device :: "kernel \<Rightarrow> mtab \<Rightarrow> string \<Rightarrow> string" where
  "mount_device K t src = (case List.find (\<lambda>x. mntPath (snd x) = src) t of
     Some x \<Rightarrow> fst x | None \<Rightarrow> sourceOf K t src)"

text \<open>An unmount takes the last mount of the directory; a mount that fails leaves none, but for a bind.\<close>

fun table_step :: "kernel \<Rightarrow> mtab \<Rightarrow> host_event \<Rightarrow> mtab" where
  "table_step K t (EvFormatAndMount dev dir fs opts (Inr _)) = (dev, \<lparr>mntPath = dir, mntOpts = listed K opts\<rparr>) # t"
| "table_step K t (EvBindMount src dst opts (Inr _)) =
     (mount_device K t src, \<lparr>mntPath = dst, mntOpts = listed K opts\<rparr>) # t"
| "table_step K t (EvBindMount src dst opts (Inl e)) = (case leaves K t (EvBindMount src dst opts (Inl e)) of
     None \<Rightarrow> t | Some opts' \<Rightarrow> (mount_device K t src, \<lparr>mntPath = dst, mntOpts = opts'\<rparr>) # t)"
| "table_step K t (EvUnmount dir (Inr _)) = abs_unmount dir t"
| "table_step K t _ = t"

definition mtab :: "kernel \<Rightarrow> host_event list \<Rightarrow> mtab" where
  "mtab K h = foldl (table_step K) (atBoot K) h"

lemma mtab_simps [simp]:
  "mtab K [] = atBoot K" "mtab K (h @ [e]) = table_step K (mtab K h) e"
  by (simp_all add: mtab_def)

lemma mtab_append: "mtab K (h @ es) = foldl (table_step K) (mtab K h) es"
  by (simp add: mtab_def)

lemma table_step_probe: "is_probe e \<Longrightarrow> table_step K t e = t"
  by (cases e) simp_all

lemma mtab_probes: "list_all is_probe es \<Longrightarrow> mtab K (h @ es) = mtab K h"
  by (induction es rule: rev_induct) (simp_all add: table_step_probe flip: append_assoc)

lemma table_step_quiet: "\<not> is_mount_event e \<Longrightarrow> table_step K t e = t"
  by (cases e) simp_all

lemma mtab_quiet: "list_all (\<lambda>e. \<not> is_mount_event e) es \<Longrightarrow> mtab K (h @ es) = mtab K h"
  by (induction es rule: rev_induct) (simp_all add: table_step_quiet flip: append_assoc)

text \<open>A host whose answers about mounts are those of the table of its history, for that kernel.\<close>

definition tabled :: "kernel \<Rightarrow> host_env \<Rightarrow> bool" where
  "tabled K env \<longleftrightarrow> (\<forall>h dev. h_devMounts env h dev = Inr (mounts_of (mtab K h) dev)) \<and>
     (\<forall>h. h_mounts env h = Inr (map snd (mtab K h)))"

lemma tabledD:
  assumes "tabled K env"
  shows "h_devMounts env h dev = Inr (mounts_of (mtab K h) dev)" "h_mounts env h = Inr (map snd (mtab K h))"
  using assms by (simp_all add: tabled_def)

text \<open>
  A call performs \<open>f\<close>: when it answers success the table is changed by \<open>f\<close>, and otherwise it is
  left as it was.
\<close>

definition performs :: "(mtab \<Rightarrow> mtab option) \<Rightarrow> mtab \<Rightarrow> 'a res outcome \<Rightarrow> mtab \<Rightarrow> bool" where
  "performs f t r t' \<longleftrightarrow> (case r of Done (Inr _) \<Rightarrow> f t = Some t' | _ \<Rightarrow> t' = t)"

lemma performs_simps [simp]:
  "performs f t (Done (Inr x)) t' \<longleftrightarrow> f t = Some t'"
  "performs f t (Done (Inl e)) t' \<longleftrightarrow> t' = t"
  "performs f t (Panic s) t' \<longleftrightarrow> t' = t"
  by (simp_all add: performs_def)

section \<open>Staging\<close>

lemma in_table_found:
  "mounted_answer dir mode (mounts_of t dev) = (True, True) \<Longrightarrow> in_table t dev dir mode"
  by (drule mounted_answer_cases(2)) (auto simp: in_table_def list_ex_iff dest!: find_Some_split)

lemma sat_stageDevice_table:
  assumes "tabled K env"
  shows "sat (stageDevice dev dir mode fs flags) env h
    (\<lambda>r es. performs (abs_stage dev dir mode (listed K flags)) (mtab K h) r (mtab K (h @ es)))"
proof (cases "mounts_of (mtab K h) dev = []")
  case True
  have "mounted_answer dir mode [] = (False, False)" by (simp add: mounted_answer_def)
  then show ?thesis
    by (auto simp: True stageDevice_def wp host_calls tabledD [OF assms(1)] mtab_append abs_stage_def
        Let_def split: sum.split stat_reply.split)
next
  case False
  then obtain b where b: "mounted_answer dir mode (mounts_of (mtab K h) dev) = (True, b)"
    by (cases "mounted_answer dir mode (mounts_of (mtab K h) dev)") (simp add: mounted_answer_def split: option.splits)
  then show ?thesis
    using False in_table_found [of dir mode "mtab K h" dev]
    by (cases b) (simp_all add: stageDevice_def wp host_calls tabledD [OF assms(1)] abs_stage_def Let_def)
qed

text \<open>What staging a request does to the table, for the device that was found.\<close>

definition abs_NodeStage :: "kernel \<Rightarrow> stage_request \<Rightarrow> string \<Rightarrow> mtab \<Rightarrow> mtab option" where
  "abs_NodeStage K q dev t = (case (srVolumeCapability q, srPublishContext q) of
     (Some c, Some ctx) \<Rightarrow>
       if GetBlock c then Some t
       else (case (AccessType c, stagedFsType (srVolumeContext q) ctx) of
         (MountAccess _ flags, Inr fs) \<Rightarrow>
           abs_stage dev (srStagingTargetPath q) (capability_mode c)
             (listed K (CollectMountOptions fs flags @ [capability_mode c])) t
       | _ \<Rightarrow> None)
   | _ \<Rightarrow> None)"

text \<open>The device was found, by the UUID of the publish context, at the start of the events.\<close>

definition found_device :: "stage_request \<Rightarrow> string \<Rightarrow> host_event list \<Rightarrow> bool" where
  "found_device q dev es \<longleftrightarrow> (\<exists>ctx uuid ps ms. srPublishContext q = Some ctx \<and>
     map_of ctx DiskUUIDAttribute = Some uuid \<and> prepared uuid dev ps \<and> es = ps @ ms)"

lemma found_deviceI:
  "srPublishContext q = Some ctx \<Longrightarrow> map_of ctx DiskUUIDAttribute = Some uuid \<Longrightarrow> prepared uuid dev ps \<Longrightarrow>
   found_device q dev (ps @ ms)"
  unfolding found_device_def by blast

lemma sat_prepareDevice_table:
  "sat (prepareDevice who uuid) env h (\<lambda>r es. mtab K (h @ es) = mtab K h \<and>
     only_succeeds (\<lambda>r es dev. prepared uuid dev es) r es)"
  unfolding sat_conj
  by (intro conjI sat_prepareDevice emits_rule [OF emits_prepareDevice] mtab_probes)

definition staged_table :: "kernel \<Rightarrow> stage_request \<Rightarrow> mtab \<Rightarrow> unit res outcome \<Rightarrow> host_event list \<Rightarrow> mtab \<Rightarrow> bool" where
  "staged_table K q t r es t' \<longleftrightarrow> (case r of
     Done (Inr _) \<Rightarrow> \<exists>dev. found_device q dev es \<and> abs_NodeStage K q dev t = Some t'
   | _ \<Rightarrow> t' = t)"

lemma staged_table_simps [simp]:
  "staged_table K q t (Done (Inr x)) es t' \<longleftrightarrow> (\<exists>dev. found_device q dev es \<and> abs_NodeStage K q dev t = Some t')"
  "staged_table K q t (Done (Inl e)) es t' \<longleftrightarrow> t' = t"
  "staged_table K q t (Panic s) es t' \<longleftrightarrow> t' = t"
  by (simp_all add: staged_table_def)

lemma sat_block_table:
  assumes "srVolumeCapability q = Some c" and "srPublishContext q = Some ctx" and "GetBlock c"
  shows "sat (NodeStageVolumeBlockMount ctx q) env h (\<lambda>r es. staged_table K q (mtab K h) r es (mtab K (h @ es)))"
  unfolding NodeStageVolumeBlockMount_def
  using found_deviceI [OF assms(2), where ms = "[]"]
  by (auto simp: wp abs_NodeStage_def assms split: option.splits outcome.splits sum.splits
      intro!: sat_mono [OF sat_prepareDevice_table [where K = K]]) blast

lemma sat_filesystem_table:
  assumes "tabled K env" and "srVolumeCapability q = Some c" and "srPublishContext q = Some ctx" and "\<not> GetBlock c"
  shows "sat (NodeStageVolumeFilesystemMount c ctx q) env h (\<lambda>r es. staged_table K q (mtab K h) r es (mtab K (h @ es)))"
proof -
  have stage: "sat (stageDevice dev (srStagingTargetPath q) (capability_mode c) fs
        (CollectMountOptions fs flags @ [capability_mode c])) env (h @ es)
      (\<lambda>r es'. staged_table K q (mtab K h) r (es @ es') (mtab K (h @ es @ es')))"
    if "AccessType c = MountAccess fs' flags" "stagedFsType (srVolumeContext q) ctx = Inr fs"
      "found_device q dev es" "mtab K (h @ es) = mtab K h" for dev fs fs' flags es
  proof (rule sat_mono [OF sat_stageDevice_table [OF assms(1)]], goal_cases)
    case (1 r es')
    have "found_device q dev (es @ es')" using that(3) unfolding found_device_def by (metis append_assoc)
    moreover have "mtab K ((h @ es) @ es') = mtab K (h @ es @ es')" by simp
    ultimately show ?case
      using 1 that(1,2,4) assms(2-4)
      by (auto simp: performs_def staged_table_def abs_NodeStage_def split: outcome.splits sum.splits)
  qed
  show ?thesis
    unfolding NodeStageVolumeFilesystemMount_def capability_mode_def [symmetric] Let_def
    by (auto simp: wp split: option.splits outcome.splits sum.splits access_type.splits
      intro!: sat_mono [OF sat_prepareDevice_table [where K = K]] stage found_deviceI [OF assms(3), where ms = "[]", simplified])
qed

lemma sat_NodeStageVolume_table:
  assumes "tabled K env"
  shows "sat (NodeStageVolume (Some q)) env h (\<lambda>r es. staged_table K q (mtab K h) r es (mtab K (h @ es)))"
  unfolding NodeStageVolume_def
  by (auto simp: wp split: option.splits outcome.splits sum.splits
      intro!: sat_mono [OF sat_block_table] sat_mono [OF sat_filesystem_table [OF assms]])

section \<open>Unstaging\<close>

definition abs_NodeUnstage :: "unstage_request \<Rightarrow> mtab \<Rightarrow> mtab option" where
  "abs_NodeUnstage q t = (if urStagingTargetPath q = [] then None else Some (abs_unmount (urStagingTargetPath q) t))"

text \<open>A directory on which something is mounted exists.\<close>

definition mounted_exists :: "kernel \<Rightarrow> host_env \<Rightarrow> bool" where
  "mounted_exists K env \<longleftrightarrow> (\<forall>h. list_all (\<lambda>x. h_stat env h (mntPath (snd x)) \<noteq> NotExist) (mtab K h))"

lemma sat_NodeUnstageVolume_table:
  assumes "tabled K env" and "mounted_exists K env"
  shows "sat (NodeUnstageVolume (Some q)) env h
    (\<lambda>r es. performs (abs_NodeUnstage q) (mtab K h) r (mtab K (h @ es)))"
proof -
  let ?dir = "urStagingTargetPath q"
  have absent: "abs_unmount ?dir (mtab K h) = mtab K h" if "?dir \<notin> (\<lambda>x. mntPath (snd x)) ` set (mtab K h)"
    using that by (intro abs_unmount_id) auto
  have "?dir \<notin> (\<lambda>x. mntPath (snd x)) ` set (mtab K h)" if "h_stat env h ?dir = NotExist"
    using assms(2) that by (auto simp: mounted_exists_def list_all_iff) (metis snd_conv)
  note gone = absent [OF this]
  show ?thesis
    unfolding NodeUnstageVolume_def
    by (auto simp: wp host_calls Let_def tabledD [OF assms(1)] abs_NodeUnstage_def mtab_append image_image
        absent gone split: stat_reply.split sum.split)
qed

text \<open>
  C21: staging refines the abstract machine: on a host whose answers about mounts are those of
  the table of its start and of the calls made so far, whatever the kernel decides, a call that answers success has found the device of the
  disk and changed the table as the abstract operation does for that device, and a call that
  answers an error has left the table as it was.
\<close>

theorem NodeStageVolume_refines:
  assumes "tabled K env"
  shows "sat (NodeStageVolume (Some q)) env h (\<lambda>r es. staged_table K q (mtab K h) r es (mtab K (h @ es)))"
  by (rule sat_NodeStageVolume_table [OF assms])

text \<open>
  Unstaging refines the abstract machine on such a host, where a directory with a mount
  exists: a call that answers success has removed the mount on the staging directory, if there
  was one, and a call that answers an error has left the table as it was.
\<close>

theorem NodeUnstageVolume_refines:
  assumes "tabled K env" and "mounted_exists K env"
  shows "sat (NodeUnstageVolume (Some q)) env h
    (\<lambda>r es. performs (abs_NodeUnstage q) (mtab K h) r (mtab K (h @ es)))"
  by (rule sat_NodeUnstageVolume_table [OF assms])

text \<open>
  Staging a volume on a directory that has no mount, and then unstaging it, leaves the
  mounts as they were: nothing stays behind, and no other mount is touched.
\<close>

theorem stage_unstage:
  assumes "tabled K env" and "mounted_exists K env"
    and "srStagingTargetPath q \<notin> mntPath ` snd ` set (mtab K h)"
    and "urStagingTargetPath u = srStagingTargetPath q"
  shows "sat (NodeStageVolume (Some q)) env h (only_succeeds (\<lambda>r es _.
    sat (NodeUnstageVolume (Some u)) env (h @ es) (only_succeeds (\<lambda>r' es' _. mtab K (h @ es @ es') = mtab K h))))"
proof (rule sat_mono [OF sat_NodeStageVolume_table [OF assms(1)]], rule only_succeedsI)
  fix r es and x :: unit
  assume "staged_table K q (mtab K h) r es (mtab K (h @ es))" and "r = Done (Inr x)"
  then obtain dev where dev: "abs_NodeStage K q dev (mtab K h) = Some (mtab K (h @ es))" by auto
  have "\<not> in_table (mtab K h) dev' (srStagingTargetPath q) mode" for dev' mode
    using assms(3) by (force simp: in_table_def mounts_of_def list_ex_iff)
  then have "abs_unmount (srStagingTargetPath q) (mtab K (h @ es)) = mtab K h"
    using dev [symmetric] assms(3) abs_unmount_id [of "srStagingTargetPath q" "mtab K h"]
    by (auto simp: abs_NodeStage_def abs_stage_def image_image o_def
        split: option.splits if_splits access_type.splits sum.splits)
  then show "sat (NodeUnstageVolume (Some u)) env (h @ es) (only_succeeds (\<lambda>r' es' _. mtab K (h @ es @ es') = mtab K h))"
    using assms(4)
    by (intro sat_mono [OF sat_NodeUnstageVolume_table [OF assms(1,2)]], intro only_succeedsI)
      (simp add: abs_NodeUnstage_def split: if_splits)
qed

section \<open>An example\<close>

definition K0 :: kernel where
  "K0 = \<lparr>atBoot = [], listed = (\<lambda>opts. opts), sourceOf = (\<lambda>_ _. ''devtmpfs''), leaves = (\<lambda>_ _. None)\<rparr>"

lemma K0_simps [simp]:
  "atBoot K0 = []" "listed K0 opts = opts" "sourceOf K0 t src = ''devtmpfs''" "leaves K0 t e = None"
  by (simp_all add: K0_def)

definition table_host :: host_env where
  "table_host = host0\<lparr>h_devMounts := (\<lambda>h dev. Inr (mounts_of (mtab K0 h) dev)),
     h_mounts := (\<lambda>h. Inr (map snd (mtab K0 h)))\<rparr>"

lemma table_host_ok: "tabled K0 table_host" "mounted_exists K0 table_host"
  by (simp_all add: tabled_def mounted_exists_def table_host_def host0_def list_all_iff)

lemma table_host_simps:
  "h_stat table_host h p = IsDirectory" "h_writeFile table_host h p b = Inr ()"
  "h_walk table_host h p = h_walk host0 h p" "h_evalSymlinks table_host h p = Inr ''/dev/sdb''"
  "h_scsiId table_host h p = Inr scsi0" "h_formatAndMount table_host h a b c d = Inr ()"
  "h_unmount table_host h p = Inr ()"
  by (simp_all add: table_host_def host0_def idle_host_def)

lemma find0_mtab: "mtab K0 find0 = []"
  by (simp add: mtab_def find0_def)

lemma table_run:
  "sat (NodeStageVolume (Some (stage0 ''/stage1''))) table_host [] Q = Q (Done (Inr ())) mounted0"
proof -
  have "sat (prepareDevice who uuid0) table_host h Q = Q (Done (Inr ''/dev/sdb'')) find0" for who h Q
    by (simp add: prepareDevice_def rescanDiskInVM_def rescanScsiBlockDiskInVM_def getDiskPath_def
        checkFile_def find0_def rescan_file_def wp host_calls table_host_simps host0_simps uuid0_matches Let_def)
  then show ?thesis
    by (simp add: stage0_steps stageDevice_def mounted_answer_def mounted0_def wp host_calls
        table_host_simps find0_mtab tabledD [OF table_host_ok(1)] mounts_of_def)
qed

lemma mounted0_mtab:
  "mtab K0 mounted0 = [(''/dev/sdb'', \<lparr>mntPath = ''/stage1'', mntOpts = [''rw'']\<rparr>)]"
  by (simp add: mtab_def mounted0_def find0_def)

theorem NodeStageVolume_refines_witness:
  "\<exists>dev. found_device (stage0 ''/stage1'') dev mounted0 \<and>
     abs_NodeStage K0 (stage0 ''/stage1'') dev [] = Some [(''/dev/sdb'', \<lparr>mntPath = ''/stage1'', mntOpts = [''rw'']\<rparr>)]"
  using NodeStageVolume_refines [OF table_host_ok(1), of "stage0 ''/stage1''" "[]"]
  by (simp add: table_run mounted0_mtab)

definition unstage0 :: unstage_request where
  "unstage0 = \<lparr>urVolumeId = ''pvc1'', urStagingTargetPath = ''/stage1''\<rparr>"

lemma unstage_run:
  "sat (NodeUnstageVolume (Some unstage0)) table_host mounted0 Q =
   Q (Done (Inr ())) [EvStat ''/stage1'' IsDirectory,
     EvMounts (Inr [\<lparr>mntPath = ''/stage1'', mntOpts = [''rw'']\<rparr>]), EvUnmount ''/stage1'' (Inr ())]"
proof -
  have "mtab K0 (mounted0 @ [EvStat p x]) = [(''/dev/sdb'', \<lparr>mntPath = ''/stage1'', mntOpts = [''rw'']\<rparr>)]" for p x
    by (simp add: mounted0_mtab)
  then show ?thesis
    by (simp add: NodeUnstageVolume_def unstage0_def wp host_calls table_host_simps
        tabledD [OF table_host_ok(1)] Let_def)
qed

theorem NodeUnstageVolume_refines_witness:
  "abs_NodeUnstage unstage0 [(''/dev/sdb'', \<lparr>mntPath = ''/stage1'', mntOpts = [''rw'']\<rparr>)] = Some []"
  using NodeUnstageVolume_refines [OF table_host_ok, of unstage0 mounted0]
  by (simp add: unstage_run mounted0_mtab mtab_append)

theorem stage_unstage_witness:
  "mtab K0 (mounted0 @ [EvStat ''/stage1'' IsDirectory,
     EvMounts (Inr [\<lparr>mntPath = ''/stage1'', mntOpts = [''rw'']\<rparr>]), EvUnmount ''/stage1'' (Inr ())]) = []"
proof -
  have "srStagingTargetPath (stage0 ''/stage1'') = ''/stage1''" "urStagingTargetPath unstage0 = ''/stage1''"
    by (simp_all add: stage0_def unstage0_def)
  then show ?thesis
    using stage_unstage [OF table_host_ok, of "stage0 ''/stage1''" "[]" unstage0]
    by (simp add: table_run unstage_run)
qed

end
