(* ===== verification/NodeExtras.thy ===== *)
theory NodeExtras
  imports NodeSequences GoInts
begin

text \<open>
  The rest of the node service: the expansion of a file system, the statistics of a volume,
  and what a repeated publish does.
\<close>

section \<open>Expansion\<close>

text \<open>What has happened when the node's part of an expansion is reported as done.\<close>

inductive grown :: "node_expand_request \<Rightarrow> host_event list \<Rightarrow> bool" for q where
  grown_block: "nerVolumeCapability q = Some c \<Longrightarrow> GetBlock c \<Longrightarrow> grown q []"
| grown_fs: "nerVolumePath q \<noteq> [] \<Longrightarrow> nerStagingTargetPath q \<noteq> [] \<Longrightarrow> nerVolumeId q \<noteq> [] \<Longrightarrow>
     length (split_on (CHR ''/'') dev) = 3 \<Longrightarrow>
     grown q [EvDeviceFromMount (nerStagingTargetPath q) (Inr dev), EvWriteFile (rescan_file dev) ''1'' (Inr ()),
       EvResize dev (nerStagingTargetPath q) (Inr ())]"

lemma sat_expandNode:
  "sat (expandNode q) env h (only_succeeds (\<lambda>r es _. grown q es))"
  unfolding expandNode_def
  by (auto simp: wp host_calls Let_def split: sum.splits intro!: grown_fs)

text \<open>
  NodeExpandVolume, in every environment: when it answers success, the volume is a block
  volume and nothing was done, or the device on the staging directory was rescanned and then
  the file system there was resized; and nothing is mounted or unmounted.
\<close>

theorem NodeExpandVolume_spec:
  "sat (NodeExpandVolume req) env h (only_succeeds (\<lambda>r es _. \<exists>q. req = Some q \<and> grown q es))"
  unfolding NodeExpandVolume_def
  by (auto simp: wp split: option.split outcome.splits sum.splits
      intro!: sat_mono [OF sat_expandNode] grown_block)

section \<open>Statistics\<close>

lemma word_accounts: "(a - b) * c + b * c = (a :: 64 word) * c"
  by (simp add: left_diff_distrib)

text \<open>
  The statistics of a volume add up: used and available make the total, for bytes and for
  inodes, also where the multiplication wraps around.
\<close>

theorem volumeUsage_accounts:
  "list_all (\<lambda>u. Used u + Available u = Total u) (volumeUsage s) \<and> map Unit (volumeUsage s) = [BYTES, INODES]"
  by (simp add: volumeUsage_def word_accounts)

lemma sint_diff_small:
  "0 \<le> sint (b :: int64) \<Longrightarrow> sint b \<le> sint a \<Longrightarrow> sint (a - b) = sint a - sint b"
  using sint_range [of a] sint_i64 [of "sint a - sint b"] by (simp add: i64_def)

text \<open>
  The statistics are exact for a file system of less than 2 to the 63 bytes and inodes:
  no counter is negative or wraps around, and the available space is at most the total.
\<close>

theorem volumeUsage_exact:
  assumes "0 \<le> sint (Bsize s)" and "0 \<le> sint (Bavail s)" and "sint (Bavail s) \<le> sint (Blocks s)"
    and "sint (Blocks s) * sint (Bsize s) < 2 ^ 63"
    and "0 \<le> sint (Ffree s)" and "sint (Ffree s) \<le> sint (Files s)"
  shows "map (\<lambda>u. (sint (Available u), sint (Total u), sint (Used u))) (volumeUsage s) =
     [(sint (Bavail s) * sint (Bsize s), sint (Blocks s) * sint (Bsize s),
       (sint (Blocks s) - sint (Bavail s)) * sint (Bsize s)),
      (sint (Ffree s), sint (Files s), sint (Files s) - sint (Ffree s))]"
proof -
  have within: "sint (x * Bsize s) = sint x * sint (Bsize s)"
    if "0 \<le> sint x" "sint x \<le> sint (Blocks s)" for x :: int64
  proof (rule sint_mult_small)
    have "0 \<le> sint x * sint (Bsize s)" using that(1) assms(1) by simp
    then show "- (2 ^ 63) \<le> sint x * sint (Bsize s)" by simp
    have "sint x * sint (Bsize s) \<le> sint (Blocks s) * sint (Bsize s)"
      using that(2) assms(1) by (rule mult_right_mono)
    then show "sint x * sint (Bsize s) < 2 ^ 63" using assms(4) by simp
  qed
  have "sint (Blocks s - Bavail s) = sint (Blocks s) - sint (Bavail s)"
    "sint (Files s - Ffree s) = sint (Files s) - sint (Ffree s)"
    using assms by (simp_all add: sint_diff_small)
  then show ?thesis
    using assms(2,3) within [of "Bavail s"] within [of "Blocks s"] within [of "Blocks s - Bavail s"]
    by (simp add: volumeUsage_def)
qed

theorem volumeUsage_exact_witness:
  "map (\<lambda>u. (sint (Available u), sint (Total u), sint (Used u)))
     (volumeUsage \<lparr>Bavail = 3, Bsize = 4096, Blocks = 10, Files = 7, Ffree = 5\<rparr>) =
   [(12288, 40960, 28672), (5, 7, 2)]"
  by (subst volumeUsage_exact) simp_all

section \<open>Publishing again\<close>

text \<open>
  The check for an existing mount asks for the mounts of the staging directory as if it
  were a device. On a host where no mount has that directory as its device, each call for a
  file-system volume binds the directory on the target once more, whatever is mounted there.
\<close>

theorem NodePublishVolume_binds_again:
  assumes "nprVolumeId q \<noteq> []" and "nprTargetPath q \<noteq> []" and "nprStagingTargetPath q \<noteq> []"
    and "nprPublishContext q = Some ctx" and "nprVolumeContext q = None"
    and "nprVolumeCapability q = Some c" and "AccessType c = MountAccess fs flags"
    and "\<And>h. h_devMounts env h (nprStagingTargetPath q) = Inr []"
    and "\<And>h p. h_stat env h p = IsDirectory"
  shows "\<exists>x. snd (NodePublishVolume (Some q) env h) =
     [EvStat (nprTargetPath q) IsDirectory, EvStat (nprStagingTargetPath q) IsDirectory,
      EvDevMounts (nprStagingTargetPath q) (Inr []),
      EvBindMount (nprStagingTargetPath q) (nprTargetPath q) (flags @ [capability_mode c]) x]"
proof -
  have "sat (NodePublishVolume (Some q)) env h (\<lambda>r es. \<exists>x. es =
     [EvStat (nprTargetPath q) IsDirectory, EvStat (nprStagingTargetPath q) IsDirectory,
      EvDevMounts (nprStagingTargetPath q) (Inr []),
      EvBindMount (nprStagingTargetPath q) (nprTargetPath q) (flags @ [capability_mode c]) x])"
    using assms(1-7)
    by (simp add: NodePublishVolume_def publishVolume_def GetBlock_def prepareTarget_def mkdir_def
        publishSource_def bindTarget_def mounted_answer_def capability_mode_def wp host_calls assms(8,9) Let_def
        split: sum.split)
  then show ?thesis by (simp add: sat_iff)
qed

definition publish1 :: node_publish_request where
  "publish1 = \<lparr>nprVolumeId = ''pvc1'', nprPublishContext = Some context0, nprStagingTargetPath = ''/stage1'',
     nprTargetPath = ''/pod1'', nprVolumeCapability = Some \<lparr>AccessMode = Some SINGLE_NODE_WRITER,
       AccessType = MountAccess ''ext4'' []\<rparr>, nprVolumeContext = None\<rparr>"

text \<open>The second of two calls, on a host that answers truly for devices.\<close>

theorem NodePublishVolume_binds_again_witness:
  "\<exists>x. snd (NodePublishVolume (Some publish1) (host0\<lparr>h_devMounts := (\<lambda>_ _. Inr [])\<rparr>)
       [EvBindMount ''/stage1'' ''/pod1'' [''rw''] (Inr ())]) =
     [EvStat ''/pod1'' IsDirectory, EvStat ''/stage1'' IsDirectory, EvDevMounts ''/stage1'' (Inr []),
      EvBindMount ''/stage1'' ''/pod1'' [''rw''] x]"
  using NodePublishVolume_binds_again [of publish1 context0
      "\<lparr>AccessMode = Some SINGLE_NODE_WRITER, AccessType = MountAccess ''ext4'' []\<rparr>" "''ext4''" "[]"
      "host0\<lparr>h_devMounts := (\<lambda>_ _. Inr [])\<rparr>" "[EvBindMount ''/stage1'' ''/pod1'' [''rw''] (Inr ())]"]
  by (simp add: publish1_def host0_def capability_mode_def isVolumeReadOnly_def mode_defs)

end
