(* ===== verification/MountPublish.thy ===== *)
theory MountPublish
  imports MountTable NodeExtras
begin

text \<open>
  Publishing and unpublishing against the mount table of theory MountTable, and the life of a
  volume on a node: staged, published to a pod, taken back from it and unstaged.
\<close>

section \<open>The abstract operations\<close>

text \<open>
  Binding a source on a target: a source with mounts of its own in the table is not bound
  again, and publishing is done only when it is there on the target with the mode.
\<close>

definition abs_bind :: "kernel \<Rightarrow> string \<Rightarrow> string \<Rightarrow> string \<Rightarrow> string list \<Rightarrow> mtab \<Rightarrow> mtab option" where
  "abs_bind K src dst mode opts t =
     (if mounts_of t src = [] then Some ((mount_device K t src, \<lparr>mntPath = dst, mntOpts = listed K opts\<rparr>) # t)
      else if in_table t src dst mode then Some t else None)"

definition abs_NodePublish :: "kernel \<Rightarrow> node_publish_request \<Rightarrow> volume_capability \<Rightarrow> string \<Rightarrow> mtab \<Rightarrow> mtab option" where
  "abs_NodePublish K q c src =
     abs_bind K src (nprTargetPath q) (capability_mode c) (capability_flags c @ [capability_mode c])"

definition abs_NodeUnpublish :: "node_unpublish_request \<Rightarrow> mtab \<Rightarrow> mtab option" where
  "abs_NodeUnpublish q t = (if nurVolumeId q = [] \<or> nurTargetPath q = [] then None
     else Some (abs_unmount (nurTargetPath q) t))"

section \<open>Publishing\<close>

text \<open>
  A bind that failed: the table is as it was, or the last event is the bind, which left the source
  on the target with the options that the kernel gave it.
\<close>

definition bind_failed :: "kernel \<Rightarrow> string \<Rightarrow> string \<Rightarrow> string list \<Rightarrow> mtab \<Rightarrow> host_event list \<Rightarrow> mtab \<Rightarrow> bool" where
  "bind_failed K src dst opts t es t' \<longleftrightarrow> t' = t \<or> (\<exists>pre e left. es = pre @ [EvBindMount src dst opts (Inl e)] \<and>
     mounts_of t src = [] \<and> leaves K t (EvBindMount src dst opts (Inl e)) = Some left \<and>
     t' = (mount_device K t src, \<lparr>mntPath = dst, mntOpts = left\<rparr>) # t)"

lemma bind_failed_same [simp]: "bind_failed K src dst opts t es t"
  by (simp add: bind_failed_def)

lemma bind_failed_prepend:
  "bind_failed K src dst opts t es t' \<Longrightarrow> bind_failed K src dst opts t (pre @ es) t'"
  unfolding bind_failed_def by (metis append_assoc)

lemma bind_failed_left:
  "mounts_of t src = [] \<Longrightarrow> bind_failed K src dst opts t [EvDevMounts src a, EvBindMount src dst opts (Inl e)]
     (table_step K t (EvBindMount src dst opts (Inl e)))"
  by (auto simp: bind_failed_def split: option.split)

definition binds :: "kernel \<Rightarrow> string \<Rightarrow> string \<Rightarrow> string \<Rightarrow> string list \<Rightarrow> mtab \<Rightarrow> unit res outcome \<Rightarrow>
    host_event list \<Rightarrow> mtab \<Rightarrow> bool" where
  "binds K src dst mode opts t r es t' \<longleftrightarrow> (case r of
     Done (Inr _) \<Rightarrow> abs_bind K src dst mode opts t = Some t'
   | Done (Inl _) \<Rightarrow> bind_failed K src dst opts t es t' | Panic _ \<Rightarrow> t' = t)"

lemma binds_simps [simp]:
  "binds K src dst mode opts t (Done (Inr x)) es t' \<longleftrightarrow> abs_bind K src dst mode opts t = Some t'"
  "binds K src dst mode opts t (Done (Inl e)) es t' \<longleftrightarrow> bind_failed K src dst opts t es t'"
  by (simp_all add: binds_def)

lemma sat_bindTarget_table:
  assumes "tabled K env"
  shows "sat (bindTarget src dst mode flags) env h
    (\<lambda>r es. binds K src dst mode (flags @ [mode]) (mtab K h) r es (mtab K (h @ es)))"
proof (cases "mounts_of (mtab K h) src = []")
  case True
  have "mounted_answer dst mode [] = (False, False)" by (simp add: mounted_answer_def)
  moreover have "mtab K (h @ [EvDevMounts src a, e]) = table_step K (mtab K h) e" for a e
    by (simp add: mtab_append)
  ultimately show ?thesis
    using bind_failed_left [OF True, of K]
    by (auto simp: True bindTarget_def wp host_calls tabledD [OF assms(1)] abs_bind_def
        Let_def simp del: table_step.simps(3) split: sum.split)
next
  case False
  then obtain b where b: "mounted_answer dst mode (mounts_of (mtab K h) src) = (True, b)"
    by (cases "mounted_answer dst mode (mounts_of (mtab K h) src)") (simp add: mounted_answer_def split: option.splits)
  then show ?thesis
    using False in_table_found [of dst mode "mtab K h" src]
    by (cases b) (simp_all add: bindTarget_def wp host_calls tabledD [OF assms(1)] abs_bind_def Let_def)
qed

abbreviation no_mount :: "host_event \<Rightarrow> bool" where
  "no_mount e \<equiv> \<not> is_mount_event e"

lemma probe_no_mount: "is_probe e \<Longrightarrow> no_mount e"
  by (cases e) simp_all

lemma no_mount_parts:
  "emits no_mount (prepareTarget blk dst)" "emits no_mount (publishSource blk ctx q)"
proof -
  show "emits no_mount (prepareTarget blk dst)"
    unfolding prepareTarget_def mkdir_def
    by (auto intro!: trace_rules simp: host_calls split: stat_reply.splits)
  have "emits no_mount (getDiskPath uuid)" for uuid
    by (rule emits_mono [OF emits_getDiskPath probe_no_mount])
  then show "emits no_mount (publishSource blk ctx q)"
    unfolding publishSource_def checkIfDirExists_def
    by (auto intro!: trace_rules simp: host_calls Let_def split: stat_reply.splits)
qed

lemma sat_prepareTarget_table:
  "sat (prepareTarget blk dst) env h (\<lambda>r es. mtab K (h @ es) = mtab K h)"
  by (rule emits_rule [OF no_mount_parts(1) mtab_quiet])

lemma sat_publishSource_table:
  "sat (publishSource blk ctx q) env h (\<lambda>r es. mtab K (h @ es) = mtab K h \<and>
     only_succeeds (\<lambda>r es src. source_found ctx q blk src es) r es)"
  unfolding sat_conj
  by (intro conjI sat_publishSource emits_rule [OF no_mount_parts(2) mtab_quiet])

text \<open>
  What a publish does to the table, for the source that was found: the device of a block
  volume, and otherwise the staging directory. An error leaves the table as it was, unless it is
  the error of the bind itself, of that source on the target, and the bind stayed.
\<close>

definition published_table :: "kernel \<Rightarrow> node_publish_request \<Rightarrow> mtab \<Rightarrow> unit res outcome \<Rightarrow>
    host_event list \<Rightarrow> mtab \<Rightarrow> bool" where
  "published_table K q t r es t' \<longleftrightarrow> (case r of
     Panic _ \<Rightarrow> t' = t
   | Done x \<Rightarrow> (x \<noteq> Inr () \<and> t' = t) \<or>
       (\<exists>c ctx src ts ss ms. nprVolumeCapability q = Some c \<and> nprPublishContext q = Some ctx \<and>
         es = ts @ ss @ ms \<and> source_found ctx q (GetBlock c) src ss \<and>
         (case x of
            Inr _ \<Rightarrow> abs_NodePublish K q c src t = Some t'
          | Inl _ \<Rightarrow> bind_failed K src (nprTargetPath q) (capability_flags c @ [capability_mode c]) t ms t')))"

lemma published_table_simps [simp]:
  "t' = t \<Longrightarrow> published_table K q t (Done (Inl e)) es t'"
  "published_table K q t (Panic s) es t' \<longleftrightarrow> t' = t"
  by (simp_all add: published_table_def)

lemma published_tableI:
  "nprVolumeCapability q = Some c \<Longrightarrow> nprPublishContext q = Some ctx \<Longrightarrow>
   source_found ctx q (GetBlock c) src ss \<Longrightarrow>
   binds K src (nprTargetPath q) (capability_mode c) (capability_flags c @ [capability_mode c]) t r ms t' \<Longrightarrow>
   published_table K q t r (ts @ ss @ ms) t'"
  by (auto simp: published_table_def binds_def abs_NodePublish_def split: outcome.splits sum.splits)

lemma sat_publishVolume_table:
  assumes "tabled K env" and "nprVolumeCapability q = Some c" and "nprPublishContext q = Some ctx"
  shows "sat (publishVolume c ctx q) env h (\<lambda>r es. published_table K q (mtab K h) r es (mtab K (h @ es)))"
proof -
  have bind: "sat (bindTarget src (nprTargetPath q) (capability_mode c) (capability_flags c)) env (h @ ts @ ss)
      (\<lambda>r ms. published_table K q (mtab K h) r (ts @ ss @ ms) (mtab K (h @ ts @ ss @ ms)))"
    if "source_found ctx q (GetBlock c) src ss" "mtab K (h @ ts) = mtab K h" "mtab K (h @ ts @ ss) = mtab K (h @ ts)"
    for src ts ss
    by (rule sat_mono [OF sat_bindTarget_table [OF assms(1)]])
      (use published_tableI [OF assms(2,3) that(1)] that(2,3) in simp)
  show ?thesis
    unfolding publishVolume_def capability_mode_def [symmetric] capability_flags_def [symmetric]
    by (auto simp: wp Let_def split: sum.splits outcome.splits
        intro!: sat_mono [OF sat_prepareTarget_table [where K = K]] sat_mono [OF sat_publishSource_table [where K = K]] bind)
qed

lemma sat_NodePublishVolume_table:
  assumes "tabled K env"
  shows "sat (NodePublishVolume (Some q)) env h (\<lambda>r es. published_table K q (mtab K h) r es (mtab K (h @ es)))"
  unfolding NodePublishVolume_def
  by (auto simp: wp split: option.splits intro!: sat_publishVolume_table [OF assms])

section \<open>Unpublishing\<close>

text \<open>
  The target is removed after it has been unmounted: when only the removal fails, the call
  answers an error and the mount is gone.
\<close>

definition attempts :: "(mtab \<Rightarrow> mtab option) \<Rightarrow> mtab \<Rightarrow> 'a res outcome \<Rightarrow> mtab \<Rightarrow> bool" where
  "attempts f t r t' \<longleftrightarrow> (case r of
     Done (Inr _) \<Rightarrow> f t = Some t' | Done (Inl _) \<Rightarrow> t' = t \<or> f t = Some t' | Panic s \<Rightarrow> False)"

lemma sat_NodeUnpublishVolume_table:
  assumes "tabled K env" and "mounted_exists K env"
  shows "sat (NodeUnpublishVolume (Some q)) env h
    (\<lambda>r es. attempts (abs_NodeUnpublish q) (mtab K h) r (mtab K (h @ es)))"
proof -
  let ?dst = "nurTargetPath q"
  have absent: "abs_unmount ?dst (mtab K h) = mtab K h" if "?dst \<notin> (\<lambda>x. mntPath (snd x)) ` set (mtab K h)"
    using that by (intro abs_unmount_id) auto
  have "?dst \<notin> (\<lambda>x. mntPath (snd x)) ` set (mtab K h)" if "h_stat env h ?dst = NotExist"
    using assms(2) that by (auto simp: mounted_exists_def list_all_iff) (metis snd_conv)
  note gone = absent [OF this]
  show ?thesis
    unfolding NodeUnpublishVolume_def rmdir_def
    by (auto simp: wp host_calls Let_def tabledD [OF assms(1)] abs_NodeUnpublish_def attempts_def mtab_append
        image_image absent gone split: stat_reply.split sum.split remove_reply.split)
qed

text \<open>
  C22: publishing and unpublishing refine the abstract machine: on a host whose answers about mounts
  are those of the table of its start and of the calls made so far, whatever the kernel decides,
  and where a directory with a mount exists, a publish that answers success has found its source
  and bound it on the target as the abstract operation does. One that answers an error has left
  the table as it was, or its last step was the bind of that source on the target, which failed
  between its two mounts, and then exactly that mount was added. An unpublish that answers
  success has removed the last mount of the target, if there was one, and one that answers an
  error has done that or nothing.
\<close>

theorem publish_refines:
  assumes "tabled K env" and "mounted_exists K env"
  shows "sat (NodePublishVolume (Some p)) env h (\<lambda>r es. published_table K p (mtab K h) r es (mtab K (h @ es))) \<and>
    sat (NodeUnpublishVolume (Some u)) env h
      (\<lambda>r es. attempts (abs_NodeUnpublish u) (mtab K h) r (mtab K (h @ es)))"
  using sat_NodePublishVolume_table [OF assms(1)] sat_NodeUnpublishVolume_table [OF assms] by blast

section \<open>The life of a volume on a node\<close>

definition volume_life :: "stage_request \<Rightarrow> node_publish_request \<Rightarrow> node_unpublish_request \<Rightarrow> unstage_request \<Rightarrow>
    unit res host" where
  "volume_life s p pu u =
     attempt (NodeStageVolume (Some s)) (\<lambda>e. fail e) (\<lambda>_.
     attempt (NodePublishVolume (Some p)) (\<lambda>e. fail e) (\<lambda>_.
     attempt (NodeUnpublishVolume (Some pu)) (\<lambda>e. fail e) (\<lambda>_.
     NodeUnstageVolume (Some u))))"

definition free_of :: "string \<Rightarrow> mtab \<Rightarrow> bool" where
  "free_of dir t \<longleftrightarrow> dir \<notin> mntPath ` snd ` set t"

lemma free_unmount: "free_of dir t \<Longrightarrow> abs_unmount dir t = t"
  by (rule abs_unmount_id) (auto simp: free_of_def image_image)

lemma free_in_table: "free_of dir t \<Longrightarrow> \<not> in_table t dev dir mode"
  by (force simp: free_of_def in_table_def mounts_of_def list_ex_iff)

text \<open>After staging: the table as before, or with the device on the staging directory in front.\<close>

lemma staged_shape:
  assumes "abs_NodeStage K s dev t = Some t'" and "free_of (srStagingTargetPath s) t"
  shows "t' = t \<or> (\<exists>opts. t' = (dev, \<lparr>mntPath = srStagingTargetPath s, mntOpts = opts\<rparr>) # t)"
  using assms free_in_table [OF assms(2)]
  by (auto simp: abs_NodeStage_def abs_stage_def split: option.splits if_splits access_type.splits sum.splits)

lemma published_shape:
  assumes "abs_NodePublish K p c src t = Some t'" and "free_of (nprTargetPath p) t"
  shows "\<exists>x opts. t' = (x, \<lparr>mntPath = nprTargetPath p, mntOpts = opts\<rparr>) # t"
  using assms free_in_table [OF assms(2)]
  by (auto simp: abs_NodePublish_def abs_bind_def split: if_splits)

text \<open>
  C23: the life of a volume on a node, on such a host: staged, published to a pod, unpublished
  and unstaged, with paths that had no mount before and differ, every call answering success.
  At the end the mounts are what they were: nothing stays behind, no other mount is touched.
\<close>

theorem volume_life_leaves_nothing:
  assumes "tabled K env" and "mounted_exists K env"
    and "free_of (srStagingTargetPath s) (mtab K h)" and "free_of (nprTargetPath p) (mtab K h)"
    and "nprTargetPath p \<noteq> srStagingTargetPath s"
    and "nurTargetPath pu = nprTargetPath p" and "urStagingTargetPath u = srStagingTargetPath s"
  shows "sat (volume_life s p pu u) env h (only_succeeds (\<lambda>r es _. mtab K (h @ es) = mtab K h))"
proof -
  have unstage: "sat (NodeUnstageVolume (Some u)) env h3 (only_succeeds (\<lambda>r es _. mtab K (h3 @ es) = mtab K h))"
    if "mtab K h3 = mtab K h \<or> (\<exists>dev opts. mtab K h3 = (dev, \<lparr>mntPath = srStagingTargetPath s, mntOpts = opts\<rparr>) # mtab K h)"
    for h3
    by (rule sat_mono [OF sat_NodeUnstageVolume_table [OF assms(1,2)]], rule only_succeedsI)
      (use that free_unmount [OF assms(3)] assms(7) in \<open>auto simp: abs_NodeUnstage_def split: if_splits\<close>)
  have unpublish: "sat (NodeUnpublishVolume (Some pu)) env h2 (only_succeeds (\<lambda>r es _. mtab K (h2 @ es) = t1))"
    if "\<exists>x opts. mtab K h2 = (x, \<lparr>mntPath = nprTargetPath p, mntOpts = opts\<rparr>) # t1" for h2 t1
    by (rule sat_mono [OF sat_NodeUnpublishVolume_table [OF assms(1,2)]], rule only_succeedsI)
      (use that assms(6) in \<open>auto simp: abs_NodeUnpublish_def attempts_def split: if_splits\<close>)
  have publish: "sat (NodePublishVolume (Some p)) env h1
      (only_succeeds (\<lambda>r es _. \<exists>x opts. mtab K (h1 @ es) = (x, \<lparr>mntPath = nprTargetPath p, mntOpts = opts\<rparr>) # mtab K h1))"
    if "free_of (nprTargetPath p) (mtab K h1)" for h1
    by (rule sat_mono [OF sat_NodePublishVolume_table [OF assms(1)]], rule only_succeedsI)
      (use published_shape [OF _ that] in \<open>auto simp: published_table_def\<close>)
  have stage: "sat (NodeStageVolume (Some s)) env h (only_succeeds (\<lambda>r es _. mtab K (h @ es) = mtab K h \<or>
      (\<exists>dev opts. mtab K (h @ es) = (dev, \<lparr>mntPath = srStagingTargetPath s, mntOpts = opts\<rparr>) # mtab K h)))"
    by (rule sat_mono [OF sat_NodeStageVolume_table [OF assms(1)]], rule only_succeedsI)
      (use staged_shape [where K = K, OF _ assms(3)] in auto)
  show ?thesis
    unfolding volume_life_def
  proof (rule attempt_succeeds [OF stage])
    fix x :: unit and es1
    assume staged: "mtab K (h @ es1) = mtab K h \<or>
      (\<exists>dev opts. mtab K (h @ es1) = (dev, \<lparr>mntPath = srStagingTargetPath s, mntOpts = opts\<rparr>) # mtab K h)"
    then have "free_of (nprTargetPath p) (mtab K (h @ es1))"
      using assms(4,5) by (force simp: free_of_def)
    note publish1 = publish [OF this]
    show "sat (attempt (NodePublishVolume (Some p)) (\<lambda>e. fail e) (\<lambda>_. attempt (NodeUnpublishVolume (Some pu))
        (\<lambda>e. fail e) (\<lambda>_. NodeUnstageVolume (Some u)))) env (h @ es1)
        (only_succeeds (\<lambda>r es _. mtab K (h @ es1 @ es) = mtab K h))"
    proof (rule attempt_succeeds [OF publish1], rule attempt_succeeds [OF unpublish], assumption)
      fix y z :: unit and es2 es3
      assume "mtab K (((h @ es1) @ es2) @ es3) = mtab K (h @ es1)"
      then show "sat (NodeUnstageVolume (Some u)) env (((h @ es1) @ es2) @ es3)
          (only_succeeds (\<lambda>r es _. mtab K (h @ es1 @ es2 @ es3 @ es) = mtab K h))"
        using unstage [of "((h @ es1) @ es2) @ es3", unfolded append_assoc] staged by simp
    qed
  qed
qed

section \<open>An example\<close>

definition unpublish1 :: node_unpublish_request where
  "unpublish1 = \<lparr>nurVolumeId = ''pvc1'', nurTargetPath = ''/pod1''\<rparr>"

definition publish_events :: "host_event list" where
  "publish_events = [EvStat ''/pod1'' IsDirectory, EvStat ''/stage1'' IsDirectory, EvDevMounts ''/stage1'' (Inr []),
     EvBindMount ''/stage1'' ''/pod1'' [''rw''] (Inr ())]"

definition unpublish_events :: "host_event list" where
  "unpublish_events = [EvStat ''/pod1'' IsDirectory, EvMounts (Inr [\<lparr>mntPath = ''/pod1'', mntOpts = [''rw'']\<rparr>,
       \<lparr>mntPath = ''/stage1'', mntOpts = [''rw'']\<rparr>]), EvUnmount ''/pod1'' (Inr ()), EvRemove ''/pod1'' RemoveNotExist]"

lemma published_mtab:
  "mtab K0 (mounted0 @ publish_events) = [(''/dev/sdb'', \<lparr>mntPath = ''/pod1'', mntOpts = [''rw'']\<rparr>),
     (''/dev/sdb'', \<lparr>mntPath = ''/stage1'', mntOpts = [''rw'']\<rparr>)]"
  "mtab K0 (mounted0 @ publish_events @ unpublish_events) = [(''/dev/sdb'', \<lparr>mntPath = ''/stage1'', mntOpts = [''rw'']\<rparr>)]"
  by (simp_all add: mtab_append mounted0_mtab publish_events_def unpublish_events_def mount_device_def)

lemma table_host_more:
  "h_bindMount table_host h a b c = Inr ()" "h_remove table_host h p = RemoveNotExist"
  by (simp_all add: table_host_def host0_def idle_host_def)

lemma publish1_run:
  "sat (NodePublishVolume (Some publish1)) table_host mounted0 Q = Q (Done (Inr ())) publish_events"
proof -
  have "mtab K0 (mounted0 @ [EvStat p x, EvStat p' x']) = mtab K0 mounted0" for p x p' x'
    by (simp add: mtab_append)
  then show ?thesis
    by (simp add: NodePublishVolume_def publish1_def publishVolume_def GetBlock_def prepareTarget_def mkdir_def
        publishSource_def bindTarget_def mounted_answer_def isVolumeReadOnly_def mode_defs publish_events_def
        wp host_calls table_host_simps table_host_more tabledD [OF table_host_ok(1)] mounted0_mtab mounts_of_def Let_def)
qed

lemma unpublish1_run:
  "sat (NodeUnpublishVolume (Some unpublish1)) table_host (mounted0 @ publish_events) Q =
   Q (Done (Inr ())) unpublish_events"
proof -
  have "mtab K0 (mounted0 @ publish_events @ [EvStat p x]) = mtab K0 (mounted0 @ publish_events)" for p x
    by (simp add: mtab_append)
  then show ?thesis
    by (simp add: NodeUnpublishVolume_def unpublish1_def rmdir_def unpublish_events_def
        wp host_calls table_host_simps table_host_more tabledD [OF table_host_ok(1)] published_mtab Let_def)
qed

lemma unstage1_run:
  "sat (NodeUnstageVolume (Some unstage0)) table_host (mounted0 @ publish_events @ unpublish_events) Q =
   Q (Done (Inr ())) [EvStat ''/stage1'' IsDirectory,
     EvMounts (Inr [\<lparr>mntPath = ''/stage1'', mntOpts = [''rw'']\<rparr>]), EvUnmount ''/stage1'' (Inr ())]"
proof -
  have "mtab K0 (mounted0 @ publish_events @ unpublish_events @ [EvStat p x]) =
      mtab K0 (mounted0 @ publish_events @ unpublish_events)" for p x
    by (simp add: mtab_append)
  then show ?thesis
    by (simp add: NodeUnstageVolume_def unstage0_def wp host_calls table_host_simps
        tabledD [OF table_host_ok(1)] published_mtab Let_def)
qed

lemma life_run:
  "volume_life (stage0 ''/stage1'') publish1 unpublish1 unstage0 table_host [] = (Done (Inr ()),
     mounted0 @ publish_events @ unpublish_events @ [EvStat ''/stage1'' IsDirectory,
       EvMounts (Inr [\<lparr>mntPath = ''/stage1'', mntOpts = [''rw'']\<rparr>]), EvUnmount ''/stage1'' (Inr ())])"
  by (rule sat_exact) (simp add: volume_life_def wp table_run publish1_run unpublish1_run unstage1_run)

theorem volume_life_leaves_nothing_witness:
  "mtab K0 (mounted0 @ publish_events @ unpublish_events @ [EvStat ''/stage1'' IsDirectory,
     EvMounts (Inr [\<lparr>mntPath = ''/stage1'', mntOpts = [''rw'']\<rparr>]), EvUnmount ''/stage1'' (Inr ())]) = []"
proof -
  have "free_of dir (mtab K0 [])" for dir by (simp add: free_of_def)
  moreover have "nprTargetPath publish1 \<noteq> srStagingTargetPath (stage0 ''/stage1'')"
    "nurTargetPath unpublish1 = nprTargetPath publish1"
    "urStagingTargetPath unstage0 = srStagingTargetPath (stage0 ''/stage1'')"
    by (simp_all add: publish1_def unpublish1_def unstage0_def stage0_def)
  ultimately show ?thesis
    using volume_life_leaves_nothing [OF table_host_ok, of "stage0 ''/stage1''" "[]" publish1 unpublish1 unstage0]
    by (simp add: sat_iff life_run)
qed

theorem publish_refines_witness:
  "published_table K0 publish1 [(''/dev/sdb'', \<lparr>mntPath = ''/stage1'', mntOpts = [''rw'']\<rparr>)] (Done (Inr ())) publish_events
     [(''/dev/sdb'', \<lparr>mntPath = ''/pod1'', mntOpts = [''rw'']\<rparr>), (''/dev/sdb'', \<lparr>mntPath = ''/stage1'', mntOpts = [''rw'']\<rparr>)]"
  using publish_refines [OF table_host_ok, of publish1 mounted0 unpublish1]
  by (simp add: publish1_run published_mtab mounted0_mtab)

text \<open>
  A bind that stays behind: the second mount of the bind fails, the publish answers an error, and
  the target is mounted with the options of the first.
\<close>

definition K1 :: kernel where
  "K1 = K0\<lparr>leaves := (\<lambda>_ _. Some [''rw''])\<rparr>"

definition remount_error :: goerr where "remount_error = ApiError ''mount failed'' False"

definition failing_host :: host_env where
  "failing_host = host0\<lparr>h_devMounts := (\<lambda>h dev. Inr (mounts_of (mtab K1 h) dev)),
     h_mounts := (\<lambda>h. Inr (map snd (mtab K1 h))), h_bindMount := (\<lambda>_ _ _ _. Inl remount_error)\<rparr>"

lemma publish_leaves_bind:
  "\<exists>e es. NodePublishVolume (Some publish1) failing_host [] = (Done (Inl e), es) \<and> mtab K1 [] = [] \<and>
     mtab K1 es = [(''devtmpfs'', \<lparr>mntPath = ''/pod1'', mntOpts = [''rw'']\<rparr>)]"
proof -
  have host: "h_stat failing_host h p = IsDirectory" "h_bindMount failing_host h a b c = Inl remount_error"
    "h_devMounts failing_host h dev = Inr (mounts_of (mtab K1 h) dev)" for h p a b c dev
    by (simp_all add: failing_host_def host0_def idle_host_def)
  have "sat (NodePublishVolume (Some publish1)) failing_host [] (\<lambda>r es. \<exists>e. r = Done (Inl e) \<and>
      es = [EvStat ''/pod1'' IsDirectory, EvStat ''/stage1'' IsDirectory, EvDevMounts ''/stage1'' (Inr []),
        EvBindMount ''/stage1'' ''/pod1'' [''rw''] (Inl remount_error)])"
    by (simp add: NodePublishVolume_def publish1_def publishVolume_def GetBlock_def prepareTarget_def mkdir_def
        publishSource_def bindTarget_def mounted_answer_def isVolumeReadOnly_def mode_defs
        wp host_calls host mtab_def mounts_of_def K1_def Let_def)
  then show ?thesis
    by (cases "NodePublishVolume (Some publish1) failing_host []")
      (auto simp: sat_iff mtab_def K1_def mount_device_def)
qed

end
