(* ===== verification/Util.thy ===== *)
theory Util
  imports HostApi
begin

text \<open>
  The endpoint parser (pkg/util/util.go). What \<open>url.Parse\<close> makes of the text is an answer of
  the environment; the socket that an earlier run may have left is removed.
\<close>

section \<open>Rooted paths\<close>

text \<open>A cleaned absolute path: its components are neither empty nor dots, and have no slash.\<close>

definition rooted_path :: "string \<Rightarrow> bool" where
  "rooted_path p \<longleftrightarrow> (\<exists>ps. p = CHR ''/'' # join_with (CHR ''/'') ps \<and>
     list_all (\<lambda>q. proper_part q \<and> CHR ''/'' \<notin> set q) ps)"

lemma clean_parts_subset: "set (clean_parts rooted acc ps) \<subseteq> set acc \<union> set ps \<union> {''..''}"
proof (induction ps arbitrary: acc)
  case (Cons p ps)
  show ?case
    using Cons.IH [of acc] Cons.IH [of "[]"] Cons.IH [of "[''..'']"] Cons.IH [of "p # acc"]
      Cons.IH [of "''..'' # acc"] Cons.IH [of "tl acc"]
    by (cases acc) auto
qed auto

lemma Clean_rooted:
  assumes "has_prefix p ''/''"
  shows "rooted_path (Clean p)"
proof -
  let ?qs = "clean_parts True [] (split_on (CHR ''/'') p)"
  have "list_all proper_part ?qs" by (rule clean_parts_rooted) simp_all
  moreover have "CHR ''/'' \<notin> set q" if "q \<in> set ?qs" for q
    using that clean_parts_subset [of True "[]" "split_on (CHR ''/'') p"] split_on_no_sep [of q "CHR ''/''" p]
    by auto
  ultimately show ?thesis
    using assms unfolding rooted_path_def Clean_def Let_def
    by (intro exI [of _ ?qs]) (simp add: list_all_iff)
qed

lemma rooted_parts:
  assumes "list_all (\<lambda>q. proper_part q \<and> CHR ''/'' \<notin> set q) ps"
  shows "clean_parts True [] (split_on (CHR ''/'') (join_with (CHR ''/'') ps)) = ps"
proof (cases "ps = []")
  case False
  have "list_all proper_part ps" "\<forall>q\<in>set ps. CHR ''/'' \<notin> set q"
    using assms by (simp_all add: list_all_iff)
  then show ?thesis using clean_parts_id [of ps True "[]"] by (simp add: split_join False)
qed simp

text \<open>Cleaning leaves a rooted path alone, with a second slash in front of it or without.\<close>

lemma Clean_id:
  assumes "rooted_path p"
  shows "Clean p = p" and "Clean (CHR ''/'' # p) = p"
proof -
  obtain ps where p: "p = CHR ''/'' # join_with (CHR ''/'') ps"
      and ps: "list_all (\<lambda>q. proper_part q \<and> CHR ''/'' \<notin> set q) ps"
    using assms by (auto simp: rooted_path_def)
  show "Clean p = p" "Clean (CHR ''/'' # p) = p"
    by (simp_all add: Clean_def Let_def p rooted_parts [OF ps])
qed

lemma Join_rooted: "rooted_path (Join [''/'', a])"
proof (cases "a = []")
  case True
  then show ?thesis by (simp add: Join_def Clean_rooted)
next
  case False
  then show ?thesis by (simp add: Join_def Clean_rooted)
qed

section \<open>The endpoint\<close>

text \<open>\<open>filepath.FromSlash\<close> changes nothing where the separator is a slash.\<close>

definition ParseEndpoint :: "string \<Rightarrow> (string \<times> string) res host" where
  "ParseEndpoint ep = attempt (UrlParse ep)
     (\<lambda>e. fail (Errorf ''could not parse endpoint'' [e])) (\<lambda>u.
     let addr = Join [urlHost u, urlPath u]; scheme = to_lower (urlScheme u) in
     if scheme = ''tcp'' then ok (scheme, addr)
     else if scheme = ''unix'' then
       (let addr = Join [''/'', addr] in
        bind (Remove addr) (\<lambda>r. case r of
          RemoveError m \<Rightarrow> fail (Errorf ''could not remove unix domain socket'' [ApiError m False])
        | _ \<Rightarrow> ok (scheme, addr)))
     else fail (Errorf ''unsupported protocol'' []))"

text \<open>What the parser has done when it answers, for each scheme.\<close>

inductive parsed :: "url \<Rightarrow> string \<Rightarrow> string \<Rightarrow> host_event list \<Rightarrow> bool" for u where
  parsed_tcp: "to_lower (urlScheme u) = ''tcp'' \<Longrightarrow> parsed u ''tcp'' (Join [urlHost u, urlPath u]) []"
| parsed_unix: "to_lower (urlScheme u) = ''unix'' \<Longrightarrow> addr = Join [''/'', Join [urlHost u, urlPath u]] \<Longrightarrow>
     rooted_path addr \<Longrightarrow> rm = Removed \<or> rm = RemoveNotExist \<Longrightarrow> parsed u ''unix'' addr [EvRemove addr rm]"

lemma parsed_removed:
  "to_lower (urlScheme u) = ''unix'' \<Longrightarrow> rm = Removed \<or> rm = RemoveNotExist \<Longrightarrow>
   parsed u ''unix'' (Join [''/'', Join [urlHost u, urlPath u]])
     [EvRemove (Join [''/'', Join [urlHost u, urlPath u]]) rm]"
  by (rule parsed_unix) (simp_all add: Join_rooted)

lemma sat_ParseEndpoint:
  "sat (ParseEndpoint ep) env h (\<lambda>r es. case r of
     Done (Inr (scheme, addr)) \<Rightarrow> \<exists>u. h_urlParse env ep = Inr u \<and> parsed u scheme addr es
   | Done (Inl e) \<Rightarrow> es = [] \<or> (\<exists>addr m. es = [EvRemove addr (RemoveError m)])
   | Panic s \<Rightarrow> False)"
  unfolding ParseEndpoint_def
  by (auto simp: wp host_calls Let_def split: sum.splits remove_reply.splits
      intro: parsed_tcp parsed_removed)

text \<open>
  The endpoint parser, in every environment: the scheme is tcp or unix, in lower case; the
  address of a unix endpoint is an absolute clean path, and the file there was removed or was
  not there; any other scheme, a text that is no URL and a file that cannot be removed are
  errors; nothing else is touched.
\<close>

theorem ParseEndpoint_spec:
  "sat (ParseEndpoint ep) env h (\<lambda>r es. case r of
     Done (Inr (scheme, addr)) \<Rightarrow> \<exists>u. h_urlParse env ep = Inr u \<and> parsed u scheme addr es
   | Done (Inl e) \<Rightarrow> es = [] \<or> (\<exists>addr m. es = [EvRemove addr (RemoveError m)])
   | Panic s \<Rightarrow> False)"
  by (rule sat_ParseEndpoint)

end
