(* ===== verification/Driver.thy ===== *)
theory Driver
  imports RdeLoops Node Util
begin

text \<open>
  The driver (pkg/csi/driver.go) and the identity service (pkg/csi/identity.go): the set-up
  of the three services, with the upgrade of the cluster's entity that it may start with,
  and the server's start.
\<close>

section \<open>The identity service\<close>

record identity_server =
  idDriver :: vcd_driver

definition NewIdentityServer :: "vcd_driver \<Rightarrow> identity_server" where
  "NewIdentityServer driver = \<lparr>idDriver = driver\<rparr>"

datatype plugin_capability =
    CONTROLLER_SERVICE | VOLUME_ACCESSIBILITY_CONSTRAINTS | VolumeExpansion expansion

text \<open>Each call logs the request that its argument points to; None is a nil pointer.\<close>

definition Probe :: "unit option \<Rightarrow> unit vcd" where
  "Probe req = (case req of None \<Rightarrow> panic ''nil request'' | Some _ \<Rightarrow> ret ())"

definition GetPluginInfo :: "unit option \<Rightarrow> (string \<times> string) vcd" where
  "GetPluginInfo req = (case req of None \<Rightarrow> panic ''nil request''
     | Some _ \<Rightarrow> bind DriverVersion (\<lambda>v. ret (DriverName, v)))"

definition GetPluginCapabilities :: "unit option \<Rightarrow> plugin_capability list vcd" where
  "GetPluginCapabilities req = (case req of None \<Rightarrow> panic ''nil request''
     | Some _ \<Rightarrow> ret [CONTROLLER_SERVICE, VOLUME_ACCESSIBILITY_CONSTRAINTS,
         VolumeExpansion OFFLINE, VolumeExpansion ONLINE])"

section \<open>Set-up\<close>

definition RdeUpgradeError :: string where "RdeUpgradeError = ''RdeUpgradeError''"
definition RdeUpgradeEvent :: string where "RdeUpgradeEvent = ''RdeUpgradeEvent''"

text \<open>The SDK's test of a cluster ID (vcdsdk, defined_entity.go).\<close>

definition IsValidEntityId :: "string \<Rightarrow> bool" where
  "IsValidEntityId i \<longleftrightarrow> i \<noteq> [] \<and> \<not> has_prefix i NoRdePrefix"

record driver_services =
  svcNode :: node_service
  svcController :: controller_server
  svcIdentity :: identity_server

text \<open>
  The two upgrades, which end alike: an error is recorded and returned; a success is recorded
  and the old error is taken away, and neither of these two can make the upgrade fail.
\<close>

definition recorded :: "disk_manager \<Rightarrow> 'a res vcd \<Rightarrow> details \<Rightarrow> unit res vcd \<Rightarrow> unit res vcd" where
  "recorded dm upgrade info k = attempt upgrade
     (\<lambda>e. ignore (AddToErrorSet dm RdeUpgradeError [] [] [(''Detailed Error'', DText (error_text e))])
        (fail (Errorf ''CSI section upgrade failed when CAPVCD RDE is present'' [e])))
     (\<lambda>_. ignore (AddToEventSet dm RdeUpgradeEvent [] [] info)
        (ignore (RemoveFromErrorSet dm RdeUpgradeError [] []) k))"

definition upgradeCSISection :: "vcd_driver \<Rightarrow> disk_manager \<Rightarrow> unit res vcd" where
  "upgradeCSISection d dm = recorded dm (ConvertToLatestCSIVersionFormat dm (drvVersion d))
     [(''Detailed Description'', DText ''Upgrade CSI Status to the latest version in use'')] (ok ())"

definition upgradeEntity :: "vcd_driver \<Rightarrow> disk_manager \<Rightarrow> unit res vcd" where
  "upgradeEntity d dm =
     (if IsCAPVCDEntityType (ClusterID dm)
      then recorded dm (UpgradeRDEPersistentVolumes dm) [] (upgradeCSISection d dm)
      else upgradeCSISection d dm)"

definition Setup :: "vcd_driver \<Rightarrow> disk_manager \<Rightarrow> string \<Rightarrow> string \<Rightarrow> bool \<Rightarrow> bool \<Rightarrow>
    zone_map option \<Rightarrow> driver_services res vcd" where
  "Setup d dm vAppName nodeID upgradeRde isZoneEnabledCluster zm =
     bind (NewControllerService d (VCDClient dm) (ClusterID dm) vAppName isZoneEnabledCluster zm) (\<lambda>cs.
       let services = \<lparr>svcNode = NewNodeService d nodeID, svcController = cs,
             svcIdentity = NewIdentityServer d\<rparr> in
       if \<not> upgradeRde then ok services
       else if \<not> IsValidEntityId (ClusterID dm) then ok services
       else attempt (upgradeEntity d dm) (\<lambda>e. fail e) (\<lambda>_. ok services))"

section \<open>What the set-up does\<close>

lemma sat_NewControllerService [wp]:
  "sat (NewControllerService d client cluster vapp isZone zm) env h Q =
     (let n = ClusterOrgName client; r = q_getOrg env h n in
      case r of
        Inl e \<Rightarrow> Q (Panic ''unable to find org'') [EvGetOrg n r]
      | Inr org \<Rightarrow> Q (Done \<lparr>Driver = d,
          DiskManager = \<lparr>VCDClient = client, ClusterID = cluster,
            Org = (case org of None \<Rightarrow> None | Some o' \<Rightarrow> o'), IsZoneEnabledCluster = isZone, ZoneMap = zm\<rparr>,
          VAppName = vapp\<rparr>) [EvGetOrg n r])"
  by (simp add: NewControllerService_def wp vcd_calls Let_def split: sum.split)

text \<open>Each write of an upgrade is one of the two kinds, on the last read of the entity.\<close>

abbreviation setup_guard :: "disk_manager \<Rightarrow> vcd_env \<Rightarrow> string \<Rightarrow> vcd_event list \<Rightarrow> vcd_event \<Rightarrow> bool" where
  "setup_guard dm env v \<equiv> read_guard
     (\<lambda>h es a b. upgrade_rel dm env h es a b \<or> convert_rel (q_timeText env) v a b)"

lemma setup_guards:
  "guard_ok (read_guard (upgrade_rel dm env)) h es \<Longrightarrow> guard_ok (setup_guard dm env v) h es"
  "guard_ok (cas_guard (convert_rel (q_timeText env) v)) h es \<Longrightarrow> guard_ok (setup_guard dm env v) h es"
  by (erule read_guard_mono [rotated], blast)+

lemma sat_recorded:
  "sat (recorded dm m info k) env h Q = sat m env h (\<lambda>r es. case r of
     Done (Inl e) \<Rightarrow> Q (Done (Inl (Errorf ''CSI section upgrade failed when CAPVCD RDE is present'' [e])))
       (es @ [EvAddError (ClusterID dm) RdeUpgradeError [] [] [(''Detailed Error'', DText (error_text e))]
          (q_rde env (h @ es))])
   | Done (Inr _) \<Rightarrow>
       let a = EvAddEvent (ClusterID dm) RdeUpgradeEvent [] [] info (q_rde env (h @ es));
           b = EvRemoveError (ClusterID dm) RdeUpgradeError [] [] (q_rde env (h @ es @ [a])) in
       sat k env (h @ es @ [a, b]) (\<lambda>r' es'. Q r' (es @ [a, b] @ es'))
   | Panic s \<Rightarrow> Q (Panic s) es)"
  unfolding recorded_def sat_attempt
  by (rule arg_cong [where f = "sat m env h"], intro ext)
    (simp add: wp Let_def split: outcome.split sum.split)

text \<open>The calls of a successful upgrade.\<close>

inductive section_upgraded :: "vcd_event list \<Rightarrow> bool" where
  "last_is (converted_by x) es \<Longrightarrow>
   section_upgraded (es @ [EvAddEvent c RdeUpgradeEvent [] [] info q, EvRemoveError c RdeUpgradeError [] [] q'])"

inductive entity_upgraded :: "bool \<Rightarrow> vcd_event list \<Rightarrow> bool" where
  native: "section_upgraded es \<Longrightarrow> entity_upgraded False es"
| capvcd: "section_upgraded es' \<Longrightarrow> entity_upgraded True
     (es @ [EvAddEvent c RdeUpgradeEvent [] [] info q, EvRemoveError c RdeUpgradeError [] [] q'] @ es')"

definition cluster_upgraded :: "bool \<Rightarrow> string \<Rightarrow> vcd_event list \<Rightarrow> bool" where
  "cluster_upgraded upgrade cluster es \<longleftrightarrow>
     (if upgrade \<and> IsValidEntityId cluster
      then entity_upgraded (IsCAPVCDEntityType cluster) es else es = [])"

lemma sat_upgradeCSISection:
  "sat (upgradeCSISection d dm) env h (\<lambda>r es. guard_ok (setup_guard dm env (drvVersion d)) h es \<and> puts es \<le> 10 \<and>
     (case r of Done (Inr _) \<Rightarrow> section_upgraded es | _ \<Rightarrow> True))"
  unfolding upgradeCSISection_def sat_recorded
  by (rule sat_mono [OF sat_ConvertToLatestCSIVersionFormat])
    (auto simp: wp Let_def setup_guards read_guard_other section_upgraded.intros split: outcome.split sum.split)

lemma sat_upgradeEntity:
  "sat (upgradeEntity d dm) env h (\<lambda>r es. guard_ok (setup_guard dm env (drvVersion d)) h es \<and> puts es \<le> 20 \<and>
     (case r of Done (Inr _) \<Rightarrow> entity_upgraded (IsCAPVCDEntityType (ClusterID dm)) es | _ \<Rightarrow> True))"
proof (cases "IsCAPVCDEntityType (ClusterID dm)")
  case False
  then show ?thesis
    by (auto simp: upgradeEntity_def native split: outcome.split sum.split
        intro!: sat_mono [OF sat_upgradeCSISection])
next
  case True
  then show ?thesis
    unfolding upgradeEntity_def sat_recorded
    by (auto simp: sat_recorded Let_def setup_guards read_guard_other split: outcome.split sum.split
        intro!: sat_mono [OF sat_UpgradeRDEPersistentVolumes] sat_mono [OF sat_upgradeCSISection]
          capvcd [simplified])
qed

lemma sat_Setup:
  "sat (Setup d dm vapp node upgrade isZone zm) env h (\<lambda>r es. \<exists>org es'.
     es = EvGetOrg (ClusterOrgName (VCDClient dm)) org # es' \<and>
     guard_ok (setup_guard dm env (drvVersion d)) (h @ [EvGetOrg (ClusterOrgName (VCDClient dm)) org]) es' \<and>
     puts es' \<le> 20 \<and>
     (case r of Done (Inr s) \<Rightarrow> \<exists>o'. org = Inr o' \<and>
         s = \<lparr>svcNode = \<lparr>nsDriver = d, nsNodeID = node\<rparr>,
            svcController = \<lparr>Driver = d, DiskManager = \<lparr>VCDClient = VCDClient dm, ClusterID = ClusterID dm,
               Org = (case o' of None \<Rightarrow> None | Some x \<Rightarrow> x), IsZoneEnabledCluster = isZone, ZoneMap = zm\<rparr>,
              VAppName = vapp\<rparr>,
            svcIdentity = \<lparr>idDriver = d\<rparr>\<rparr> \<and>
         cluster_upgraded upgrade (ClusterID dm) es'
      | _ \<Rightarrow> True))"
  unfolding Setup_def
  by (cases "upgrade \<and> IsValidEntityId (ClusterID dm)")
    (auto simp: wp Let_def NewNodeService_def NewIdentityServer_def cluster_upgraded_def
      split: sum.splits outcome.split intro!: sat_mono [OF sat_upgradeEntity])

text \<open>
  C32: the set-up, in every environment: its services are those of the arguments, with the
  organisation that the cluster's name finds; the entity is upgraded only when that is asked
  for and the cluster has one; each write of the upgrade carries the etag of the last read and
  is the migration of the old volumes, as they were looked up after that read, or the conversion
  of what was read to the driver's version, at most ten of each; and when it succeeds every upgrade that the kind of cluster needs has succeeded.
\<close>

theorem Setup_spec:
  "sat (Setup d dm vapp node upgrade isZone zm) env h (\<lambda>r es. \<exists>org es'.
     es = EvGetOrg (ClusterOrgName (VCDClient dm)) org # es' \<and>
     guard_ok (setup_guard dm env (drvVersion d)) (h @ [EvGetOrg (ClusterOrgName (VCDClient dm)) org]) es' \<and>
     puts es' \<le> 20 \<and>
     (case r of Done (Inr s) \<Rightarrow> \<exists>o'. org = Inr o' \<and>
         s = \<lparr>svcNode = \<lparr>nsDriver = d, nsNodeID = node\<rparr>,
            svcController = \<lparr>Driver = d, DiskManager = \<lparr>VCDClient = VCDClient dm, ClusterID = ClusterID dm,
               Org = (case o' of None \<Rightarrow> None | Some x \<Rightarrow> x), IsZoneEnabledCluster = isZone, ZoneMap = zm\<rparr>,
              VAppName = vapp\<rparr>,
            svcIdentity = \<lparr>idDriver = d\<rparr>\<rparr> \<and>
         cluster_upgraded upgrade (ClusterID dm) es'
      | _ \<Rightarrow> True))"
  by (rule sat_Setup)

section \<open>Running\<close>

text \<open>
  A fatal log line ends the process. The services registered with the server are the ones of
  the set-up; requests are served by the gRPC library until it returns.
\<close>

definition Run :: "vcd_driver \<Rightarrow> unit res host" where
  "Run d = attempt (ParseEndpoint (drvEndpoint d))
     (\<lambda>e. fail (Errorf ''unable to parse endpoint'' [e])) (\<lambda>(scheme, addr).
     bind (if scheme = ''unix'' then
         (let addr = CHR ''/'' # addr in
          bind (Remove addr) (\<lambda>r. case r of
            RemoveError m \<Rightarrow> panic ''Failed to remove'' | _ \<Rightarrow> ret addr))
       else ret addr) (\<lambda>addr.
     attempt (Listen scheme addr) (\<lambda>e. panic ''Failed to listen'') (\<lambda>_. Serve)))"

text \<open>The server is nil until Run has made it; stopping a nil server dereferences it.\<close>

definition Stop :: "bool \<Rightarrow> unit host" where
  "Stop hasRun = (if hasRun then StopServer else panic ''nil server'')"

text \<open>What the server has done when it serves: the path it listens on was cleared twice.\<close>

inductive listening :: "host_event list \<Rightarrow> bool" where
  listening_tcp: "listening [EvListen ''tcp'' addr (Inr ()), EvServe r]"
| listening_unix: "rooted_path addr \<Longrightarrow> rm = Removed \<or> rm = RemoveNotExist \<Longrightarrow>
     rm' = Removed \<or> rm' = RemoveNotExist \<Longrightarrow> Clean (CHR ''/'' # addr) = addr \<Longrightarrow>
     listening [EvRemove addr rm, EvRemove (CHR ''/'' # addr) rm',
       EvListen ''unix'' (CHR ''/'' # addr) (Inr ()), EvServe r]"

fun is_serve :: "host_event \<Rightarrow> bool" where
  "is_serve (EvServe _) = True"
| "is_serve _ = False"

inductive_cases parsedE: "parsed u scheme addr es"

lemma listening_twice:
  "rooted_path addr \<Longrightarrow> rm = Removed \<or> rm = RemoveNotExist \<Longrightarrow> rm' = Removed \<or> rm' = RemoveNotExist \<Longrightarrow>
   listening [EvRemove addr rm, EvRemove (CHR ''/'' # addr) rm',
     EvListen ''unix'' (CHR ''/'' # addr) (Inr ()), EvServe r]"
  by (rule listening_unix) (simp_all add: Clean_id)

lemma sat_Run:
  "sat (Run d) env h (\<lambda>r es. if list_ex is_serve es then listening es
     else (case r of Done (Inr _) \<Rightarrow> False | _ \<Rightarrow> True))"
  unfolding Run_def
  by (auto simp: wp host_calls Let_def split: sum.splits outcome.splits remove_reply.splits
      intro!: sat_mono [OF sat_ParseEndpoint] listening_tcp listening_twice elim!: parsedE)

text \<open>
  The start of the server, in every environment: it serves only after it has opened a
  listener, on TCP, or on a unix socket of which the file was removed or not there; the second
  removal and the listener have a slash in front of the address, which is the same path.
\<close>

theorem Run_spec:
  "sat (Run d) env h (\<lambda>r es. if list_ex is_serve es then listening es
     else (case r of Done (Inr _) \<Rightarrow> False | _ \<Rightarrow> True))"
  by (rule sat_Run)

end
