(* ===== verification/Config.thy ===== *)
theory Config
  imports HostApi
begin

text \<open>
  The configuration of the driver (pkg/config/cloudconfig.go): the YAML file of the cluster,
  its validation, and the credentials that are read from the files of a mounted secret. What
  the YAML decoder makes of the file is an argument.
\<close>

section \<open>The configuration\<close>

record vcd_config =
  cfHost :: string
  cfVDC :: string
  cfOrg :: string
  cfUserOrg :: string
  cfVAppName :: string
  cfIsZoneEnabledCluster :: bool
  cfUser :: string
  cfSecret :: string
  cfRefreshToken :: string

record cloud_config =
  ccVCD :: vcd_config
  ccClusterID :: string

definition validateCloudConfig :: "cloud_config option \<Rightarrow> goerr option" where
  "validateCloudConfig config = (case config of
     None \<Rightarrow> Some (Errorf ''nil config passed'' [])
   | Some c \<Rightarrow>
       if cfHost (ccVCD c) = [] then Some (Errorf ''need a valid vCloud Host'' [])
       else if cfOrg (ccVCD c) = [] then Some (Errorf ''need a valid vCloud Organization'' [])
       else if cfVDC (ccVCD c) = [] then Some (Errorf ''need a valid vCloud Organization VDC'' [])
       else if cfVAppName (ccVCD c) = [] then Some (Errorf ''need a valid vApp name'' [])
       else None)"

text \<open>
  The decoder is given the address of the pointer to the configuration, and a document that is
  null sets that pointer to nil; the host is read from it before the validation.
\<close>

definition ParseCloudConfig :: "cloud_config option res \<Rightarrow> (cloud_config option \<times> goerr option) outcome"
where
  "ParseCloudConfig decoded = (case decoded of
     Inl e \<Rightarrow> Done (None, Some (Errorf ''Unable to decode yaml file'' [e]))
   | Inr None \<Rightarrow> Panic ''nil config''
   | Inr (Some c) \<Rightarrow>
       let c' = c\<lparr>ccVCD := (ccVCD c)\<lparr>cfHost := trim_right (CHR ''/'') (cfHost (ccVCD c))\<rparr>\<rparr> in
       Done (Some c', validateCloudConfig (Some c')))"

text \<open>
  A configuration that is parsed without an error has a host that does not end in a slash,
  an organisation, a data center and a vApp, as they are in the file; it differs from what the
  decoder gave only in the slashes at the end of the host.
\<close>

theorem ParseCloudConfig_valid:
  "case ParseCloudConfig decoded of
     Done (c, None) \<Rightarrow> \<exists>d c' n. decoded = Inr (Some d) \<and> c = Some c' \<and>
       cfHost (ccVCD c') \<noteq> [] \<and> last (cfHost (ccVCD c')) \<noteq> CHR ''/'' \<and>
       cfHost (ccVCD d) = cfHost (ccVCD c') @ replicate n (CHR ''/'') \<and>
       d = c'\<lparr>ccVCD := (ccVCD c')\<lparr>cfHost := cfHost (ccVCD d)\<rparr>\<rparr> \<and>
       cfOrg (ccVCD c') \<noteq> [] \<and> cfVDC (ccVCD c') \<noteq> [] \<and> cfVAppName (ccVCD c') \<noteq> []
   | _ \<Rightarrow> True"
  using trim_right_decomp [where c = "CHR ''/''"] trim_right_last [where c = "CHR ''/''"]
  by (auto simp: ParseCloudConfig_def validateCloudConfig_def Let_def
      split: sum.split option.split if_splits)

section \<open>Credentials\<close>

text \<open>The SDK's split of a user name into an organisation and a user (vcdsdk, client.go).\<close>

definition GetUserAndOrg :: "string \<Rightarrow> string \<Rightarrow> string \<Rightarrow> (string \<times> string) res" where
  "GetUserAndOrg fullUserName clusterOrg currentUserOrg =
     (case split_on (CHR ''/'') fullUserName of
        [user] \<Rightarrow> Inr (if currentUserOrg = [] then clusterOrg else currentUserOrg, user)
      | [org, user] \<Rightarrow> Inr (org, user)
      | _ \<Rightarrow> Inl (Errorf ''invalid username format'' []))"

definition token_file :: string where "token_file = ''/etc/kubernetes/vcloud/basic-auth/refreshToken''"
definition user_file :: string where "user_file = ''/etc/kubernetes/vcloud/basic-auth/username''"
definition password_file :: string where "password_file = ''/etc/kubernetes/vcloud/basic-auth/password''"

text \<open>The three parts of SetAuthorization, each with the answer of the file it reads.\<close>

definition set_token :: "string res \<Rightarrow> vcd_config \<Rightarrow> vcd_config" where
  "set_token r c = (case r of Inl e \<Rightarrow> c
     | Inr t \<Rightarrow> c\<lparr>cfRefreshToken := trim_suffix_char (CHR 0x0A) t\<rparr>)"

text \<open>The results of GetUserAndOrg are assigned before its error is looked at.\<close>

definition set_user :: "string res \<Rightarrow> vcd_config \<Rightarrow> vcd_config \<times> goerr option" where
  "set_user r c = (case r of
     Inl e \<Rightarrow> (c, None)
   | Inr username \<Rightarrow>
       let name = trim_suffix_char (CHR 0x0A) username in
       if name = [] then (c, None)
       else (case GetUserAndOrg name (cfOrg c) (cfUserOrg c) of
           Inl e \<Rightarrow> (c\<lparr>cfUserOrg := [], cfUser := []\<rparr>, Some (Errorf ''unable to get user org and name'' [e]))
         | Inr (org, user) \<Rightarrow> (c\<lparr>cfUserOrg := org, cfUser := user\<rparr>, None)))"

definition set_user_org :: "vcd_config \<Rightarrow> vcd_config" where
  "set_user_org c = (if cfUserOrg c = [] then c\<lparr>cfUserOrg := trim_suffix_char (CHR 0x0A) (cfOrg c)\<rparr> else c)"

definition set_secret :: "string res \<Rightarrow> vcd_config \<Rightarrow> vcd_config" where
  "set_secret r c = (case r of Inl e \<Rightarrow> c
     | Inr s \<Rightarrow> c\<lparr>cfSecret := trim_suffix_char (CHR 0x0A) s\<rparr>)"

definition SetAuthorization :: "vcd_config \<Rightarrow> (vcd_config \<times> goerr option) host" where
  "SetAuthorization c =
     bind (ReadFile token_file) (\<lambda>token.
     bind (ReadFile user_file) (\<lambda>username.
     case set_user username (set_token token c) of
       (c', Some e) \<Rightarrow> ret (c', Some e)
     | (c', None) \<Rightarrow> bind (ReadFile password_file) (\<lambda>secret.
         let c'' = set_secret secret (set_user_org c') in
         if cfRefreshToken c'' \<noteq> [] then ret (c'', None)
         else if cfUser c'' \<noteq> [] \<and> cfUserOrg c'' \<noteq> [] \<and> cfSecret c'' \<noteq> [] then ret (c'', None)
         else ret (c'', Some (Errorf ''unable to get valid set of credentials from secrets'' [])))))"

definition has_credentials :: "vcd_config \<Rightarrow> bool" where
  "has_credentials c \<longleftrightarrow> cfRefreshToken c \<noteq> [] \<or> (cfUser c \<noteq> [] \<and> cfUserOrg c \<noteq> [] \<and> cfSecret c \<noteq> [])"

text \<open>The run of SetAuthorization, by the three answers.\<close>

lemma sat_SetAuthorization [wp]:
  "sat (SetAuthorization c) env h Q =
     (let t = h_readFile env h token_file; h1 = h @ [EvReadFile token_file t];
          u = h_readFile env h1 user_file; h2 = h1 @ [EvReadFile user_file u];
          p = h_readFile env h2 password_file in
      case set_user u (set_token t c) of
        (c', Some e) \<Rightarrow> Q (Done (c', Some e)) [EvReadFile token_file t, EvReadFile user_file u]
      | (c', None) \<Rightarrow>
          let c'' = set_secret p (set_user_org c') in
          Q (Done (c'', if has_credentials c'' then None
              else Some (Errorf ''unable to get valid set of credentials from secrets'' [])))
            [EvReadFile token_file t, EvReadFile user_file u, EvReadFile password_file p])"
  by (auto simp: SetAuthorization_def has_credentials_def wp host_calls Let_def split: prod.splits option.splits)

section \<open>What an attempt does\<close>

text \<open>More than one slash in the user name: the one input that is refused.\<close>

fun bad_user :: "host_event \<Rightarrow> bool" where
  "bad_user (EvReadFile path (Inr n)) \<longleftrightarrow> path = user_file \<and>
     2 < length (split_on (CHR ''/'') (trim_suffix_char (CHR 0x0A) n))"
| "bad_user _ \<longleftrightarrow> False"

lemma GetUserAndOrg_simps:
  "GetUserAndOrg n o' u = Inl e \<Longrightarrow> 2 < length (split_on (CHR ''/'') n)"
  "2 < length (split_on (CHR ''/'') n) \<Longrightarrow> \<exists>e. GetUserAndOrg n o' u = Inl e"
  by (cases "split_on (CHR ''/'') n"; auto simp: GetUserAndOrg_def split: list.splits)+

text \<open>The other settings are left alone.\<close>

definition same_cluster :: "vcd_config \<Rightarrow> vcd_config \<Rightarrow> bool" where
  "same_cluster c c' \<longleftrightarrow> cfHost c' = cfHost c \<and> cfVDC c' = cfVDC c \<and> cfOrg c' = cfOrg c \<and>
     cfVAppName c' = cfVAppName c \<and> cfIsZoneEnabledCluster c' = cfIsZoneEnabledCluster c"

lemma same_cluster_refl [simp]: "same_cluster c c"
  by (simp add: same_cluster_def)

lemma same_cluster_trans: "same_cluster a b \<Longrightarrow> same_cluster b c \<Longrightarrow> same_cluster a c"
  by (simp add: same_cluster_def)

lemma same_cluster_set:
  "same_cluster c (set_token r c)" "same_cluster c (set_user_org c)" "same_cluster c (set_secret r c)"
  "set_user r c = (c', e) \<Longrightarrow> same_cluster c c'"
  by (auto simp: same_cluster_def set_token_def set_user_org_def set_secret_def set_user_def Let_def
      split: sum.splits if_splits)

lemma set_user_bad: "set_user (Inr n) c = (c', Some e) \<Longrightarrow> bad_user (EvReadFile user_file (Inr n))"
  by (auto simp: set_user_def Let_def split: if_splits sum.splits dest: GetUserAndOrg_simps(1))

lemma set_user_good: "set_user r c = (c', None) \<Longrightarrow> \<not> bad_user (EvReadFile user_file r)"
proof (cases r)
  case (Inr n)
  assume "set_user r c = (c', None)"
  then have "trim_suffix_char (CHR 0x0A) n = [] \<or>
      (\<nexists>e. GetUserAndOrg (trim_suffix_char (CHR 0x0A) n) (cfOrg c) (cfUserOrg c) = Inl e)"
    by (auto simp: Inr set_user_def Let_def split: if_splits)
  then show ?thesis
    using GetUserAndOrg_simps(2) [of "trim_suffix_char (CHR 0x0A) n"] Inr by auto
qed simp

lemma set_user_bad': "set_user r c = (c', Some e) \<Longrightarrow> bad_user (EvReadFile user_file r)"
  using set_user_bad by (cases r) (auto simp: set_user_def)

lemma same_cluster_steps:
  "set_user u (set_token t c) = (c', e) \<Longrightarrow> same_cluster c c'"
  "set_user u (set_token t c) = (c', e) \<Longrightarrow> same_cluster c (set_secret p (set_user_org c'))"
  by (blast intro: same_cluster_trans same_cluster_set)+

lemma sat_SetAuthorization_story:
  "sat (SetAuthorization c) env h (\<lambda>r es. case r of
     Done (c', err) \<Rightarrow> same_cluster c c' \<and>
       (case err of None \<Rightarrow> has_credentials c' \<and> \<not> list_ex bad_user es
        | Some e \<Rightarrow> list_ex bad_user es \<or> \<not> has_credentials c')
   | Panic s \<Rightarrow> False)"
proof -
  have "\<not> bad_user (EvReadFile p r)" if "p \<noteq> user_file" for p r
    using that by (cases r) auto
  then have other: "\<not> bad_user (EvReadFile token_file r)" "\<not> bad_user (EvReadFile password_file r)" for r
    by (simp_all add: token_file_def password_file_def user_file_def)
  show ?thesis
    by (auto simp: wp Let_def other split: prod.splits option.splits
        dest: same_cluster_steps set_user_good set_user_bad')
qed

text \<open>
  An attempt to get the credentials, in every environment: it touches only the user, the
  secret and the token; it succeeds exactly when the user name has at most one slash and there
  is a token, or a user with organisation and secret; and it makes at most three reads.
\<close>

theorem SetAuthorization_spec:
  "sat (SetAuthorization c) env h (\<lambda>r es. length es \<le> 3 \<and> (case r of
     Done (c', err) \<Rightarrow> same_cluster c c' \<and>
       (case err of None \<Rightarrow> has_credentials c' \<and> \<not> list_ex bad_user es
        | Some e \<Rightarrow> list_ex bad_user es \<or> \<not> has_credentials c')
   | Panic s \<Rightarrow> False))"
  unfolding sat_conj
  by (intro conjI sat_SetAuthorization_story) (simp add: wp Let_def split: prod.split option.split)

text \<open>The attempt as a function of the three answers.\<close>

definition authorised_by :: "string res \<Rightarrow> string res \<Rightarrow> string res \<Rightarrow> vcd_config \<Rightarrow> vcd_config \<times> goerr option"
where
  "authorised_by t u p c = (case set_user u (set_token t c) of
     (c', Some e) \<Rightarrow> (c', Some e)
   | (c', None) \<Rightarrow> let c'' = set_secret p (set_user_org c') in
       (c'', if has_credentials c'' then None
             else Some (Errorf ''unable to get valid set of credentials from secrets'' [])))"

lemma set_user_cases:
  obtains (none) "\<And>c. set_user r c = (c, None)"
    | (bad) e where "\<And>c. set_user r c = (c\<lparr>cfUserOrg := [], cfUser := []\<rparr>, Some e)"
    | (user) n where "\<And>c. set_user r c =
        (c\<lparr>cfUserOrg := if cfUserOrg c = [] then cfOrg c else cfUserOrg c, cfUser := n\<rparr>, None)"
    | (both) g n where "\<And>c. set_user r c = (c\<lparr>cfUserOrg := g, cfUser := n\<rparr>, None)"
proof (cases r)
  case (Inl e)
  then show ?thesis by (intro none) (simp add: set_user_def)
next
  case (Inr x)
  define n where "n = trim_suffix_char (CHR 0x0A) x"
  consider "n = []" | u where "n \<noteq> []" "split_on (CHR ''/'') n = [u]"
    | g u where "n \<noteq> []" "split_on (CHR ''/'') n = [g, u]"
    | a b c' ds where "n \<noteq> []" "split_on (CHR ''/'') n = a # b # c' # ds"
    by (metis list.exhaust split_on_not_Nil)
  then show ?thesis
  proof cases
    case 1
    then show ?thesis by (intro none) (simp add: set_user_def Inr n_def [symmetric])
  next
    case (2 u)
    then show ?thesis by (intro user [of u]) (simp add: set_user_def Inr n_def [symmetric] GetUserAndOrg_def)
  next
    case (3 g u)
    then show ?thesis by (intro both [where g = g and n = u]) (simp add: set_user_def Inr n_def [symmetric] GetUserAndOrg_def)
  next
    case 4
    then show ?thesis by (intro bad) (simp add: set_user_def Inr n_def [symmetric] GetUserAndOrg_def)
  qed
qed

lemma authorised_by_again:
  "authorised_by t u p (fst (authorised_by t u p c)) = authorised_by t u p c"
proof (cases rule: set_user_cases [of u])
  case none
  then show ?thesis
    by (cases t; cases p) (simp_all add: authorised_by_def set_token_def set_secret_def set_user_org_def has_credentials_def Let_def)
next
  case bad
  then show ?thesis by (cases t) (simp_all add: authorised_by_def set_token_def)
next
  case user
  then show ?thesis
    by (cases t; cases p) (simp_all add: authorised_by_def set_token_def set_secret_def set_user_org_def has_credentials_def Let_def)
next
  case both
  then show ?thesis
    by (cases t; cases p) (simp_all add: authorised_by_def set_token_def set_secret_def set_user_org_def has_credentials_def Let_def)
qed

lemma SetAuthorization_stable:
  assumes "\<And>h p. h_readFile env h p = files p"
  shows "\<exists>es. \<forall>c h. SetAuthorization c env h =
    (Done (authorised_by (files token_file) (files user_file) (files password_file) c), es)"
proof -
  let ?a = "authorised_by (files token_file) (files user_file) (files password_file)"
  let ?reads = "map (\<lambda>p. EvReadFile p (files p))"
  have run: "SetAuthorization c env h = (Done (?a c), es)"
    if "sat (SetAuthorization c) env h (\<lambda>r es'. r = Done (?a c) \<and> es' = es)" for c h es
    using that by (rule sat_exact)
  show ?thesis
  proof (cases rule: set_user_cases [of "files user_file"])
    case bad
    then show ?thesis
      by (intro exI [of _ "?reads [token_file, user_file]"] allI run)
        (simp add: wp Let_def assms authorised_by_def)
  qed (intro exI [of _ "?reads [token_file, user_file, password_file]"] allI run,
       simp add: wp Let_def assms authorised_by_def)+
qed

text \<open>
  While the files stay the same, a further attempt changes nothing and ends like the one
  before: trying again is harmless, and useless until a file changes.
\<close>

theorem SetAuthorization_again:
  assumes "SetAuthorization c env h = (Done (c', err), es)"
    and "\<And>h p. h_readFile env h p = files p"
  shows "SetAuthorization c' env h' = (Done (c', err), es)"
  using SetAuthorization_stable [of env files, OF assms(2)] assms(1) authorised_by_again by (metis fst_conv outcome.inject(1) prod.inject)

text \<open>A secret with a user name and a password, and no token.\<close>

definition secret_host :: "(string \<Rightarrow> string res) \<Rightarrow> host_env" where
  "secret_host files = idle_host\<lparr>h_readFile := (\<lambda>_. files)\<rparr>"

definition files0 :: "string \<Rightarrow> string res" where
  "files0 p = (if p = user_file then Inr (''org/bob'' @ [CHR 0x0A])
     else if p = password_file then Inr ''pw'' else Inl (ApiError ''no'' False))"

definition config0 :: vcd_config where
  "config0 = \<lparr>cfHost = ''https://vcd'', cfVDC = ''ovdc'', cfOrg = ''org'', cfUserOrg = [], cfVAppName = ''vapp'',
     cfIsZoneEnabledCluster = False, cfUser = [], cfSecret = [], cfRefreshToken = []\<rparr>"

definition reads0 :: "host_event list" where
  "reads0 = map (\<lambda>p. EvReadFile p (files0 p)) [token_file, user_file, password_file]"

lemma config0_run:
  "SetAuthorization config0 (secret_host files0) [] =
     (Done (config0\<lparr>cfUserOrg := ''org'', cfUser := ''bob'', cfSecret := ''pw''\<rparr>, None), reads0)"
  by (rule sat_exact)
    (simp add: wp secret_host_def idle_host_def files0_def reads0_def token_file_def user_file_def
      password_file_def set_token_def set_user_def set_user_org_def set_secret_def GetUserAndOrg_def
      trim_suffix_char_def has_credentials_def config0_def Let_def)

theorem SetAuthorization_again_witness:
  "fst (SetAuthorization (config0\<lparr>cfUserOrg := ''org'', cfUser := ''bob'', cfSecret := ''pw''\<rparr>)
      (secret_host files0) reads0) =
   Done (config0\<lparr>cfUserOrg := ''org'', cfUser := ''bob'', cfSecret := ''pw''\<rparr>, None)"
  using SetAuthorization_again [OF config0_run, of files0 reads0] by (simp add: secret_host_def)

end
