(* ===== verification/Command.thy ===== *)
theory Command
  imports Driver Config "HOL-Library.AList"
begin

text \<open>
  The command (cmd/csi/main.go): its flags, and then (runCommand) configuration, credentials,
  client, zones, set-up and server, in that order. It calls the host and the cloud; its events are those of
  both, and each side's answers depend on that side's events.
\<close>

section \<open>Two sides\<close>

datatype run_event =
    HostEv host_event
  | VcdEv vcd_event
  | EvOpen string "unit res"
  | EvDecode string "cloud_config option res"
  | EvNewClient vcd_config bool "unit res"
  | EvZones string "(string \<times> string) list option res"
  | EvParse "(string \<times> string) list option res"

text \<open>
  \<open>w_decode\<close> is the YAML decoder on the configuration file, \<open>w_zones\<close> on the file of the zones
  (pairs of a data center and its zone; None is the nil pointer that a null document leaves);
  \<open>w_newClient\<close> is the login of the SDK; \<open>w_parse\<close> is the parser of the command line (cobra and
  pflag): an error, or None when it has printed a help text or the version, or the flags that
  were set, in their order, each with its value as text.
\<close>

record run_env =
  w_host :: host_env
  w_vcd :: vcd_env
  w_open :: "run_event list \<Rightarrow> string \<Rightarrow> unit res"
  w_decode :: "run_event list \<Rightarrow> string \<Rightarrow> cloud_config option res"
  w_newClient :: "run_event list \<Rightarrow> vcd_config \<Rightarrow> bool \<Rightarrow> unit res"
  w_zones :: "run_event list \<Rightarrow> string \<Rightarrow> (string \<times> string) list option res"
  w_parse :: "run_event list \<Rightarrow> (string \<times> string) list option res"

type_synonym 'a run = "(run_env, run_event, 'a) io"

fun host_part :: "run_event list \<Rightarrow> host_event list" where
  "host_part [] = []"
| "host_part (HostEv e # h) = e # host_part h"
| "host_part (_ # h) = host_part h"

fun vcd_part :: "run_event list \<Rightarrow> vcd_event list" where
  "vcd_part [] = []"
| "vcd_part (VcdEv e # h) = e # vcd_part h"
| "vcd_part (_ # h) = vcd_part h"

definition on_host :: "'a host \<Rightarrow> 'a run" where
  "on_host m = (\<lambda>env h. case m (w_host env) (host_part h) of (r, es) \<Rightarrow> (r, map HostEv es))"

definition on_vcd :: "'a vcd \<Rightarrow> 'a run" where
  "on_vcd m = (\<lambda>env h. case m (w_vcd env) (vcd_part h) of (r, es) \<Rightarrow> (r, map VcdEv es))"

lemma sat_on_host [wp]:
  "sat (on_host m) env h Q = sat m (w_host env) (host_part h) (\<lambda>r es. Q r (map HostEv es))"
  by (simp add: sat_def on_host_def split: prod.splits)

lemma sat_on_vcd [wp]:
  "sat (on_vcd m) env h Q = sat m (w_vcd env) (vcd_part h) (\<lambda>r es. Q r (map VcdEv es))"
  by (simp add: sat_def on_vcd_def split: prod.splits)

lemma parts_append [simp]:
  "host_part (xs @ ys) = host_part xs @ host_part ys"
  "vcd_part (xs @ ys) = vcd_part xs @ vcd_part ys"
proof -
  show "host_part (xs @ ys) = host_part xs @ host_part ys"
    by (induction xs rule: host_part.induct) simp_all
  show "vcd_part (xs @ ys) = vcd_part xs @ vcd_part ys"
    by (induction xs rule: vcd_part.induct) simp_all
qed

lemma parts_map [simp]:
  "host_part (map HostEv es) = es" "host_part (map VcdEv vs) = []"
  "vcd_part (map VcdEv vs) = vs" "vcd_part (map HostEv es) = []"
proof -
  show "host_part (map HostEv es) = es" "vcd_part (map HostEv es) = []"
    by (induction es) simp_all
  show "host_part (map VcdEv vs) = []" "vcd_part (map VcdEv vs) = vs"
    by (induction vs) simp_all
qed

section \<open>Zones and client\<close>

definition ZoneMapConfigFilePath :: string where
  "ZoneMapConfigFilePath = ''/opt/vmware-cloud-director/csi/vcloud-cse-zones.yaml''"

text \<open>The SDK's zone map (vcdsdk, zonemap.go): a later zone of a data center replaces an earlier one.\<close>

definition zoneEntries :: "(string \<times> string) list \<Rightarrow> (string \<times> string) list" where
  "zoneEntries zones = foldl (\<lambda>m (ovdcName, zone). AList.update ovdcName zone m) [] zones"

definition NewZoneMap :: "string \<Rightarrow> zone_map res run" where
  "NewZoneMap path = attempt (call (\<lambda>env h. w_zones env h path) (EvZones path))
     (\<lambda>e. fail (Errorf ''unable to load and parse configmap'' [e]))
     (\<lambda>zones. case zones of None \<Rightarrow> panic ''nil ZoneConfigMap''
       | Some zs \<Rightarrow> ok \<lparr>VdcToZoneMap = zoneEntries zs\<rparr>)"

text \<open>The client that the SDK returns has the organisation and the data center it was asked for.\<close>

definition NewVCDClientFromSecrets :: "vcd_config \<Rightarrow> bool \<Rightarrow> vcd_client res run" where
  "NewVCDClientFromSecrets c getVdcClient =
     attempt (call (\<lambda>env h. w_newClient env h c getVdcClient) (EvNewClient c getVdcClient))
       (\<lambda>e. fail e) (\<lambda>_. ok \<lparr>ClusterOrgName = cfOrg c, ClusterOVDCIdentifier = cfVDC c\<rparr>)"

text \<open>
  The zones of a zone map are a function of the data center: no data center is listed
  twice, and each has the zone that the file gives for it last.
\<close>

theorem zoneEntries_spec:
  "distinct (map fst (zoneEntries zones)) \<and> map_of (zoneEntries zones) = map_of (rev zones)"
proof -
  have "distinct (map fst m) \<Longrightarrow>
      distinct (map fst (foldl (\<lambda>m (v, z). AList.update v z m) m zones)) \<and>
      map_of (foldl (\<lambda>m (v, z). AList.update v z m) m zones) = map_of (rev zones @ m)" for m
  proof (induction zones arbitrary: m)
    case (Cons x zones)
    obtain v z where x: "x = (v, z)" by fastforce
    from Cons.IH [of "AList.update v z m"] Cons.prems show ?case
      by (simp add: x distinct_update update_conv' map_add_def fun_eq_iff)
  qed simp
  from this [of "[]"] show ?thesis by (simp add: zoneEntries_def)
qed

section \<open>Waiting for the credentials\<close>

text \<open>
  The loop \<open>for { err = SetAuthorization(config); if err == nil { break }; Sleep(10s) }\<close>, cut
  after \<open>n\<close> attempts: None means that it has not returned by then.
\<close>

fun authorizationLoop :: "nat \<Rightarrow> vcd_config \<Rightarrow> vcd_config option host" where
  "authorizationLoop 0 c = ret None"
| "authorizationLoop (Suc n) c = bind (SetAuthorization c) (\<lambda>(c', err). case err of
     None \<Rightarrow> ret (Some c')
   | Some e \<Rightarrow> bind (Sleep 10) (\<lambda>_. authorizationLoop n c'))"

fun is_sleep :: "host_event \<Rightarrow> bool" where
  "is_sleep (EvSleep _) = True"
| "is_sleep _ = False"

definition sleeps :: "host_event list \<Rightarrow> nat" where
  "sleeps es = length (filter is_sleep es)"

lemma sleeps_simps [simp]:
  "sleeps [] = 0" "sleeps (xs @ ys) = sleeps xs + sleeps ys"
  "sleeps (e # es) = (if is_sleep e then Suc (sleeps es) else sleeps es)"
  by (simp_all add: sleeps_def)

lemma sat_SetAuthorization_awake:
  "sat (SetAuthorization c) env h (\<lambda>r es. sleeps es = 0 \<and> (case r of
     Done (c', err) \<Rightarrow> same_cluster c c' \<and> (case err of None \<Rightarrow> has_credentials c' | Some e \<Rightarrow> True)
   | Panic s \<Rightarrow> False))"
proof -
  have "sat (SetAuthorization c) env h (\<lambda>r es. sleeps es = 0)"
    by (simp add: wp Let_def split: prod.split option.split)
  moreover have "sat (SetAuthorization c) env h (\<lambda>r es. case r of
     Done (c', err) \<Rightarrow> same_cluster c c' \<and> (case err of None \<Rightarrow> has_credentials c' | Some e \<Rightarrow> True)
   | Panic s \<Rightarrow> False)"
    by (rule sat_mono [OF sat_SetAuthorization_story]) (auto split: outcome.splits option.splits)
  ultimately show ?thesis by (simp add: sat_conj)
qed

lemma sat_authorizationLoop:
  "sat (authorizationLoop n c) env h (\<lambda>r es. case r of
     Done (Some c') \<Rightarrow> same_cluster c c' \<and> has_credentials c' \<and> sleeps es < n
   | Done None \<Rightarrow> sleeps es = n | Panic s \<Rightarrow> False)"
proof (induction n arbitrary: c h)
  case (Suc n)
  show ?case
    by (auto simp: wp host_calls simp del: sat_SetAuthorization split: outcome.splits prod.splits option.splits
        intro!: sat_mono [OF sat_SetAuthorization_awake] sat_mono [OF Suc.IH] intro: same_cluster_trans)
qed (simp add: wp)

text \<open>
  The wait for the credentials, in every environment: when it ends, the configuration has
  a token or a user with organisation and secret and is otherwise the one it began with; it
  sleeps after each failed attempt, and only then; and nothing in it panics.
\<close>

theorem authorizationLoop_spec:
  "sat (authorizationLoop n c) env h (\<lambda>r es. case r of
     Done (Some c') \<Rightarrow> same_cluster c c' \<and> has_credentials c' \<and> sleeps es < n
   | Done None \<Rightarrow> sleeps es = n | Panic s \<Rightarrow> False)"
  by (rule sat_authorizationLoop)

text \<open>A secret that suffices: a token, or a user with organisation and password.\<close>

definition mounted :: "(string \<Rightarrow> string res) \<Rightarrow> bool" where
  "mounted files \<longleftrightarrow>
     (\<exists>t. files token_file = Inr t \<and> trim_suffix_char (CHR 0x0A) t \<noteq> [] \<and>
        \<not> bad_user (EvReadFile user_file (files user_file))) \<or>
     (\<exists>n g u p. files user_file = Inr n \<and> split_on (CHR ''/'') (trim_suffix_char (CHR 0x0A) n) = [g, u] \<and>
        g \<noteq> [] \<and> u \<noteq> [] \<and> files password_file = Inr p \<and> trim_suffix_char (CHR 0x0A) p \<noteq> [])"

lemma set_user_token: "set_user r c = (c', e) \<Longrightarrow> cfRefreshToken c' = cfRefreshToken c"
  by (cases rule: set_user_cases [of r]) auto

lemma mounted_authorises:
  assumes "mounted files" and "set_user (files user_file) (set_token (files token_file) c) = (c', err)"
  shows "err = None" and "has_credentials (set_secret (files password_file) (set_user_org c'))"
proof -
  from assms(1) consider
      (token) t where "files token_file = Inr t" "trim_suffix_char (CHR 0x0A) t \<noteq> []"
        "\<not> bad_user (EvReadFile user_file (files user_file))"
    | (user) n g u p where "files user_file = Inr n" "split_on (CHR ''/'') (trim_suffix_char (CHR 0x0A) n) = [g, u]"
        "g \<noteq> []" "u \<noteq> []" "files password_file = Inr p" "trim_suffix_char (CHR 0x0A) p \<noteq> []"
    unfolding mounted_def by blast
  then have "err = None \<and> has_credentials (set_secret (files password_file) (set_user_org c'))"
  proof cases
    case token
    have "err = None" using token(3) assms(2) set_user_bad' by (cases err) auto
    moreover have "cfRefreshToken c' \<noteq> []"
      using set_user_token [OF assms(2)] token(1,2) by (simp add: set_token_def)
    ultimately show ?thesis
      by (simp add: has_credentials_def set_secret_def set_user_org_def split: sum.split)
  next
    case user
    have "trim_suffix_char (CHR 0x0A) n \<noteq> []" using user(2) by auto
    then show ?thesis
      using assms(2) user
      by (auto simp: set_user_def GetUserAndOrg_def has_credentials_def set_secret_def set_user_org_def Let_def)
  qed
  then show "err = None" "has_credentials (set_secret (files password_file) (set_user_org c'))" by simp_all
qed

lemma authorizationLoop_mounted:
  assumes "\<And>h p. k \<le> sleeps h \<Longrightarrow> h_readFile env h p = files p" and "mounted files"
  shows "sleeps h \<le> k \<Longrightarrow> k < sleeps h + n \<Longrightarrow>
    sat (authorizationLoop n c) env h (\<lambda>r es. \<exists>c'. r = Done (Some c') \<and> sleeps h + sleeps es \<le> k)"
proof (induction n arbitrary: c h)
  case (Suc n)
  show ?case
  proof (cases "sleeps h = k")
    case True
    then show ?thesis
      using mounted_authorises [OF assms(2)]
      by (auto simp: wp Let_def assms(1) split: prod.split option.split)
  next
    case False
    have later: "sat (authorizationLoop n c') env (h @ es @ [EvSleep 10])
        (\<lambda>r' es'. \<exists>c'. r' = Done (Some c') \<and> sleeps h + sleeps (es @ EvSleep 10 # es') \<le> k)" if "sleeps es = 0" for c' es
      by (rule sat_mono [OF Suc.IH]) (use Suc.prems False that in auto)
    show ?thesis
      using Suc.prems False
      by (auto simp: wp host_calls simp del: sat_SetAuthorization split: outcome.splits prod.splits option.splits
          intro!: sat_mono [OF sat_SetAuthorization_awake] later [simplified])
  qed
qed simp

text \<open>
  C31: the wait for the credentials ends: when a sufficient secret is mounted after at most
  k pauses, whatever the files were before, the loop returns within k + 1 attempts, and no
  further attempt is made.
\<close>

theorem authorizationLoop_returns:
  assumes "\<And>h p. k \<le> sleeps h \<Longrightarrow> h_readFile env h p = files p" and "mounted files"
  shows "\<exists>c' es. authorizationLoop (Suc k + m) c env [] = (Done (Some c'), es) \<and> sleeps es \<le> k"
proof -
  have "sat (authorizationLoop (Suc k + m) c) env [] (\<lambda>r es. \<exists>c'. r = Done (Some c') \<and> sleeps [] + sleeps es \<le> k)"
    by (rule authorizationLoop_mounted [OF assms]) simp_all
  then show ?thesis
    by (cases "authorizationLoop (Suc k + m) c env []") (auto simp: sat_pair)
qed

definition late_secret :: host_env where
  "late_secret = idle_host\<lparr>h_readFile := (\<lambda>h p. if sleeps h < 2 then Inl (ApiError ''no'' False) else files0 p)\<rparr>"

theorem authorizationLoop_returns_witness:
  "\<exists>c' es. authorizationLoop 10 config0 late_secret [] = (Done (Some c'), es) \<and> sleeps es \<le> 2"
proof -
  have "mounted files0"
    unfolding mounted_def by (intro disjI2 exI [of _ "''org/bob'' @ [CHR 0x0A]"] exI [of _ "''org''"] exI [of _ "''bob''"] exI [of _ "''pw''"])
      (simp add: files0_def user_file_def password_file_def trim_suffix_char_def)
  moreover have "2 \<le> sleeps h \<Longrightarrow> h_readFile late_secret h p = files0 p" for h p
    by (simp add: late_secret_def)
  ultimately show ?thesis
    using authorizationLoop_returns [of 2 late_secret files0 7 config0] by simp
qed

section \<open>The command\<close>

record flags =
  flEndpoint :: string
  flNodeID :: string
  flCloudConfig :: string
  flUpgradeRDE :: bool

text \<open>The disk manager of the set-up: the fields that main.go does not set have their zero value.\<close>

definition setupManager :: "vcd_client \<Rightarrow> string \<Rightarrow> disk_manager" where
  "setupManager client clusterID = \<lparr>VCDClient = client, ClusterID = clusterID, Org = None,
     IsZoneEnabledCluster = False, ZoneMap = None\<rparr>"

definition serveDriver :: "vcd_driver \<Rightarrow> string \<Rightarrow> bool \<Rightarrow> vcd_config \<Rightarrow> vcd_client \<Rightarrow> string \<Rightarrow>
    zone_map \<Rightarrow> unit run" where
  "serveDriver d nodeID upgrade c vcdClient clusterID zm =
     attempt (on_vcd (Setup d (setupManager vcdClient clusterID) (cfVAppName c) nodeID upgrade
         (cfIsZoneEnabledCluster c) (Some zm)))
       (\<lambda>e. panic ''error while setting up driver'') (\<lambda>_.
     attempt (on_host (Run d)) (\<lambda>e. panic ''error while running driver'') (\<lambda>_. ret ()))"

definition startDriver :: "vcd_driver \<Rightarrow> string \<Rightarrow> bool \<Rightarrow> cloud_config \<Rightarrow> unit run" where
  "startDriver d nodeID upgrade config =
     (let c = ccVCD config; getVdcClient = (cfVDC c \<noteq> []) in
      attempt (NewVCDClientFromSecrets c getVdcClient) (\<lambda>e. panic ''unable to initiate vcd client'') (\<lambda>vcdClient.
      bind (if ccClusterID config = [] then on_host (Getenv ''CLUSTER_ID'') else ret (ccClusterID config)) (\<lambda>clusterID.
      attempt (NewZoneMap ZoneMapConfigFilePath) (\<lambda>e. panic ''unable to create new zone map'') (\<lambda>zm.
      serveDriver d nodeID upgrade c vcdClient clusterID zm))))"

definition awaitAndStart :: "nat \<Rightarrow> vcd_driver \<Rightarrow> string \<Rightarrow> bool \<Rightarrow> cloud_config \<Rightarrow> unit option run" where
  "awaitAndStart n d nodeID upgrade config =
     bind (on_host (authorizationLoop n (ccVCD config))) (\<lambda>c. case c of
       None \<Rightarrow> ret None
     | Some c' \<Rightarrow> bind (startDriver d nodeID upgrade (config\<lparr>ccVCD := c'\<rparr>)) (\<lambda>_. ret (Some ())))"

text \<open>None: after \<open>n\<close> attempts the command still waits for its credentials.\<close>

definition runCommand :: "nat \<Rightarrow> flags \<Rightarrow> unit option run" where
  "runCommand n fl =
     bind (on_vcd DriverVersion) (\<lambda>version.
     let d = fst (NewDriver version (flNodeID fl) (flEndpoint fl)) in
     bind (on_host (Getenv ''NODE_ID'')) (\<lambda>nodeID.
     if nodeID = [] then panic ''ENV NODE_ID is not set''
     else attempt (call (\<lambda>env h. w_open env h (flCloudConfig fl)) (EvOpen (flCloudConfig fl)))
       (\<lambda>e. panic ''unable to read cloud config'') (\<lambda>_.
     bind (call (\<lambda>env h. w_decode env h (flCloudConfig fl)) (EvDecode (flCloudConfig fl))) (\<lambda>decoded.
     case ParseCloudConfig decoded of
       Done (Some config, None) \<Rightarrow> awaitAndStart n d nodeID (flUpgradeRDE fl) config
     | Done (_, Some e) \<Rightarrow> panic ''unable to parse configuration''
     | Done (None, None) \<Rightarrow> panic ''nil config''
     | Panic s \<Rightarrow> panic s))))"

section \<open>The order of the start\<close>

fun serving :: "run_event \<Rightarrow> bool" where
  "serving (HostEv e) = is_serve e"
| "serving _ = False"

lemma serving_parts [simp]:
  "list_ex serving (map HostEv es) = list_ex is_serve es" "list_ex serving (map VcdEv vs) = False"
  by (simp_all add: list_ex_iff)

text \<open>The set-up and the server, and what each has found.\<close>

inductive served :: "bool \<Rightarrow> string \<Rightarrow> string \<Rightarrow> run_event list \<Rightarrow> bool" for upgrade orgName cluster where
  servedI: "puts ss \<le> 20 \<Longrightarrow> cluster_upgraded upgrade cluster ss \<Longrightarrow> listening ls \<Longrightarrow>
     served upgrade orgName cluster
       ([VcdEv (EvGetOrg orgName (Inr org))] @ map VcdEv ss @ map HostEv ls)"

lemma sat_serveDriver:
  "sat (serveDriver d nodeID upgrade c client cluster zm) env h (\<lambda>r es.
     if list_ex serving es then served upgrade (ClusterOrgName client) cluster es else (\<forall>x. r \<noteq> Done x))"
proof -
  have ready: "sat (Setup d (setupManager client cluster) (cfVAppName c) nodeID upgrade (cfIsZoneEnabledCluster c) (Some zm))
      env h (only_succeeds (\<lambda>r es _. \<exists>org ss. es = EvGetOrg (ClusterOrgName client) (Inr org) # ss \<and> puts ss \<le> 20 \<and>
         cluster_upgraded upgrade cluster ss))" for env h
    by (rule sat_mono [OF sat_Setup], rule only_succeedsI) (auto simp: setupManager_def)
  show ?thesis
    unfolding serveDriver_def sat_attempt sat_on_vcd sat_on_host
  proof (rule sat_mono [OF ready], goal_cases)
    case (1 r es)
    then show ?case
      using servedI [of _ upgrade cluster _ "ClusterOrgName client"]
      by (auto simp: wp split: outcome.splits sum.splits if_splits intro!: sat_mono [OF sat_Run])
  qed
qed

text \<open>From the client on.\<close>

inductive driver_started :: "bool \<Rightarrow> cloud_config \<Rightarrow> run_event list \<Rightarrow> bool" for upgrade config where
  driver_startedI: "cluster = ccClusterID config \<or> ccClusterID config = [] \<Longrightarrow>
     served upgrade (cfOrg (ccVCD config)) cluster es \<Longrightarrow>
     driver_started upgrade config ([EvNewClient (ccVCD config) (cfVDC (ccVCD config) \<noteq> []) (Inr ()),
       EvZones ZoneMapConfigFilePath (Inr (Some zs))] @ es)"

lemma sat_startDriver:
  "sat (startDriver d nodeID upgrade config) env h (\<lambda>r es.
     if list_ex serving es then driver_started upgrade config es else (\<forall>x. r \<noteq> Done x))"
  unfolding startDriver_def NewVCDClientFromSecrets_def NewZoneMap_def
  using driver_startedI [of _ config upgrade]
  by (auto simp: wp host_calls Let_def split: sum.splits option.splits outcome.splits if_splits
      intro!: sat_mono [OF sat_serveDriver])

lemma sat_credentials:
  "sat (authorizationLoop n c) env h (\<lambda>r es. list_ex is_serve es = False \<and> (case r of
     Done (Some c') \<Rightarrow> same_cluster c c' \<and> has_credentials c' | _ \<Rightarrow> True))"
proof -
  have "emits (\<lambda>e. \<not> is_serve e) (SetAuthorization c)" for c
    unfolding SetAuthorization_def by (auto intro!: trace_rules simp: host_calls Let_def)
  then have "emits (\<lambda>e. \<not> is_serve e) (authorizationLoop n c)"
    by (induction n arbitrary: c) (auto intro!: trace_rules simp: host_calls)
  then have "sat (authorizationLoop n c) env h (\<lambda>r es. list_ex is_serve es = False)"
    by (rule emits_rule) (auto simp: list_ex_iff list_all_iff)
  moreover have "sat (authorizationLoop n c) env h (\<lambda>r es. case r of
     Done (Some c') \<Rightarrow> same_cluster c c' \<and> has_credentials c' | _ \<Rightarrow> True)"
    by (rule sat_mono [OF sat_authorizationLoop]) (auto split: outcome.splits option.splits)
  ultimately show ?thesis by (simp add: sat_conj)
qed

text \<open>The whole start: the file, the wait for the credentials, and the rest.\<close>

inductive started :: "flags \<Rightarrow> run_event list \<Rightarrow> bool" for fl where
  startedI: "ParseCloudConfig decoded = Done (Some config, None) \<Longrightarrow>
     same_cluster (ccVCD config) c \<Longrightarrow> has_credentials c \<Longrightarrow>
     driver_started (flUpgradeRDE fl) (config\<lparr>ccVCD := c\<rparr>) es \<Longrightarrow>
     started fl ([EvOpen (flCloudConfig fl) (Inr ()), EvDecode (flCloudConfig fl) decoded] @
       map HostEv waits @ es)"

lemma sat_awaitAndStart:
  assumes "ParseCloudConfig decoded = Done (Some config, None)"
  shows "sat (awaitAndStart n d nodeID (flUpgradeRDE fl) config) env h (\<lambda>r es. if list_ex serving es
     then started fl (EvOpen (flCloudConfig fl) (Inr ()) # EvDecode (flCloudConfig fl) decoded # es)
     else (case r of Done (Some _) \<Rightarrow> False | _ \<Rightarrow> True))"
  unfolding awaitAndStart_def sat_bind sat_on_host
proof (rule sat_mono [OF sat_credentials], goal_cases)
  case (1 r es)
  show ?case
  proof (cases "\<exists>c. r = Done (Some c)")
    case True
    then obtain c where c: "r = Done (Some c)" "same_cluster (ccVCD config) c" "has_credentials c"
      using 1 by auto
    from startedI [OF assms c(2,3), of fl _ es] show ?thesis
      using 1 c(1) by (auto simp: wp split: outcome.splits if_splits intro!: sat_mono [OF sat_startDriver])
  next
    case False
    then show ?thesis using 1 by (cases r) (auto simp: wp split: option.split)
  qed
qed

lemma sat_runCommand:
  "sat (runCommand n fl) env h (\<lambda>r es. if list_ex serving es then started fl es
     else (case r of Done (Some _) \<Rightarrow> False | _ \<Rightarrow> True))"
  unfolding runCommand_def
  by (auto simp: wp DriverVersion_def host_calls Let_def split: sum.splits outcome.splits option.splits prod.splits
      intro!: sat_mono [OF sat_awaitAndStart])

text \<open>
  The command after its flags, in every environment and after any number of attempts to get
  credentials: requests are served only after, in this order, the configuration was read and
  is valid, the credentials were there, the client has logged in, the zones were read, the
  organisation was found and every upgrade that was asked for is done, and the listener is
  open; and the command does not return without having served.
\<close>

theorem runCommand_spec:
  "sat (runCommand n fl) env h (\<lambda>r es. if list_ex serving es then started fl es
     else (case r of Done (Some _) \<Rightarrow> False | _ \<Rightarrow> True))"
  by (rule sat_runCommand)

section \<open>The command line\<close>

text \<open>The flags of the command: the name, the default, and whether cobra has it as required.\<close>

record flag_spec =
  fsName :: string
  fsDefault :: string
  fsRequired :: bool

definition commandFlags :: "flag_spec list" where
  "commandFlags =
     [\<lparr>fsName = ''nodeid'', fsDefault = [], fsRequired = False\<rparr>,
      \<lparr>fsName = ''upgrade-rde'', fsDefault = ''false'', fsRequired = False\<rparr>,
      \<lparr>fsName = ''endpoint'', fsDefault = [], fsRequired = True\<rparr>,
      \<lparr>fsName = ''cloud-config'', fsDefault = [], fsRequired = True\<rparr>]"

text \<open>A flag that is set twice has the value that was set last.\<close>

definition flagValue :: "(string \<times> string) list \<Rightarrow> string \<Rightarrow> string" where
  "flagValue assigned name = (case map_of (rev assigned) name of
     Some v \<Rightarrow> v
   | None \<Rightarrow> (case List.find (\<lambda>f. fsName f = name) commandFlags of Some f \<Rightarrow> fsDefault f | None \<Rightarrow> []))"

definition parsedFlags :: "(string \<times> string) list \<Rightarrow> flags" where
  "parsedFlags assigned = \<lparr>flEndpoint = flagValue assigned ''endpoint'', flNodeID = flagValue assigned ''nodeid'',
     flCloudConfig = flagValue assigned ''cloud-config'',
     flUpgradeRDE = (flagValue assigned ''upgrade-rde'' = ''true'')\<rparr>"

text \<open>cobra, command.go: the required flags that were not set; any of them is an error.\<close>

definition ValidateRequiredFlags :: "(string \<times> string) list \<Rightarrow> string list" where
  "ValidateRequiredFlags assigned =
     filter (\<lambda>name. name \<notin> set (map fst assigned)) (map fsName (filter fsRequired commandFlags))"

definition executeCommand :: "nat \<Rightarrow> unit option run" where
  "executeCommand n = attempt (call (\<lambda>env h. w_parse env h) EvParse)
     (\<lambda>e. panic ''error in executing command'') (\<lambda>parsed. case parsed of
       None \<Rightarrow> ret (Some ())
     | Some assigned \<Rightarrow>
         if ValidateRequiredFlags assigned \<noteq> [] then panic ''error in executing command''
         else runCommand n (parsedFlags assigned))"

definition main :: "nat \<Rightarrow> unit option run" where
  "main n = bind (on_vcd DriverVersion) (\<lambda>version.
     if version = [] then panic ''the Version should be set by flags during compilation''
     else executeCommand n)"

lemma required_flags: "ValidateRequiredFlags assigned = [] \<longleftrightarrow> {''endpoint'', ''cloud-config''} \<subseteq> set (map fst assigned)"
  by (auto simp: ValidateRequiredFlags_def commandFlags_def)

text \<open>What the command line gave, and the start that it led to.\<close>

definition launched :: "run_event list \<Rightarrow> bool" where
  "launched es \<longleftrightarrow> (\<exists>assigned es'. es = EvParse (Inr (Some assigned)) # es' \<and>
     {''endpoint'', ''cloud-config''} \<subseteq> set (map fst assigned) \<and> started (parsedFlags assigned) es')"

text \<open>
  C30: the program, in every environment and after any number of attempts to get credentials:
  requests are served only by a build that has a version, when the endpoint and the
  configuration file were given on the command line, and after, in this order, that
  configuration was read and is valid, the credentials were there, the client has logged in,
  the zones were read, the organisation was found and every upgrade that was asked for is
  done, and the listener is open; and the program does not return without having served,
  except after a help text.
\<close>

theorem main_spec:
  "sat (main n) env h (\<lambda>r es. if list_ex serving es then q_version (w_vcd env) \<noteq> [] \<and> launched es
     else (case r of Done (Some _) \<Rightarrow> es = [EvParse (Inr None)] | _ \<Rightarrow> True))"
  unfolding main_def executeCommand_def
  by (auto simp: wp DriverVersion_def required_flags launched_def split: sum.splits option.splits outcome.splits if_splits
      intro!: sat_mono [OF sat_runCommand])

section \<open>The set-up's own disk manager\<close>

lemma old_volume_panics:
  assumes "i \<noteq> []" and "Org dm = None" and "ZoneMap dm = None"
  shows "sat (pvDetails dm (i # ids)) env h (\<lambda>r es. \<exists>s. r = Panic s)"
proof -
  have lookup: "sat (GetDiskByNameOrId dm i None v) env h (\<lambda>r es. \<exists>s. r = Panic s)" for v
    using assms(1,2) by (simp add: GetDiskByNameOrId_def searchClusterVDC_def GetVDCByNameOrId_def wp)
  then show ?thesis
    using assms(3) by (auto simp: wp intro!: sat_mono [OF lookup])
qed

text \<open>
  C33: the disk manager that the command passes to the set-up has no organisation: whenever a
  CAPVCD cluster still has an old list with a volume in it, the upgrade panics in the lookup of
  that volume.
\<close>

theorem Setup_upgrade_panics:
  assumes "serves env (setupManager client cluster) g ent tag"
    and "IsCAPVCDEntityType cluster" and "IsValidEntityId cluster"
    and "fmlookup (rdeEntity ent) ''status'' = Some (VMap sm)"
    and "GetOldPVsFromRDE sm cluster = Inr (i # ids)" and "i \<noteq> []"
  shows "\<exists>s. fst (Setup d (setupManager client cluster) vapp node True isZone zm env h) = Panic s"
proof -
  let ?dm = "setupManager client cluster"
  have dm: "Org ?dm = None" "ZoneMap ?dm = None" "ClusterID ?dm = cluster" "VCDClient ?dm = client"
    by (simp_all add: setupManager_def)
  note answers = servesD [OF assms(1), unfolded dm]
  have upgrade: "sat (UpgradeRDEPersistentVolumes ?dm) env h (\<lambda>r es. \<exists>s. r = Panic s)" for h
    using assms(4,5)
    by (auto simp: UpgradeRDEPersistentVolumes_def retry_unfold upgradeRound_def upgradeOldPvs_def wp vcd_calls
        Let_def answers dm simp del: pvDetails.simps
        intro!: sat_mono [OF old_volume_panics [OF assms(6) dm(1,2)]])
  have "sat (Setup d ?dm vapp node True isZone zm) env h (\<lambda>r es. \<exists>s. r = Panic s)"
    using assms(2,3)
    by (auto simp: Setup_def upgradeEntity_def sat_recorded wp Let_def dm answers
        intro!: sat_mono [OF upgrade])
  then show ?thesis by (simp add: sat_iff)
qed

definition capvcd0 :: defined_entity where
  "capvcd0 = \<lparr>rdeId = ''urn:vcloud:entity:vmware:capvcdCluster:1'', rdeEntityType = ''capvcd'', rdeName = ''c1'',
     rdeEntity = fmap_of_list [(''status'', VMap (fmap_of_list
       [(OldPersistentVolumeKey, VSlice [VStr ''urn:vcloud:disk:1''])]))]\<rparr>"

theorem Setup_upgrade_panics_witness:
  "\<exists>s. fst (Setup (fst (NewDriver ''1.6'' [] [])) (setupManager (VCDClient dm0)
       ''urn:vcloud:entity:vmware:capvcdCluster:1'') ''vapp'' ''node1'' True False None (rde_env capvcd0) []) = Panic s"
proof (rule Setup_upgrade_panics [OF serves_rde_env])
  show "IsCAPVCDEntityType ''urn:vcloud:entity:vmware:capvcdCluster:1''"
    "IsValidEntityId ''urn:vcloud:entity:vmware:capvcdCluster:1''" by code_simp+
  show "fmlookup (rdeEntity capvcd0) ''status'' = Some (VMap (fmap_of_list
       [(OldPersistentVolumeKey, VSlice [VStr ''urn:vcloud:disk:1''])]))"
    by (simp add: capvcd0_def fmap_of_list.rep_eq)
  show "GetOldPVsFromRDE (fmap_of_list [(OldPersistentVolumeKey, VSlice [VStr ''urn:vcloud:disk:1''])])
      ''urn:vcloud:entity:vmware:capvcdCluster:1'' = Inr [''urn:vcloud:disk:1'']"
    by (simp add: GetOldPVsFromRDE_def fmap_of_list.rep_eq)
qed simp

end
