(* ===== verification/CloudTable.thy ===== *)
theory CloudTable
  imports ControllerSpec
begin

text \<open>
  The disks of the cloud as a table, for the calls of the controller what MountTable is for
  those of the node: the entries, what each accepted request does to them, and when an answer
  of the server is true of them. The server stays a parameter: nothing is assumed of its other
  answers, and any request may fail.
\<close>

section \<open>The table\<close>

text \<open>A disk with its data center and the machines that have it, by their HREF.\<close>

record entry =
  inCenter :: string
  onServer :: disk
  machines :: "string list"

type_synonym cloud = "entry list"

text \<open>
  What is fixed of a server: the disks at the start, the name of the data center that an
  identifier stands for, the data center that a link for new disks belongs to, the machine of
  a node, and the name of a storage profile.
\<close>

record server =
  atStart :: cloud
  centerOf :: "string \<Rightarrow> string"
  placeOf :: "link \<Rightarrow> string"
  machineOf :: "string \<Rightarrow> string"
  profileOf :: "string \<Rightarrow> string"

abbreviation entry_name :: "entry \<Rightarrow> string" where
  "entry_name e \<equiv> dName (onServer e)"

definition named_in :: "string \<Rightarrow> cloud \<Rightarrow> bool" where
  "named_in name c \<longleftrightarrow> list_ex (\<lambda>e. entry_name e = name) c"

definition without :: "string \<Rightarrow> cloud \<Rightarrow> cloud" where
  "without name = filter (\<lambda>e. entry_name e \<noteq> name)"

definition change :: "string \<Rightarrow> (entry \<Rightarrow> entry) \<Rightarrow> cloud \<Rightarrow> cloud" where
  "change name f = map (\<lambda>e. if entry_name e = name then f e else e)"

definition removal_link :: "disk \<Rightarrow> string option" where
  "removal_link d = map_option lHREF (List.find (\<lambda>l. lRel l = RelRemove) (dLink d))"

definition edit_link :: "disk \<Rightarrow> link option" where
  "edit_link d = List.find (\<lambda>l. lRel l = RelEdit \<and> lType l = MimeDisk) (dLink d)"

definition setting_of :: "disk_setting list \<Rightarrow> disk \<Rightarrow> disk_setting option" where
  "setting_of ss d = List.find (\<lambda>x. case sDisk x of None \<Rightarrow> False | Some r \<Rightarrow> rID r = dId d) ss"

section \<open>What a request does\<close>

text \<open>An accepted request does what it says, to the disk that its link or HREF belongs to.\<close>

fun cloud_step :: "server \<Rightarrow> cloud \<Rightarrow> vcd_event \<Rightarrow> cloud" where
  "cloud_step s c (EvPostDisk l p (Inr d)) = \<lparr>inCenter = placeOf s l, onServer = d, machines = []\<rparr> # c"
| "cloud_step s c (EvDeleteDisk href (Inr t)) = filter (\<lambda>e. removal_link (onServer e) \<noteq> Some href) c"
| "cloud_step s c (EvAttach vm href (Inr t)) = map (\<lambda>e. if dHREF (onServer e) = href
     then e\<lparr>machines := mHREF vm # machines e\<rparr> else e) c"
| "cloud_step s c (EvDetach vm href (Inr t)) = map (\<lambda>e. if dHREF (onServer e) = href
     then e\<lparr>machines := filter (\<lambda>m. m \<noteq> mHREF vm) (machines e)\<rparr> else e) c"
| "cloud_step s c (EvPutDisk l u (Inr t)) = map (\<lambda>e. if edit_link (onServer e) = Some l
     then e\<lparr>onServer := (onServer e)\<lparr>dName := uName u, dDescription := uDescription u,
       dSizeMb := uSizeMb u, dOwner := uOwner u\<rparr>\<rparr> else e) c"
| "cloud_step s c (EvUpdateDisks vm ss (Inr x)) = map (\<lambda>e. case setting_of ss (onServer e) of
       None \<Rightarrow> e
     | Some y \<Rightarrow> e\<lparr>onServer := (onServer e)\<lparr>dSizeMb := sSizeMb y\<rparr>\<rparr>) c"
| "cloud_step s c _ = c"

definition cloud :: "server \<Rightarrow> vcd_event list \<Rightarrow> cloud" where
  "cloud s h = foldl (cloud_step s) (atStart s) h"

lemma cloud_simps [simp]:
  "cloud s [] = atStart s" "cloud s (h @ [e]) = cloud_step s (cloud s h) e"
  by (simp_all add: cloud_def)

lemma cloud_step_quiet: "\<not> is_storage_write e \<Longrightarrow> cloud_step s c e = c"
  by (cases e) simp_all

lemma cloud_more: "cloud s (h @ es) = foldl (cloud_step s) (cloud s h) es"
  by (simp add: cloud_def)

lemma steps_quiet: "list_all (\<lambda>e. \<not> is_storage_write e) es \<Longrightarrow> foldl (cloud_step s) c es = c"
  by (induction es) (simp_all add: cloud_step_quiet)

lemma steps_queries: "list_all is_query es \<Longrightarrow> foldl (cloud_step s) c es = c"
  by (rule steps_quiet) (auto simp: list_all_iff)

lemma cloud_quiet: "list_all (\<lambda>e. \<not> is_storage_write e) es \<Longrightarrow> cloud s (h @ es) = cloud s h"
  by (simp add: cloud_more steps_quiet)

section \<open>When an answer is true\<close>

text \<open>
  Two disks are told apart by their HREF, and by the links that requests about them go to.
\<close>

definition apart :: "disk \<Rightarrow> disk \<Rightarrow> bool" where
  "apart d d' \<longleftrightarrow> dHREF d \<noteq> dHREF d' \<and> dId d \<noteq> dId d' \<and>
     (removal_link d = None \<or> removal_link d \<noteq> removal_link d') \<and>
     (edit_link d = None \<or> edit_link d \<noteq> edit_link d')"

text \<open>A disk as it is read: its status, its UUID and its tasks come from the server at each read.\<close>

definition same_disk :: "disk \<Rightarrow> disk \<Rightarrow> bool" where
  "same_disk d d' \<longleftrightarrow> dHREF d = dHREF d' \<and> dId d = dId d' \<and> dName d = dName d' \<and>
     dSizeMb d = dSizeMb d' \<and> dBusType d = dBusType d' \<and> dBusSubType d = dBusSubType d' \<and>
     dShareable d = dShareable d' \<and> dDescription d = dDescription d' \<and> dOwner d = dOwner d' \<and>
     dLink d = dLink d' \<and> map_option rName (dStorageProfile d) = map_option rName (dStorageProfile d')"

text \<open>A new disk is as it was asked for; the storage profile is the one that the reference names.\<close>

definition made :: "server \<Rightarrow> disk_create_params \<Rightarrow> disk \<Rightarrow> bool" where
  "made s p d \<longleftrightarrow> dName d = dName (pDisk p) \<and> dSizeMb d = dSizeMb (pDisk p) \<and>
     dBusType d = dBusType (pDisk p) \<and> dBusSubType d = dBusSubType (pDisk p) \<and>
     dShareable d = dShareable (pDisk p) \<and>
     (case dStorageProfile (pDisk p) of None \<Rightarrow> True
      | Some r \<Rightarrow> map_option rName (dStorageProfile d) = Some (profileOf s (rHREF r)))"

definition disk_list :: "vdc \<Rightarrow> (string \<times> string) list" where
  "disk_list v = map (\<lambda>x. (eName x, eHREF x))
     (filter (\<lambda>x. eType x = MimeDisk) (concat (vResourceEntities v)))"

definition creates_in :: "server \<Rightarrow> vdc \<Rightarrow> string \<Rightarrow> bool" where
  "creates_in s v n \<longleftrightarrow> list_all (\<lambda>l. placeOf s l = n) (vLink v)"

definition lists :: "server \<Rightarrow> cloud \<Rightarrow> string \<Rightarrow> vdc \<Rightarrow> bool" where
  "lists s c n v \<longleftrightarrow> vName v = n \<and> creates_in s v n \<and>
     disk_list v = map (\<lambda>e. (entry_name e, dHREF (onServer e))) (filter (\<lambda>e. inCenter e = n) c)"

definition says_missing :: "goerr \<Rightarrow> bool" where
  "says_missing e \<longleftrightarrow> errors_Is_NotFound e \<or> contains (error_text e) ''MajorErrorCode:403''"

text \<open>The owner of a finished task that a new disk came with is that disk.\<close>

fun owns_task :: "task \<Rightarrow> task \<Rightarrow> vcd_event \<Rightarrow> bool" where
  "owns_task t t' (EvPostDisk l p (Inr d)) = (case dTasks d of
     Some (t0 # _) \<Rightarrow> t0 = t \<longrightarrow> (case tOwner t' of None \<Rightarrow> True | Some ow \<Rightarrow> rHREF ow = dHREF d)
   | _ \<Rightarrow> True)"
| "owns_task t t' _ = True"

text \<open>A new disk is told apart from every disk that was read before: no link is given out twice.\<close>

fun new_to :: "disk \<Rightarrow> vcd_event \<Rightarrow> bool" where
  "new_to d (EvGetDisk x (Inr d')) = apart d d'"
| "new_to d _ = True"

text \<open>
  The answers that are about the table: the lists of the data centers, the disks, their
  machines, a new disk, the machine of a node with the sizes of its disks, and a profile. An
  error is not about it, except one that says that the disk is missing.
\<close>

fun says :: "server \<Rightarrow> vcd_event list \<Rightarrow> cloud \<Rightarrow> vcd_event \<Rightarrow> bool" where
  "says s pre c (EvGetVDC i (Inr v)) = lists s c (centerOf s i) v"
| "says s pre c (EvRefreshVDC n (Inr v)) = lists s c n v"
| "says s pre c (EvGetDisk x (Inr d)) = list_ex (\<lambda>e. dHREF (onServer e) = x \<and> same_disk (onServer e) d) c"
| "says s pre c (EvGetDisk x (Inl er)) = (says_missing er \<longrightarrow> list_all (\<lambda>e. dHREF (onServer e) \<noteq> x) c)"
| "says s pre c (EvGetVms l (Inr vms)) = list_all (\<lambda>e. vms_link (onServer e) = Some l \<longrightarrow>
     set (machines e) = set (map rHREF vms)) c"
| "says s pre c (EvPostDisk l p (Inr d)) = (made s p d \<and> list_all (\<lambda>e. apart d (onServer e)) c \<and> list_all (new_to d) pre)"
| "says s pre c (EvWaitTask t (Inr t')) = list_all (owns_task t t') pre"
| "says s pre c (EvSearchVM n a z (Inr vm)) = (mHREF vm = machineOf s n \<and>
     (case mVmSpecSection vm of Some (Some ss) \<Rightarrow> list_all (\<lambda>e. case setting_of ss (onServer e) of
        None \<Rightarrow> True | Some x \<Rightarrow> sSizeMb x = dSizeMb (onServer e)) c | _ \<Rightarrow> True))"
| "says s pre c (EvFindProfile n name (Inr (ref, v))) = (profileOf s (rHREF ref) = name \<and> creates_in s v n)"
| "says s pre c _ = True"

definition cloud_truth :: "server \<Rightarrow> vcd_event list \<Rightarrow> vcd_event \<Rightarrow> bool" where
  "cloud_truth s pre e \<longleftrightarrow> says s pre (cloud s pre) e"

section \<open>The invariant\<close>

text \<open>Disks of different names, told apart by their links.\<close>

definition cloud_ok :: "cloud \<Rightarrow> bool" where
  "cloud_ok c \<longleftrightarrow> distinct (map entry_name c) \<and> sorted_wrt (\<lambda>e e'. apart (onServer e) (onServer e')) c"

lemma apart_sym: "apart d d' \<Longrightarrow> apart d' d"
  by (auto simp: apart_def)

lemma sorted_wrt_pairs:
  "sorted_wrt R c \<Longrightarrow> x \<in> set c \<Longrightarrow> y \<in> set c \<Longrightarrow> x = y \<or> R x y \<or> R y x"
  by (induction c) auto

lemma cloud_ok_apart:
  "cloud_ok c \<Longrightarrow> x \<in> set c \<Longrightarrow> y \<in> set c \<Longrightarrow> x = y \<or> apart (onServer x) (onServer y)"
  using sorted_wrt_pairs [of "\<lambda>e e'. apart (onServer e) (onServer e')" c x y] apart_sym
  by (auto simp: cloud_ok_def)

lemma cloud_ok_name:
  "cloud_ok c \<Longrightarrow> x \<in> set c \<Longrightarrow> y \<in> set c \<Longrightarrow> entry_name x = entry_name y \<Longrightarrow> x = y"
  by (auto simp: cloud_ok_def distinct_map inj_on_def)

lemma cloud_ok_href:
  "cloud_ok c \<Longrightarrow> x \<in> set c \<Longrightarrow> y \<in> set c \<Longrightarrow> dHREF (onServer x) = dHREF (onServer y) \<Longrightarrow> x = y"
  using cloud_ok_apart [of c x y] by (auto simp: apart_def)

lemma same_disk_links:
  assumes "same_disk d d'"
  shows "vms_link d' = vms_link d" "removal_link d' = removal_link d" "edit_link d' = edit_link d"
  using assms by (simp_all add: same_disk_def vms_link_def removal_link_def edit_link_def)

lemma named_inI: "e \<in> set c \<Longrightarrow> entry_name e = name \<Longrightarrow> named_in name c"
  by (auto simp: named_in_def list_ex_iff)

lemma not_named_in: "\<not> named_in name c \<longleftrightarrow> (\<forall>e\<in>set c. entry_name e \<noteq> name)"
  by (auto simp: named_in_def list_ex_iff)

lemma without_absent: "\<not> named_in name c \<Longrightarrow> without name c = c"
  by (auto simp: not_named_in without_def intro: filter_True)

lemma change_absent: "\<not> named_in name c \<Longrightarrow> change name f c = c"
  by (auto simp: not_named_in change_def intro: map_idI)

text \<open>In an orderly table, what is done by a link or an HREF is done by the name.\<close>

lemma step_by_name:
  assumes "cloud_ok c" and "e \<in> set c"
  shows "removal_link (onServer e) = Some x \<Longrightarrow>
      filter (\<lambda>e'. removal_link (onServer e') \<noteq> Some x) c = without (entry_name e) c"
    and "map (\<lambda>e'. if dHREF (onServer e') = dHREF (onServer e) then f e' else e') c = change (entry_name e) f c"
    and "edit_link (onServer e) = Some l \<Longrightarrow>
      map (\<lambda>e'. if edit_link (onServer e') = Some l then f e' else e') c = change (entry_name e) f c"
proof -
  have same: "entry_name e' = entry_name e \<longleftrightarrow> e' = e" if "e' \<in> set c" for e'
    using cloud_ok_name [OF assms(1) that assms(2)] by auto
  have apart: "e' = e \<or> apart (onServer e') (onServer e)" if "e' \<in> set c" for e'
    using cloud_ok_apart [OF assms(1) that assms(2)] .
  show "filter (\<lambda>e'. removal_link (onServer e') \<noteq> Some x) c = without (entry_name e) c"
    if "removal_link (onServer e) = Some x"
    unfolding without_def using apart same that by (intro filter_cong) (force simp: apart_def)+
  show "map (\<lambda>e'. if dHREF (onServer e') = dHREF (onServer e) then f e' else e') c = change (entry_name e) f c"
    unfolding change_def using apart same by (intro map_cong) (auto simp: apart_def)
  show "map (\<lambda>e'. if edit_link (onServer e') = Some l then f e' else e') c = change (entry_name e) f c"
    if "edit_link (onServer e) = Some l"
    unfolding change_def using apart same that by (intro map_cong) (force simp: apart_def)+
qed

lemma cloud_ok_without: "cloud_ok c \<Longrightarrow> cloud_ok (without name c)"
  by (auto simp: cloud_ok_def without_def distinct_map_filter intro: sorted_wrt_filter)

lemma cloud_ok_change:
  assumes "cloud_ok c" and "\<And>e. onServer (f e) = (onServer e)\<lparr>dSizeMb := g e\<rparr>"
  shows "cloud_ok (change name f c)"
proof -
  have "map entry_name (change name f c) = map entry_name c"
    using assms(2) by (simp add: change_def)
  moreover have "apart (d\<lparr>dSizeMb := x\<rparr>) d' = apart d d'" "apart d (d'\<lparr>dSizeMb := x\<rparr>) = apart d d'" for d d' x
    by (simp_all add: apart_def removal_link_def edit_link_def)
  then have "sorted_wrt (\<lambda>e e'. apart (onServer e) (onServer e')) (change name f c)"
    using assms by (simp add: change_def sorted_wrt_map cloud_ok_def) (auto elim!: sorted_wrt_mono_rel [rotated])
  ultimately show ?thesis using assms(1) by (simp add: cloud_ok_def)
qed

lemma cloud_ok_new:
  "cloud_ok c \<Longrightarrow> \<not> named_in (entry_name e) c \<Longrightarrow> list_all (\<lambda>e'. apart (onServer e) (onServer e')) c \<Longrightarrow>
   cloud_ok (e # c)"
  by (auto simp: cloud_ok_def not_named_in list_all_iff)

end
