(* ===== verification/CloudLookup.thy ===== *)
theory CloudLookup
  imports CloudTable
begin

text \<open>
  The lookup of a disk on a server that answers truly: a disk that is found is the one of that
  name in the table, and when the lookup says that there is none, the table has none. The
  operations rely on these laws (locale disk_directory), and the lookup has them for a cluster
  with one data center and for one with zones.
\<close>

section \<open>Answers to queries\<close>

lemma truth_in:
  assumes "guard_ok (cloud_truth s) h es" and "list_all (\<lambda>e. \<not> is_storage_write e) es" and "e \<in> set es"
  shows "\<exists>pre. says s pre (cloud s h) e"
proof -
  obtain xs ys where es: "es = xs @ e # ys" using assms(3) by (auto dest: split_list)
  then have "cloud_truth s (h @ xs) e" "cloud s (h @ xs) = cloud s h"
    using assms(1,2) by (simp_all add: cloud_quiet)
  then show ?thesis by (auto simp: cloud_truth_def)
qed

lemma queries_quiet: "list_all is_query es \<Longrightarrow> list_all (\<lambda>e. \<not> is_storage_write e) es"
  by (auto simp: list_all_iff)

lemma lists_refs:
  assumes "lists s c n v"
  shows "map eHREF (disk_refs name v) =
    map (\<lambda>e. dHREF (onServer e)) (filter (\<lambda>e. inCenter e = n \<and> entry_name e = name) c)"
proof -
  have "map eHREF (disk_refs name v) = map snd (filter (\<lambda>x. fst x = name) (disk_list v))"
    by (simp add: disk_refs_def named_def disk_list_def filter_map comp_def conj_commute)
  also have "\<dots> = map (\<lambda>e. dHREF (onServer e)) (filter (\<lambda>e. inCenter e = n \<and> entry_name e = name) c)"
    using assms by (simp add: lists_def filter_map comp_def conj_commute)
  finally show ?thesis .
qed

lemma lists_none: "lists s c n v \<Longrightarrow> disk_refs name v = [] \<Longrightarrow> e \<in> set c \<Longrightarrow> inCenter e = n \<Longrightarrow> entry_name e \<noteq> name"
  using lists_refs [of s c n v name] by (auto simp: filter_empty_conv)

lemma one_of_key: "distinct (map f c) \<Longrightarrow> length (filter (\<lambda>x. P x \<and> f x = a) c) \<le> Suc 0"
proof (induction c)
  case (Cons x c)
  have "filter (\<lambda>x. P x \<and> f x = a) c = []" if "f x = a"
    unfolding filter_empty_conv using that Cons.prems by (auto, metis image_eqI)
  then show ?case using Cons by simp
qed simp

lemma lists_at_most_one:
  assumes "lists s c n v" and "cloud_ok c"
  shows "length (disk_refs name v) \<le> Suc 0"
proof -
  have "length (filter (\<lambda>e. inCenter e = n \<and> entry_name e = name) c) = length (disk_refs name v)"
    using arg_cong [OF lists_refs [OF assms(1), of name], of length] by simp
  moreover have "length (filter (\<lambda>e. inCenter e = n \<and> entry_name e = name) c) \<le> Suc 0"
    using assms(2) by (intro one_of_key) (simp add: cloud_ok_def)
  ultimately show ?thesis by simp
qed

section \<open>A disk that is found\<close>

lemma found_entry:
  assumes "fetched_unique name qs d" and "list_all (\<lambda>e. \<not> is_storage_write e) qs"
    and "guard_ok (cloud_truth s) h qs" and "cloud_ok (cloud s h)"
  obtains e where "e \<in> set (cloud s h)" "entry_name e = name" "same_disk (onServer e) d"
proof -
  obtain pre f v x where qs: "qs = pre @ [EvGetDisk (eHREF x) (Inr d)]" "f \<in> set pre" "vdc_read f v"
      "disk_refs name v = [x]"
    using assms(1) by (auto simp: fetched_unique_def)
  have true: "\<exists>pre. says s pre (cloud s h) e" if "e \<in> set qs" for e
    using truth_in [OF assms(3,2) that] .
  have "\<exists>n. lists s (cloud s h) n v"
    using true [of f] qs(2,3) by (auto simp: qs(1) vdc_read_def)
  then obtain n where "lists s (cloud s h) n v" ..
  from arg_cong [OF lists_refs [OF this, of name], of set]
  have "eHREF x \<in> set (map (\<lambda>e. dHREF (onServer e)) (filter (\<lambda>e. inCenter e = n \<and> entry_name e = name) (cloud s h)))"
    by (auto simp: qs(4))
  then obtain e where e: "e \<in> set (cloud s h)" "entry_name e = name" "dHREF (onServer e) = eHREF x"
    by auto
  obtain e' where "e' \<in> set (cloud s h)" "dHREF (onServer e') = eHREF x" "same_disk (onServer e') d"
    using true [of "EvGetDisk (eHREF x) (Inr d)"] by (auto simp: qs(1) list_ex_iff)
  then have "e' = e" using cloud_ok_href [OF assms(4)] e by simp
  with e \<open>same_disk (onServer e') d\<close> show thesis using that by blast
qed

section \<open>The interface\<close>

text \<open>
  A directory finds a disk as every finder does, and when it says that there is no disk of a
  name, the data centers that it is about have none, provided that its requests went well
  enough (\<open>fine\<close>): over zones, the code takes every failure for an absence.
\<close>

definition plain_name :: "string \<Rightarrow> bool" where
  "plain_name name \<longleftrightarrow> name \<noteq> [] \<and> \<not> isUrn name \<and> \<not> IsUuid name"

locale disk_directory = disk_finder find_disk for find_disk :: "string \<Rightarrow> disk res vcd" +
  fixes s :: server and home :: "string list" and fine :: "vcd_event list \<Rightarrow> bool"
  assumes missing: "plain_name name \<Longrightarrow> sat (find_disk name) env h (\<lambda>r es. \<forall>e x.
      r = Done (Inl e) \<longrightarrow> errors_Is_NotFound e \<longrightarrow> guard_ok (cloud_truth s) h es \<longrightarrow> fine es \<longrightarrow>
      cloud_ok (cloud s h) \<longrightarrow> x \<in> set (cloud s h) \<longrightarrow> inCenter x \<in> set home \<longrightarrow> entry_name x \<noteq> name)"
begin

lemma absent_entry:
  assumes "find_disk name env h = (Done (Inl e), es)" and "errors_Is_NotFound e" and "plain_name name"
    and "guard_ok (cloud_truth s) h es" and "fine es" and "cloud_ok (cloud s h)"
    and "list_all (\<lambda>x. inCenter x \<in> set home) (cloud s h)"
  shows "\<not> named_in name (cloud s h)"
  using missing [OF assms(3), of env h] assms by (auto simp: sat_pair not_named_in list_all_iff)

end

section \<open>One data center\<close>

text \<open>A disk of the list could not be read, with an error that says that it is missing.\<close>

definition missed :: "resource_reference list \<Rightarrow> vcd_event list \<Rightarrow> bool" where
  "missed xs es \<longleftrightarrow> (\<exists>x er. x \<in> set xs \<and> EvGetDisk (eHREF x) (Inl er) \<in> set es \<and> says_missing er)"

lemma missed_intros:
  "says_missing er \<Longrightarrow> missed (x # xs) [EvGetDisk (eHREF x) (Inl er)]"
  "missed xs es \<Longrightarrow> missed (x # xs) (e # es)" "missed xs es \<Longrightarrow> missed xs (e # es)"
  by (auto simp: missed_def)

lemma missing_collect:
  "sat (collectDisksByName name xs acc) env h (\<lambda>r es. \<forall>e. r = Done (Inl e) \<longrightarrow> errors_Is_NotFound e \<longrightarrow>
     missed (named name xs) es)"
proof (induction xs arbitrary: acc h)
  case (Cons x xs)
  have "says_missing er" if "errors_Is_NotFound er \<or> contains (error_text er) ''MajorErrorCode:403''" for er
    using that by (simp add: says_missing_def)
  then show ?case
    using Cons.IH by (auto simp: wp split: sum.split intro!: missed_intros(1) sat_mono [OF Cons.IH]
        intro: missed_intros(2))
qed (simp add: wp)

lemma missing_byName:
  "sat (govcdGetDisksByName name v False) env h (\<lambda>r es. \<exists>res w. r = Done (res, w) \<and>
     (\<forall>e. res = Inl e \<longrightarrow> errors_Is_NotFound e \<longrightarrow> disk_refs name v = [] \<or> missed (disk_refs name v) es) \<and>
     (\<forall>ds. res = Inr ds \<longrightarrow> ds \<noteq> []))"
proof -
  have "sat (collectDisksByName name xs []) env h (\<lambda>r es. (\<exists>x. r = Done x) \<and>
      (\<forall>e. r = Done (Inl e) \<longrightarrow> errors_Is_NotFound e \<longrightarrow> missed (named name xs) es) \<and>
      (\<forall>ds. r = Done (Inr ds) \<longrightarrow> length ds = length (named name xs)))" for xs
    by (rule sat_mono [OF sat_conj [THEN iffD2, OF conjI [OF sat_collect missing_collect]]]) auto
  note collect = sat_mono [OF this]
  show ?thesis
    unfolding govcdGetDisksByName_def disk_refs_def
    by (auto simp: wp split: sum.splits list.splits intro!: collect)
qed

lemma missing_cluster:
  assumes "\<not> isUrn name" and "\<not> IsUuid name"
  shows "sat (searchClusterVDC dm name i) env h (\<lambda>r es. \<forall>e. r = Done (Inl e) \<longrightarrow> errors_Is_NotFound e \<longrightarrow>
     (\<exists>v. EvGetVDC i (Inr v) \<in> set es \<and> (disk_refs name v = [] \<or> missed (disk_refs name v) es)))"
  unfolding searchClusterVDC_def govcdGetDisksByNameOrId_def getEntityByNameOrIdSkipNonId_def disks_getter_def
  using assms
  by (auto simp: wp split: option.splits sum.splits list.splits outcome.splits
      intro!: sat_mono [OF missing_byName] intro: missed_intros(3))

section \<open>Zones\<close>

fun read_ok :: "vcd_event \<Rightarrow> bool" where
  "read_ok (EvGetVDC i (Inl e)) = False"
| "read_ok (EvRefreshVDC n (Inl e)) = False"
| "read_ok (EvGetDisk x (Inl e)) = False"
| "read_ok _ = True"

lemma read_collect:
  "sat (collectDisksByName name xs acc) env h (\<lambda>r es. \<forall>e. r = Done (Inl e) \<longrightarrow> \<not> list_all read_ok es)"
  by (induction xs arbitrary: acc h) (auto simp: wp split: sum.split intro: sat_mono)

lemma missing_refresh:
  "sat (govcdGetDisksByName name v True) env h (\<lambda>r es. \<exists>res w. r = Done (res, w) \<and>
     (list_all read_ok es \<longrightarrow> (\<forall>d. res \<noteq> Inr [d]) \<longrightarrow>
       (\<exists>v' es'. es = EvRefreshVDC (vName v) (Inr v') # es' \<and> length (disk_refs name v') \<noteq> Suc 0)))"
proof -
  have "sat (collectDisksByName name xs []) env h (\<lambda>r es. (\<exists>x. r = Done x) \<and>
      (\<forall>e. r = Done (Inl e) \<longrightarrow> \<not> list_all read_ok es) \<and>
      (\<forall>ds. r = Done (Inr ds) \<longrightarrow> length ds = length (named name xs)))" for xs h
    by (rule sat_mono [OF sat_conj [THEN iffD2, OF conjI [OF sat_collect read_collect]]]) auto
  note collect = sat_mono [OF this]
  show ?thesis
    unfolding govcdGetDisksByName_def disk_refs_def
    by (auto simp: wp vcd_calls length_Suc_conv split: sum.splits list.splits intro!: collect)
qed

text \<open>A data center of the zones was read, and does not have exactly one disk of the name.\<close>

definition searched :: "string \<Rightarrow> string \<Rightarrow> vcd_event list \<Rightarrow> bool" where
  "searched name i es \<longleftrightarrow> (\<exists>v v'. EvGetVDC i (Inr v) \<in> set es \<and> EvRefreshVDC (vName v) (Inr v') \<in> set es \<and>
     length (disk_refs name v') \<noteq> Suc 0)"

lemma searched_intros:
  "length (disk_refs name v') \<noteq> Suc 0 \<Longrightarrow> searched name i (EvGetVDC i (Inr v) # EvRefreshVDC (vName v) (Inr v') # es)"
  "searched name i es \<Longrightarrow> searched name i (e # es)" "searched name i es \<Longrightarrow> searched name i (es' @ es)"
  by (auto simp: searched_def)

lemma missing_zones:
  "sat (searchZones dm name zs) env h (\<lambda>r es. \<forall>e. r = Done (Inl e) \<longrightarrow> list_all read_ok es \<longrightarrow>
     (\<forall>z\<in>set zs. searched name (fst z) es))"
proof (induction zs arbitrary: h)
  case (Cons z zs)
  obtain o' zn where z: "z = (o', zn)" by (cases z)
  show ?case
    by (auto simp: z wp split: option.splits sum.splits list.splits outcome.splits
        intro!: sat_mono [OF missing_refresh] sat_mono [OF Cons.IH] intro: searched_intros)
qed (simp add: wp)

section \<open>The lookup is a directory\<close>

definition home_ids :: "disk_manager \<Rightarrow> string list" where
  "home_ids dm = (case zones_of (ZoneMap dm) of
     [] \<Rightarrow> [ClusterOVDCIdentifier (VCDClient dm)] | z # zs \<Rightarrow> map fst (z # zs))"

definition home_centers :: "server \<Rightarrow> disk_manager \<Rightarrow> string list" where
  "home_centers s dm = map (centerOf s) (home_ids dm)"

lemmas home_defs = home_centers_def home_ids_def

definition fine_reads :: "disk_manager \<Rightarrow> vcd_event list \<Rightarrow> bool" where
  "fine_reads dm es \<longleftrightarrow> zones_of (ZoneMap dm) = [] \<or> list_all read_ok es"

lemma fine_reads_simps [simp]:
  "fine_reads dm []" "fine_reads dm (es @ es') \<longleftrightarrow> fine_reads dm es \<and> fine_reads dm es'"
  "zones_of (ZoneMap dm) = [] \<Longrightarrow> fine_reads dm es" "read_ok e \<Longrightarrow> fine_reads dm (e # es) = fine_reads dm es"
  "fine_reads dm (e # e' # es) \<longleftrightarrow> fine_reads dm [e] \<and> fine_reads dm (e' # es)"
  by (auto simp: fine_reads_def)

text \<open>
  What the requests of a lookup show of the absence of a name: the list of the data center has
  no such disk, or none that could be read; over zones, each list has not exactly one.
\<close>

definition absence_shown :: "disk_manager \<Rightarrow> string \<Rightarrow> vcd_event list \<Rightarrow> bool" where
  "absence_shown dm name es \<longleftrightarrow> (case zones_of (ZoneMap dm) of
     [] \<Rightarrow> \<exists>v. EvGetVDC (ClusterOVDCIdentifier (VCDClient dm)) (Inr v) \<in> set es \<and>
         (disk_refs name v = [] \<or> missed (disk_refs name v) es)
   | z # zs \<Rightarrow> list_all read_ok es \<longrightarrow> (\<forall>z\<in>set (z # zs). searched name (fst z) es))"

lemma lookup_shows_absence:
  assumes "plain_name name"
  shows "sat (GetDiskByNameOrId dm name (ZoneMap dm) (ClusterOVDCIdentifier (VCDClient dm))) env h (\<lambda>r es. \<forall>e.
      r = Done (Inl e) \<longrightarrow> errors_Is_NotFound e \<longrightarrow> absence_shown dm name es)"
proof (cases "zones_of (ZoneMap dm)")
  case Nil
  have plain: "name \<noteq> []" "\<not> isUrn name" "\<not> IsUuid name" using assms by (simp_all add: plain_name_def)
  show ?thesis
    unfolding GetDiskByNameOrId_def using Nil plain(1)
    by (auto simp: sat_if sat_ret sat_panic zones_of_def absence_shown_def split: option.splits
        intro!: sat_mono [OF missing_cluster [OF plain(2,3)]])
next
  case (Cons z zs)
  then have "zones_of (ZoneMap dm) \<noteq> []" by simp
  moreover from Cons obtain zm where "ZoneMap dm = Some zm" by (cases "ZoneMap dm") (auto simp: zones_of_def)
  ultimately have "sat (GetDiskByNameOrId dm name (ZoneMap dm) (ClusterOVDCIdentifier (VCDClient dm))) env h (\<lambda>r es. \<forall>e.
      r = Done (Inl e) \<longrightarrow> list_all read_ok es \<longrightarrow> (\<forall>z\<in>set (zones_of (ZoneMap dm)). searched name (fst z) es))"
    unfolding GetDiskByNameOrId_def using assms
    by (auto simp: sat_if sat_ret sat_bind range_over_def sat_pick plain_name_def
        intro!: sat_mono [OF missing_zones]) (metis fst_conv)
  then show ?thesis by (rule sat_mono) (simp add: absence_shown_def Cons)
qed

text \<open>The part of an answer that is about the names and the identities of the disks.\<close>

fun tells :: "server \<Rightarrow> cloud \<Rightarrow> vcd_event \<Rightarrow> bool" where
  "tells s c (EvGetVDC i (Inr v)) = lists s c (centerOf s i) v"
| "tells s c (EvRefreshVDC n (Inr v)) = lists s c n v"
| "tells s c (EvGetDisk x (Inl er)) = (says_missing er \<longrightarrow> list_all (\<lambda>e. dHREF (onServer e) \<noteq> x) c)"
| "tells s c _ = True"

lemma says_tells: "says s pre c e \<Longrightarrow> tells s c e"
proof (cases e)
  case (EvGetVDC i r)
  then show "says s pre c e \<Longrightarrow> tells s c e" by (cases r) simp_all
next
  case (EvRefreshVDC n r)
  then show "says s pre c e \<Longrightarrow> tells s c e" by (cases r) simp_all
next
  case (EvGetDisk x r)
  then show "says s pre c e \<Longrightarrow> tells s c e" by (cases r) simp_all
qed simp_all

text \<open>What is shown by answers that are true is so.\<close>

lemma shown_absent:
  assumes "absence_shown dm name es" and "\<And>e. e \<in> set es \<Longrightarrow> tells s c e" and "fine_reads dm es"
    and "cloud_ok c" and "x \<in> set c" and "inCenter x \<in> set (home_centers s dm)"
  shows "entry_name x \<noteq> name"
proof (cases "zones_of (ZoneMap dm)")
  case Nil
  then obtain v where v: "EvGetVDC (ClusterOVDCIdentifier (VCDClient dm)) (Inr v) \<in> set es"
      "disk_refs name v = [] \<or> missed (disk_refs name v) es"
    using assms(1) by (auto simp: absence_shown_def)
  let ?n = "centerOf s (ClusterOVDCIdentifier (VCDClient dm))"
  have lists: "lists s c ?n v" using assms(2) [OF v(1)] by simp
  have "\<not> missed (disk_refs name v) es"
  proof
    assume "missed (disk_refs name v) es"
    then obtain y er where y: "y \<in> set (disk_refs name v)" "EvGetDisk (eHREF y) (Inl er) \<in> set es" "says_missing er"
      by (auto simp: missed_def)
    then have "eHREF y \<in> set (map (\<lambda>e. dHREF (onServer e)) c)"
      using arg_cong [OF lists_refs [OF lists, of name], of set] by auto
    then show False using assms(2) [OF y(2)] y(3) by (auto simp: list_all_iff)
  qed
  then show ?thesis
    using lists_none [OF lists _ assms(5)] v(2) assms(6) by (auto simp: home_defs Nil)
next
  case (Cons z zs)
  then obtain o' where o': "inCenter x = centerOf s o'" "searched name o' es"
    using assms(1,3,6) by (auto simp: absence_shown_def home_defs fine_reads_def)
  then obtain v v' where v: "EvGetVDC o' (Inr v) \<in> set es" "EvRefreshVDC (vName v) (Inr v') \<in> set es"
      "length (disk_refs name v') \<noteq> Suc 0"
    by (auto simp: searched_def)
  have "vName v = centerOf s o'" using assms(2) [OF v(1)] by (simp add: lists_def)
  then have lists: "lists s c (centerOf s o') v'" using assms(2) [OF v(2)] by simp
  have "disk_refs name v' = []" using lists_at_most_one [OF lists assms(4), of name] v(3) by (cases "disk_refs name v'") auto
  then show ?thesis using lists_none [OF lists _ assms(5) o'(1)] by simp
qed

interpretation directory: disk_directory
  "\<lambda>name. GetDiskByNameOrId dm name (ZoneMap dm) (ClusterOVDCIdentifier (VCDClient dm))"
  s "home_centers s dm" "fine_reads dm" for dm s
proof
  fix name env h
  let ?find = "GetDiskByNameOrId dm name (ZoneMap dm) (ClusterOVDCIdentifier (VCDClient dm))"
  assume name: "plain_name name"
  have "sat ?find env h (\<lambda>r es. list_all is_query es)"
    using emits_GetDiskByNameOrId by (simp add: emits_sat)
  from sat_conj [THEN iffD2, OF conjI [OF this lookup_shows_absence [OF name]]]
  show "sat ?find env h (\<lambda>r es. \<forall>e x.
      r = Done (Inl e) \<longrightarrow> errors_Is_NotFound e \<longrightarrow> guard_ok (cloud_truth s) h es \<longrightarrow> fine_reads dm es \<longrightarrow>
      cloud_ok (cloud s h) \<longrightarrow> x \<in> set (cloud s h) \<longrightarrow> inCenter x \<in> set (home_centers s dm) \<longrightarrow> entry_name x \<noteq> name)"
  proof (rule sat_mono, intro allI impI, goal_cases)
    case (1 r es e x)
    have "list_all (\<lambda>e. \<not> is_storage_write e) es" using 1(1) queries_quiet by blast
    from truth_in [OF 1(5) this] have "tells s (cloud s h) e" if "e \<in> set es" for e
      using says_tells that by blast
    then show ?case using shown_absent [of dm name es s "cloud s h" x] 1 by blast
  qed
qed

end
