(* ===== verification/CloudOps.thy ===== *)
theory CloudOps
  imports CloudLookup
begin

text \<open>
  The operations of the disk manager on the table of disks: what each does to it, in one step
  of an abstract machine, on a server that answers truly.
\<close>

section \<open>The abstract operations\<close>

definition entry_named :: "string \<Rightarrow> cloud \<Rightarrow> entry option" where
  "entry_named name c = List.find (\<lambda>e. entry_name e = name) c"

definition abs_delete :: "string \<Rightarrow> cloud \<Rightarrow> cloud option" where
  "abs_delete name c = (case entry_named name c of
     None \<Rightarrow> Some c
   | Some e \<Rightarrow> if machines e = [] then Some (without name c) else None)"

definition abs_attach :: "string \<Rightarrow> string \<Rightarrow> cloud \<Rightarrow> cloud option" where
  "abs_attach name m c = (case entry_named name c of
     None \<Rightarrow> None
   | Some e \<Rightarrow> if m \<in> set (machines e) then Some c
       else if machines e = [] \<or> dShareable (onServer e)
       then Some (change name (\<lambda>e. e\<lparr>machines := m # machines e\<rparr>) c) else None)"

definition abs_detach :: "string \<Rightarrow> string \<Rightarrow> cloud \<Rightarrow> cloud option" where
  "abs_detach name m c = Some (change name (\<lambda>e. e\<lparr>machines := filter (\<lambda>x. x \<noteq> m) (machines e)\<rparr>) c)"

text \<open>
  An operation that answers success has done its step; one that fails has done it or nothing,
  because a request can be accepted and its task, or what comes after it, fail.
\<close>

definition tries :: "('s \<Rightarrow> 's option) \<Rightarrow> 's \<Rightarrow> 'a res outcome \<Rightarrow> 's \<Rightarrow> bool" where
  "tries f c r c' \<longleftrightarrow> (case r of Done (Inr _) \<Rightarrow> f c = Some c' | _ \<Rightarrow> c' = c \<or> f c = Some c')"

lemma tries_simps [simp]:
  "tries f c (Done (Inr x)) c' \<longleftrightarrow> f c = Some c'"
  "tries f c (Done (Inl e)) c' \<longleftrightarrow> c' = c \<or> f c = Some c'"
  "tries f c (Panic p) c' \<longleftrightarrow> c' = c \<or> f c = Some c'"
  by (simp_all add: tries_def)

text \<open>The table of a cluster: in order, with every disk in one of the cluster's data centers.\<close>

definition tidy :: "server \<Rightarrow> disk_manager \<Rightarrow> cloud \<Rightarrow> bool" where
  "tidy s dm c \<longleftrightarrow> cloud_ok c \<and> list_all (\<lambda>e. inCenter e \<in> set (home_centers s dm)) c"

lemma entry_named_iff:
  assumes "cloud_ok c"
  shows "entry_named name c = Some e \<longleftrightarrow> e \<in> set c \<and> entry_name e = name"
    and "entry_named name c = None \<longleftrightarrow> \<not> named_in name c"
proof -
  show "entry_named name c = None \<longleftrightarrow> \<not> named_in name c"
    by (auto simp: entry_named_def not_named_in find_None_iff)
  show "entry_named name c = Some e \<longleftrightarrow> e \<in> set c \<and> entry_name e = name"
  proof
    assume e: "e \<in> set c \<and> entry_name e = name"
    then obtain e' where e': "entry_named name c = Some e'"
      by (cases "entry_named name c") (auto simp: entry_named_def find_None_iff)
    then have "e' \<in> set c \<and> entry_name e' = name"
      unfolding entry_named_def by (rule find_Some_split)
    then show "entry_named name c = Some e"
      using cloud_ok_name [OF assms] e e' by metis
  qed (auto simp: entry_named_def dest!: find_Some_split)
qed

lemma steps_no_write: "list_all no_write es \<Longrightarrow> foldl (cloud_step s) c es = c"
  by (rule steps_quiet) (simp add: list_all_iff)

text \<open>What the driver is told about the machines of a disk.\<close>

lemma told_machines:
  assumes "cloud_truth s pre (EvGetVms l (Inr vms))" and "e \<in> set (cloud s pre)" and "vms_link (onServer e) = Some l"
  shows "set (machines e) = set (map rHREF vms)" and "vms = [] \<longleftrightarrow> machines e = []"
proof -
  show set: "set (machines e) = set (map rHREF vms)"
    using assms by (simp add: cloud_truth_def list_all_iff)
  show "vms = [] \<longleftrightarrow> machines e = []" using arg_cong [OF set, of "\<lambda>x. x = {}"] by auto
qed

section \<open>Attach\<close>

lemma AttachVolume_cloud:
  assumes "cloud_ok (cloud s h)" and "e \<in> set (cloud s h)" and "same_disk (onServer e) d"
  shows "sat (AttachVolume dm vm (Some d)) env h (\<lambda>r es. guard_ok (cloud_truth s) h es \<longrightarrow>
     tries (abs_attach (entry_name e) (mHREF vm)) (cloud s h) r (cloud s (h @ es)))"
proof -
  have d: "vms_link (onServer e) = vms_link d" "dHREF d = dHREF (onServer e)" "dShareable d = dShareable (onServer e)"
    using same_disk_links [OF assms(3)] assms(3) by (simp_all add: same_disk_def)
  have e: "entry_named (entry_name e) (cloud s h) = Some e"
    using entry_named_iff(1) [OF assms(1)] assms(2) by simp
  note by_name = step_by_name(2) [OF assms(1,2), where f = "\<lambda>x. x\<lparr>machines := mHREF vm # machines x\<rparr>"]
  show ?thesis
  proof (rule sat_mono [OF AttachVolume_story], erule disjE, goal_cases)
    case (1 r es)
    then obtain l vms a bs where es: "es = EvLock # EvGetVms l (Inr vms) # EvAttach vm (dHREF d) a # bs @ [EvUnlock]"
        and l: "vms_link d = Some l" and allowed: "mHREF vm \<notin> set (map rHREF vms)" "vms = [] \<or> dShareable d"
        and bs: "list_all no_write bs" and r: "\<forall>x. r = Done (Inr x) \<longrightarrow> (\<exists>t. a = Inr t)"
      by (elim exE conjE) (rule that, assumption+, auto)
    show ?case
    proof
      assume "guard_ok (cloud_truth s) h es"
      then have vms: "set (machines e) = set (map rHREF vms)" "vms = [] \<longleftrightarrow> machines e = []"
        using told_machines [of s "h @ [EvLock]" l vms e] assms(2) l d(1) by (simp_all add: es)
      show "tries (abs_attach (entry_name e) (mHREF vm)) (cloud s h) r (cloud s (h @ es))"
        using allowed r unfolding vms(1) [symmetric] vms(2)
        by (cases a) (auto simp: tries_def es cloud_more d(2,3) by_name steps_no_write [OF bs] abs_attach_def e
          split: outcome.splits sum.splits)
    qed
  next
    case (2 r es)
    then obtain qs where es: "es = EvLock # qs @ [EvUnlock]" and qs: "list_all is_query qs"
        and r: "\<forall>x. r = Done (Inr x) \<longrightarrow> (\<exists>l vms. qs = [EvGetVms l (Inr vms)] \<and> vms_link d = Some l \<and>
          mHREF vm \<in> set (map rHREF vms))"
      by (elim exE conjE) (rule that, assumption+, auto)
    show ?case
    proof
      assume guard: "guard_ok (cloud_truth s) h es"
      have "mHREF vm \<in> set (machines e)" if "qs = [EvGetVms l (Inr vms)]" "vms_link d = Some l" "mHREF vm \<in> set (map rHREF vms)"
        for l vms using told_machines(1) [of s "h @ [EvLock]" l vms e] guard that assms(2) d(1) by (simp add: es)
      then show "tries (abs_attach (entry_name e) (mHREF vm)) (cloud s h) r (cloud s (h @ es))"
        using r by (auto simp: tries_def es cloud_more steps_queries [OF qs] abs_attach_def e
          split: outcome.splits sum.splits)
    qed
  qed
qed

lemma change_same:
  assumes "cloud_ok c" and "e \<in> set c" and "f e = e"
  shows "change (entry_name e) f c = c"
  unfolding change_def using cloud_ok_name [OF assms(1) _ assms(2)] assms(3)
  by (intro map_idI) auto

section \<open>Delete and detach\<close>

text \<open>The entry of a disk that was looked up in a critical section, and the absence of one.\<close>

lemma entry_after_lock:
  assumes "fetched_unique name qs d" and "list_all (\<lambda>e. \<not> is_storage_write e) qs" and "cloud_ok (cloud s h)"
    and "guard_ok (cloud_truth s) h (EvLock # qs @ es)"
  obtains e where "e \<in> set (cloud s h)" "entry_name e = name" "same_disk (onServer e) d"
    "entry_named name (cloud s h) = Some e"
proof -
  have "guard_ok (cloud_truth s) (h @ [EvLock]) qs" "cloud_ok (cloud s (h @ [EvLock]))"
    using assms(3,4) by simp_all
  then obtain e where "e \<in> set (cloud s (h @ [EvLock]))" "entry_name e = name" "same_disk (onServer e) d"
    using found_entry [OF assms(1,2)] by metis
  then show thesis using that entry_named_iff(1) [OF assms(3)] by simp
qed

lemma absent_after_lock:
  assumes "GetDiskByNameOrId dm name (ZoneMap dm) (ClusterOVDCIdentifier (VCDClient dm)) env (h @ [EvLock]) =
      (Done (Inl e), qs)"
    and "errors_Is_NotFound e" and "plain_name name" and "tidy s dm (cloud s h)"
    and "guard_ok (cloud_truth s) h (EvLock # qs @ es)" and "fine_reads dm (EvLock # qs @ es)"
  shows "\<not> named_in name (cloud s h)"
  using directory.absent_entry [OF assms(1-3), of s] assms(4-6) by (auto simp: tidy_def fine_reads_def)

lemma DeleteDisk_cloud:
  assumes "plain_name name" and "tidy s dm (cloud s h)"
  shows "sat (DeleteDisk dm name (ZoneMap dm)) env h (\<lambda>r es. guard_ok (cloud_truth s) h es \<longrightarrow>
     fine_reads dm es \<longrightarrow> tries (abs_delete name) (cloud s h) r (cloud s (h @ es)))"
proof (rule sat_mono [OF DeleteDisk_story], erule disjE, goal_cases)
  case (1 r es)
  then obtain qs d l l' a bs where es: "es = EvLock # qs @ EvGetVms l (Inr []) # EvGetVms l (Inr []) #
        EvDeleteDisk (lHREF l') a # bs @ [EvUnlock]"
      and qs: "list_all is_query qs" "fetched_unique name qs d" and l: "vms_link d = Some l"
      and l': "List.find (\<lambda>l. lRel l = RelRemove) (dLink d) = Some l'" and bs: "list_all no_write bs"
      and r: "\<forall>x. r = Done (Inr x) \<longrightarrow> (\<exists>t. a = Inr t)"
    unfolding deleted_def by (elim exE conjE) (rule that, assumption+, auto)
  have ok: "cloud_ok (cloud s h)" using assms(2) by (simp add: tidy_def)
  show ?case
  proof (intro impI)
    assume guard: "guard_ok (cloud_truth s) h es"
    obtain e where e: "e \<in> set (cloud s h)" "entry_name e = name" "same_disk (onServer e) d"
        "entry_named name (cloud s h) = Some e"
      using entry_after_lock [OF qs(2) queries_quiet [OF qs(1)] ok guard [unfolded es]] .
    have "machines e = []"
      using told_machines(2) [of s "h @ EvLock # qs" l "[]" e] guard e(1) l same_disk_links(1) [OF e(3)]
      by (simp add: es cloud_more steps_queries [OF qs(1)])
    moreover have "removal_link (onServer e) = Some (lHREF l')"
      using same_disk_links(2) [OF e(3)] l' by (simp add: removal_link_def)
    note step_by_name(1) [OF ok e(1) this]
    ultimately show "tries (abs_delete name) (cloud s h) r (cloud s (h @ es))"
      using r by (cases a) (auto simp: tries_def es cloud_more steps_queries [OF qs(1)] steps_no_write [OF bs]
        abs_delete_def e(2,4) split: outcome.splits sum.splits)
  qed
next
  case (2 r es)
  then obtain qs where es: "es = EvLock # qs @ [EvUnlock]" and qs: "list_all is_query qs"
      and r: "\<forall>x. r = Done (Inr x) \<longrightarrow> (\<exists>e. errors_Is_NotFound e \<and> GetDiskByNameOrId dm name (ZoneMap dm)
        (ClusterOVDCIdentifier (VCDClient dm)) env (h @ [EvLock]) = (Done (Inl e), qs))"
    by (elim exE conjE) (rule that, assumption+, auto)
  have ok: "cloud_ok (cloud s h)" using assms(2) by (simp add: tidy_def)
  show ?case
    using r absent_after_lock [OF _ _ assms, of env _ qs "[EvUnlock]"]
    by (auto simp: tries_def es cloud_more steps_queries [OF qs] abs_delete_def
        entry_named_iff(2) [OF ok, THEN iffD2] split: outcome.splits sum.splits)
qed

text \<open>A detach that has nothing to do: the disk is gone, or the machine does not have it.\<close>

lemma detached_before:
  assumes "plain_name name" and "tidy s dm (cloud s h)" and "list_all is_query qs"
    and cases: "(\<exists>e. errors_Is_NotFound e \<and> GetDiskByNameOrId dm name (ZoneMap dm)
        (ClusterOVDCIdentifier (VCDClient dm)) env (h @ [EvLock]) = (Done (Inl e), qs)) \<or>
        (\<exists>d qs' l vms. qs = qs' @ [EvGetVms l (Inr vms)] \<and> fetched_unique name qs' d \<and>
          vms_link d = Some l \<and> m \<notin> set (map rHREF vms))"
    and guard: "guard_ok (cloud_truth s) h (EvLock # qs @ [EvUnlock])" and "fine_reads dm (EvLock # qs @ [EvUnlock])"
  shows "change name (\<lambda>e. e\<lparr>machines := filter (\<lambda>x. x \<noteq> m) (machines e)\<rparr>) (cloud s h) = cloud s h"
  using cases
proof (elim disjE exE conjE)
  fix e
  assume absent: "errors_Is_NotFound e" "GetDiskByNameOrId dm name (ZoneMap dm)
        (ClusterOVDCIdentifier (VCDClient dm)) env (h @ [EvLock]) = (Done (Inl e), qs)"
  from absent_after_lock [OF absent(2,1) assms(1,2), of "[EvUnlock]"] guard assms(6) show ?thesis
    by (simp add: change_absent)
next
  fix d qs' l vms
  assume other: "qs = qs' @ [EvGetVms l (Inr vms)]" "fetched_unique name qs' d" "vms_link d = Some l"
    "m \<notin> set (map rHREF vms)"
  have ok: "cloud_ok (cloud s h)" using assms(2) by (simp add: tidy_def)
  have qs': "list_all is_query qs'" using assms(3) other(1) by simp
  obtain e where e: "e \<in> set (cloud s h)" "entry_name e = name" "same_disk (onServer e) d"
    using entry_after_lock [OF other(2) queries_quiet [OF qs'] ok, of "[EvGetVms l (Inr vms), EvUnlock]"] guard
    by (auto simp: other(1))
  have "m \<notin> set (machines e)"
    using told_machines(1) [of s "h @ EvLock # qs'" l vms e] guard e(1) other(3,4) same_disk_links(1) [OF e(3)]
    by (simp add: other(1) cloud_more steps_queries [OF qs'])
  then have "filter (\<lambda>x. x \<noteq> m) (machines e) = machines e"
    by (auto intro: filter_True)
  then show ?thesis
    using change_same [OF ok e(1), of "\<lambda>e. e\<lparr>machines := filter (\<lambda>x. x \<noteq> m) (machines e)\<rparr>"] e(2) by simp
qed

lemma DetachVolume_cloud:
  assumes "plain_name name" and "tidy s dm (cloud s h)"
  shows "sat (DetachVolume dm vm name (ZoneMap dm)) env h (\<lambda>r es. guard_ok (cloud_truth s) h es \<longrightarrow>
     fine_reads dm es \<longrightarrow> tries (abs_detach name (mHREF vm)) (cloud s h) r (cloud s (h @ es)))"
proof (rule sat_mono [OF DetachVolume_story], erule disjE, goal_cases)
  case (1 r es)
  then obtain qs d l vms a bs where es: "es = EvLock # qs @ EvGetVms l (Inr vms) # EvDetach vm (dHREF d) a # bs @ [EvUnlock]"
      and qs: "list_all is_query qs" "fetched_unique name qs d" and bs: "list_all no_write bs"
      and r: "\<forall>x. r = Done (Inr x) \<longrightarrow> (\<exists>t. a = Inr t)"
    unfolding detached_def by (elim exE conjE) (rule that, assumption+, auto)
  have ok: "cloud_ok (cloud s h)" using assms(2) by (simp add: tidy_def)
  show ?case
  proof (intro impI)
    assume guard: "guard_ok (cloud_truth s) h es"
    obtain e where e: "e \<in> set (cloud s h)" "entry_name e = name" "same_disk (onServer e) d"
      using entry_after_lock [OF qs(2) queries_quiet [OF qs(1)] ok guard [unfolded es]] .
    then have "dHREF d = dHREF (onServer e)" by (simp add: same_disk_def)
    then show "tries (abs_detach name (mHREF vm)) (cloud s h) r (cloud s (h @ es))"
      using r step_by_name(2) [OF ok e(1)]
      by (cases a) (auto simp: tries_def es cloud_more steps_queries [OF qs(1)] steps_no_write [OF bs]
        abs_detach_def e(2) split: outcome.splits sum.splits)
  qed
next
  case (2 r es)
  then obtain qs where es: "es = EvLock # qs @ [EvUnlock]" and qs: "list_all is_query qs"
      and r: "\<forall>x. r = Done (Inr x) \<longrightarrow> (\<exists>e. errors_Is_NotFound e \<and> GetDiskByNameOrId dm name (ZoneMap dm)
        (ClusterOVDCIdentifier (VCDClient dm)) env (h @ [EvLock]) = (Done (Inl e), qs)) \<or>
        (\<exists>d qs' l vms. qs = qs' @ [EvGetVms l (Inr vms)] \<and> fetched_unique name qs' d \<and>
          vms_link d = Some l \<and> mHREF vm \<notin> set (map rHREF vms))"
    by (elim exE conjE) (rule that, assumption+, auto)
  have ok: "cloud_ok (cloud s h)" using assms(2) by (simp add: tidy_def)
  show ?case
  proof (intro impI)
    assume guard: "guard_ok (cloud_truth s) h es" and fine: "fine_reads dm es"
    have "change name (\<lambda>e. e\<lparr>machines := filter (\<lambda>x. x \<noteq> mHREF vm) (machines e)\<rparr>) (cloud s h) = cloud s h"
      if "r = Done (Inr x)" for x
      using r that detached_before [OF assms qs _ guard [unfolded es] fine [unfolded es]] by blast
    then show "tries (abs_detach name (mHREF vm)) (cloud s h) r (cloud s (h @ es))"
      by (auto simp: tries_def es cloud_more steps_queries [OF qs] abs_detach_def split: outcome.splits sum.splits)
  qed
qed

section \<open>Create\<close>

text \<open>A new disk is asked for in the data center that was passed in, with the profile that was named.\<close>

definition post_from :: "vdc \<Rightarrow> string \<Rightarrow> vcd_event list \<Rightarrow> vcd_event \<Rightarrow> bool" where
  "post_from v sp es e \<longleftrightarrow> (case e of EvPostDisk l p a \<Rightarrow>
     (sp = [] \<and> l \<in> set (vLink v) \<and> dStorageProfile (pDisk p) = None) \<or>
     (\<exists>ref v' r. EvFindProfile (vName v) sp (Inr (ref, v')) \<in> set es \<and> l \<in> set (vLink v') \<and>
        dStorageProfile (pDisk p) = Some r \<and> rHREF r = rHREF ref) | _ \<Rightarrow> True)"

lemma post_from_other: "\<not> is_storage_write e \<Longrightarrow> post_from v sp es e"
  by (cases e) (simp_all add: post_from_def)

lemma emits_posts:
  "emits (\<lambda>e. case e of EvPostDisk l q a \<Rightarrow> l \<in> set (vLink v) \<and> q = p | _ \<Rightarrow> True) (createAndRecord dm name p v)"
proof -
  have rde: "emits (\<lambda>e. case e of EvPostDisk l q a \<Rightarrow> l \<in> set (vLink v) \<and> q = p | _ \<Rightarrow> True) m"
    if "emits is_rde_event m" for m :: "'c vcd"
    using that by (rule emits_mono) (auto split: vcd_event.split)
  have post: "emits (\<lambda>e. case e of EvPostDisk l q a \<Rightarrow> l \<in> set (vLink v) \<and> q = p | _ \<Rightarrow> True) (createDisk dm p v)"
    unfolding createDisk_def
    by (auto intro!: trace_rules split: list.splits dest: find_Some_split)
  show ?thesis
    unfolding createAndRecord_def govcdGetDiskByHref_def
    by (auto intro!: trace_rules post rde [OF emits_addPvToRDE])
qed

lemma post_from_mono: "post_from v sp es e \<Longrightarrow> set es \<subseteq> set es' \<Longrightarrow> post_from v sp es' e"
  by (auto simp: post_from_def split: vcd_event.splits)

lemma posts_from_mono:
  assumes "guard_ok (post_from v sp) pre es" and "set pre \<subseteq> set pre'"
  shows "guard_ok (post_from v sp) pre' es"
  unfolding guard_ok_split
proof (intro allI impI)
  fix xs e ys
  assume "es = xs @ e # ys"
  then have "post_from v sp (pre @ xs) e" using assms(1) by (simp add: guard_ok_split)
  then show "post_from v sp (pre' @ xs) e" by (rule post_from_mono) (use assms(2) in auto)
qed

lemma posts_from:
  assumes "list_all (\<lambda>e. case e of EvPostDisk l q a \<Rightarrow> l \<in> set (vLink v') \<and> q = p | _ \<Rightarrow> True) es"
    and "(sp = [] \<and> v' = v \<and> dStorageProfile (pDisk p) = None) \<or>
      (\<exists>ref r. EvFindProfile (vName v) sp (Inr (ref, v')) \<in> set pre \<and>
        dStorageProfile (pDisk p) = Some r \<and> rHREF r = rHREF ref)"
  shows "guard_ok (post_from v sp) pre es"
  unfolding guard_ok_split
proof (intro allI impI)
  fix xs e ys
  assume "es = xs @ e # ys"
  then have "case e of EvPostDisk l q a \<Rightarrow> l \<in> set (vLink v') \<and> q = p | _ \<Rightarrow> True"
    using assms(1) by simp
  then have "post_from v sp pre e"
    using assms(2) by (cases e) (auto simp: post_from_def)
  then show "post_from v sp (pre @ xs) e" by (rule post_from_mono) simp
qed

lemma sat_createNewDisk_posts:
  "sat (createNewDisk dm name v sz bt bst desc sp sh) env h (\<lambda>r es. guard_ok (post_from v sp) [] es)"
proof (cases "sp = []")
  case True
  then show ?thesis
    by (auto simp: createNewDisk_def newDiskParams_def
        intro!: emits_rule [OF emits_posts] elim!: posts_from)
next
  case False
  have profile: "post_from v sp es' (EvFindProfile n x y)" for es' n x y
    by (simp add: post_from_other)
  show ?thesis
    using False by (auto simp: createNewDisk_def newDiskParams_def wp vcd_calls profile
        intro!: emits_rule [OF emits_posts] elim!: posts_from split: sum.split)
qed

lemma posts_from_quiet: "list_all (\<lambda>e. \<not> is_storage_write e) es \<Longrightarrow> guard_ok (post_from v sp) pre es"
  by (rule guard_ok_all) (auto simp: list_all_iff post_from_other)

lemma sat_CreateDisk_posts:
  "sat (CreateDisk dm name v sz bt bst desc sp sh zm) env h (\<lambda>r es. guard_ok (post_from v sp) [] es)"
proof -
  have quiet: "guard_ok (post_from v sp) pre es" if "list_all is_query es" for pre es
    using that by (intro posts_from_quiet) (auto simp: list_all_iff)
  have one: "post_from v sp pre e" if "no_write e" for e pre
    using that by (simp add: post_from_other)
  have sections: "post_from v sp pre EvLock" "post_from v sp pre EvUnlock" for pre
    by (simp_all add: post_from_other)
  show ?thesis
  proof (cases rule: lookup_cases [of dm name zm "ClusterOVDCIdentifier (VCDClient dm)" env "h @ [EvLock]"])
    case (panic s qs)
    then show ?thesis by (simp add: CreateDisk_def wp quiet sections)
  next
    case (error e qs)
    have more: "guard_ok (post_from v sp) pre es" if "guard_ok (post_from v sp) [] es" for pre es
      using posts_from_mono [OF that, of pre] by simp
    show ?thesis
    proof (cases "errors_Is_NotFound e")
      case True
      show ?thesis
        by (simp add: CreateDisk_def error(1) True wp)
          (rule sat_mono [OF sat_createNewDisk_posts], simp add: quiet [OF error(2)] sections one more)
    next
      case False
      show ?thesis
        by (simp add: CreateDisk_def error(1) False wp quiet [OF error(2)] sections one)
    qed
  next
    case (found d qs)
    show ?thesis
      by (simp add: CreateDisk_def found(1) wp)
        (rule sat_mono [OF sat_checkExistingDisk], simp add: quiet [OF found(2)] sections one)
  qed
qed

lemma posts_in_run:
  assumes "guard_ok (post_from v sp) [] es" and "e \<in> set es"
  shows "post_from v sp es e"
proof -
  obtain xs ys where es: "es = xs @ e # ys" using assms(2) by (auto dest: split_list)
  then have "post_from v sp xs e" using assms(1) by simp
  then show ?thesis by (rule post_from_mono) (auto simp: es)
qed

text \<open>The abstract operation: a new entry, for a name that has none.\<close>

definition abs_create :: "string \<Rightarrow> string \<Rightarrow> (disk \<Rightarrow> bool) \<Rightarrow> cloud \<Rightarrow> cloud \<Rightarrow> bool" where
  "abs_create name n P c c' \<longleftrightarrow> (\<exists>e. c' = e # c \<and> entry_name e = name \<and> inCenter e = n \<and> machines e = [] \<and>
     P (onServer e) \<and> \<not> named_in name c \<and> list_all (\<lambda>x. apart (onServer e) (onServer x)) c)"

lemma asked_for_profile:
  "asked_for d sz bt bst sp sh \<longleftrightarrow> dSizeMb d = sz \<and> dBusType d = bt \<and> dBusSubType d = bst \<and>
     (sp = [] \<or> map_option rName (dStorageProfile d) = Some sp) \<and> dShareable d = sh"
  by (auto simp: asked_for_def)

lemma asked_for_same: "same_disk d d' \<Longrightarrow> asked_for d sz bt bst sp sh = asked_for d' sz bt bst sp sh"
  by (auto simp: asked_for_profile same_disk_def)

lemma posted_place:
  assumes "post_from v sp es (EvPostDisk l p a)" and "guard_ok (cloud_truth s) h es" and "creates_in s v (vName v)"
  shows "placeOf s l = vName v" and "sp = [] \<or> dStorageProfile (pDisk p) = None \<or>
    (\<exists>r. dStorageProfile (pDisk p) = Some r \<and> profileOf s (rHREF r) = sp)"
proof -
  have "profileOf s (rHREF ref) = sp \<and> creates_in s v' (vName v)"
    if found: "EvFindProfile (vName v) sp (Inr (ref, v')) \<in> set es" for ref v'
  proof -
    obtain xs ys where "es = xs @ EvFindProfile (vName v) sp (Inr (ref, v')) # ys"
      using found by (auto dest: split_list)
    then show ?thesis using assms(2) by (simp add: cloud_truth_def)
  qed
  then show "placeOf s l = vName v" and "sp = [] \<or> dStorageProfile (pDisk p) = None \<or>
    (\<exists>r. dStorageProfile (pDisk p) = Some r \<and> profileOf s (rHREF r) = sp)"
    using assms(1,3) by (auto simp: post_from_def creates_in_def list_all_iff)
qed

text \<open>What a run of CreateDisk does to the table, and what a disk that it answers is.\<close>

definition creation_done :: "server \<Rightarrow> vcd_event list \<Rightarrow> string \<Rightarrow> string \<Rightarrow> (disk \<Rightarrow> bool) \<Rightarrow>
    disk res outcome \<Rightarrow> vcd_event list \<Rightarrow> bool" where
  "creation_done s h name n P r es \<longleftrightarrow>
     (cloud s (h @ es) = cloud s h \<or> abs_create name n P (cloud s h) (cloud s (h @ es))) \<and>
     (\<forall>d. r = Done (Inr d) \<longrightarrow> (\<exists>e. e \<in> set (cloud s (h @ es)) \<and> entry_name e = name \<and>
        same_disk (onServer e) d \<and> P (onServer e)))"

text \<open>The disk that is read after its task is the one that was posted.\<close>

lemma read_after_post:
  assumes "guard_ok (cloud_truth s) h (EvLock # qs @ as @ EvPostDisk l p (Inr nd) #
      EvWaitTask t (Inr t') # EvGetDisk (rHREF ow) (Inr d) # cs)"
    and "list_all is_query qs" and "list_all no_write as" and "dTasks nd = Some (t # ts)" and "tOwner t' = Some ow"
  shows "same_disk nd d"
proof -
  note quiet = steps_queries [OF assms(2)] steps_no_write [OF assms(3)]
  have "cloud_truth s (h @ EvLock # qs @ as) (EvPostDisk l p (Inr nd))"
    "cloud_truth s (h @ EvLock # qs @ as @ [EvPostDisk l p (Inr nd)]) (EvWaitTask t (Inr t'))"
    "cloud_truth s (h @ EvLock # qs @ as @ [EvPostDisk l p (Inr nd), EvWaitTask t (Inr t')])
      (EvGetDisk (rHREF ow) (Inr d))"
    using assms(1) by simp_all
  then show ?thesis
    using assms(4,5) by (auto simp: cloud_truth_def cloud_more quiet list_ex_iff list_all_iff apart_def)
qed

lemma created_cloud:
  assumes "created v0 sp qs (newDiskParams name sz bt bst desc sh) r es" and "list_all is_query qs"
    and "guard_ok (post_from v sp) [] es" and guard: "guard_ok (cloud_truth s) h es"
    and "creates_in s v (vName v)" and absent: "\<not> named_in name (cloud s h)"
  shows "creation_done s h name (vName v) (\<lambda>d. asked_for d sz bt bst sp sh) r es"
proof -
  obtain as prof v' ps where es: "es = EvLock # qs @ as @ ps @ [EvUnlock]" and as: "list_all no_write as"
      and prof: "sp = [] \<longleftrightarrow> prof = None" and posted: "posted v' (newDiskParams name sz bt bst desc sh prof) r ps"
    by (rule created_parts [OF assms(1)])
  let ?p = "newDiskParams name sz bt bst desc sh prof"
  obtain l a bs where ps: "ps = EvPostDisk l ?p a # bs" and bs: "list_all no_write bs"
      and r: "\<forall>d. r = Done (Inr d) \<longrightarrow> (\<exists>nd t ts t' ow cs. a = Inr nd \<and> dTasks nd = Some (t # ts) \<and>
        tOwner t' = Some ow \<and> bs = EvWaitTask t (Inr t') # EvGetDisk (rHREF ow) (Inr d) # cs)"
    using posted unfolding posted_def by (elim exE conjE) (rule that, assumption+, auto)
  note quiet = steps_queries [OF assms(2)] steps_no_write [OF as] steps_no_write [OF bs]
  have "post_from v sp es (EvPostDisk l ?p a)"
    using posts_in_run [OF assms(3)] by (simp add: es ps)
  note place = posted_place [OF this guard assms(5)]
  show ?thesis
  proof (cases a)
    case (Inl err)
    then show ?thesis using r by (simp add: creation_done_def es ps cloud_more quiet)
  next
    case (Inr nd)
    have table: "cloud s (h @ es) = \<lparr>inCenter = vName v, onServer = nd, machines = []\<rparr> # cloud s h"
      using place(1) by (simp add: es ps Inr cloud_more quiet)
    have "cloud_truth s (h @ EvLock # qs @ as) (EvPostDisk l ?p (Inr nd))"
      using guard by (simp add: es ps Inr)
    then have new: "made s ?p nd" "list_all (\<lambda>x. apart nd (onServer x)) (cloud s h)"
      by (simp_all add: cloud_truth_def cloud_more quiet)
    then have asked: "dName nd = name" "asked_for nd sz bt bst sp sh"
      using place(2) prof by (auto simp: made_def asked_for_profile newDiskParams_def split: option.splits)
    have "same_disk nd d" if success: "r = Done (Inr d)" for d
    proof -
      obtain t ts t' ow cs where d: "dTasks nd = Some (t # ts)" "tOwner t' = Some ow"
          and bs': "bs = EvWaitTask t (Inr t') # EvGetDisk (rHREF ow) (Inr d) # cs"
        using r success Inr by auto
      show ?thesis
        by (rule read_after_post [OF _ assms(2) as d, of s h l ?p d "cs @ [EvUnlock]"])
          (use guard in \<open>simp add: es ps bs' Inr\<close>)
    qed
    then show ?thesis
      using asked absent new(2) by (auto simp: creation_done_def table abs_create_def)
  qed
qed

lemma existing_cloud:
  assumes "cloud_ok (cloud s h)" and "list_all no_write bs" and "guard_ok (cloud_truth s) h (EvLock # bs @ [EvUnlock])"
    and "\<And>d. r = Done (Inr d) \<Longrightarrow> asked_for d sz bt bst sp sh \<and> (\<exists>qs cs. bs = qs @ cs \<and> fetched_unique name qs d)"
  shows "creation_done s h name n (\<lambda>d. asked_for d sz bt bst sp sh) r (EvLock # bs @ [EvUnlock])"
proof -
  have "\<exists>e. e \<in> set (cloud s h) \<and> entry_name e = name \<and> same_disk (onServer e) d \<and> asked_for (onServer e) sz bt bst sp sh"
    if d: "r = Done (Inr d)" for d
  proof -
    obtain qs cs where qs: "bs = qs @ cs" "fetched_unique name qs d" and asked: "asked_for d sz bt bst sp sh"
      using assms(4) [OF d] by blast
    have "list_all (\<lambda>e. \<not> is_storage_write e) qs" using assms(2) qs(1) by (auto simp: list_all_iff)
    from entry_after_lock [OF qs(2) this assms(1), of "cs @ [EvUnlock]"] assms(3)
    obtain e where "e \<in> set (cloud s h)" "entry_name e = name" "same_disk (onServer e) d"
      by (auto simp: qs(1))
    then show ?thesis using asked asked_for_same by blast
  qed
  then show ?thesis
    by (simp add: creation_done_def cloud_more steps_no_write [OF assms(2)])
qed

lemma CreateDisk_cloud:
  assumes "plain_name name" and "tidy s dm (cloud s h)" and "creates_in s v (vName v)"
  shows "sat (CreateDisk dm name v sz bt bst desc sp sh (ZoneMap dm)) env h (\<lambda>r es.
     guard_ok (cloud_truth s) h es \<longrightarrow> fine_reads dm es \<longrightarrow>
     creation_done s h name (vName v) (\<lambda>d. asked_for d sz bt bst sp sh) r es)"
proof (rule sat_mono [OF sat_conj [THEN iffD2, OF conjI [OF CreateDisk_story sat_CreateDisk_posts]]],
    intro impI, erule conjE, erule disjE, goal_cases)
  case (1 r es)
  then obtain qs e where missing: "errors_Is_NotFound e" "GetDiskByNameOrId dm name (ZoneMap dm)
        (ClusterOVDCIdentifier (VCDClient dm)) env (h @ [EvLock]) = (Done (Inl e), qs)"
      and made: "created v sp qs (newDiskParams name sz bt bst desc sh) r es"
    by blast
  obtain rest where es: "es = EvLock # qs @ rest" using made unfolding created_def by blast
  have qs: "list_all is_query qs"
    using emits_GetDiskByNameOrId [of dm name "ZoneMap dm" "ClusterOVDCIdentifier (VCDClient dm)"] missing(2)
    by (metis emits_def snd_conv)
  have "\<not> named_in name (cloud s h)"
    using absent_after_lock [OF missing(2,1) assms(1,2), of rest] 1(1,2) by (simp add: es)
  then show ?case using created_cloud [OF made qs _ 1(1) assms(3)] 1(3) by blast
next
  case (2 r es)
  then obtain bs where es: "es = EvLock # bs @ [EvUnlock]" and bs: "list_all no_write bs"
      and r: "\<forall>d. r = Done (Inr d) \<longrightarrow> asked_for d sz bt bst sp sh \<and>
         (\<exists>qs cs. bs = qs @ cs \<and> fetched_unique name qs d)"
    by (elim exE conjE) (rule that, assumption+, auto)
  show ?case
    unfolding es by (rule existing_cloud) (use assms(2) bs r 2(1) in \<open>auto simp: tidy_def es\<close>)
qed

end
