(* ===== verification/CloudService.thy ===== *)
theory CloudService
  imports CloudOps
begin

text \<open>
  The calls of the controller on the table of disks: each handler does one abstract operation
  on it or nothing, and every operation keeps the table in order.
\<close>

section \<open>Order is kept\<close>

lemma tidy_new: "tidy s dm c \<Longrightarrow> abs_create name n P c c' \<Longrightarrow> n \<in> set (home_centers s dm) \<Longrightarrow> tidy s dm c'"
  by (auto simp: tidy_def abs_create_def intro: cloud_ok_new)

lemma tidy_without: "tidy s dm c \<Longrightarrow> tidy s dm (without name c)"
  using cloud_ok_without [of c name] by (auto simp: tidy_def without_def list_all_iff)

lemma tidy_change:
  assumes "tidy s dm c" and "\<And>e. onServer (f e) = (onServer e)\<lparr>dSizeMb := g e\<rparr>" and "\<And>e. inCenter (f e) = inCenter e"
  shows "tidy s dm (change name f c)"
  using assms cloud_ok_change [of c f g name] by (auto simp: tidy_def change_def list_all_iff)

definition abs_resize :: "string \<Rightarrow> int64 \<Rightarrow> cloud \<Rightarrow> cloud option" where
  "abs_resize name sz c = Some (change name (\<lambda>e. e\<lparr>onServer := (onServer e)\<lparr>dSizeMb := sz\<rparr>\<rparr>) c)"

lemma tidy_ops:
  assumes "tidy s dm c"
  shows "abs_delete name c = Some c' \<Longrightarrow> tidy s dm c'" "abs_attach name m c = Some c' \<Longrightarrow> tidy s dm c'"
    "abs_detach name m c = Some c' \<Longrightarrow> tidy s dm c'" "abs_resize name sz c = Some c' \<Longrightarrow> tidy s dm c'"
proof -
  show "tidy s dm c'" if "abs_delete name c = Some c'"
    using that assms tidy_without by (auto simp: abs_delete_def split: option.splits if_splits)
  have ms: "tidy s dm (change name (\<lambda>e. e\<lparr>machines := g e\<rparr>) c)" for g
    by (rule tidy_change [OF assms, of _ "\<lambda>e. dSizeMb (onServer e)"]) simp_all
  show "tidy s dm c'" if "abs_attach name m c = Some c'"
    using that assms ms [of "\<lambda>e. m # machines e"] by (auto simp: abs_attach_def split: option.splits if_splits)
  show "tidy s dm c'" if "abs_detach name m c = Some c'"
    using that ms [of "\<lambda>e. filter (\<lambda>x. x \<noteq> m) (machines e)"] by (auto simp: abs_detach_def)
  show "tidy s dm c'" if "abs_resize name sz c = Some c'"
    using that tidy_change [OF assms, of "\<lambda>e. e\<lparr>onServer := (onServer e)\<lparr>dSizeMb := sz\<rparr>\<rparr>" "\<lambda>e. sz"]
    by (auto simp: abs_resize_def)
qed

lemma tidy_tries: "tries f c r c' \<Longrightarrow> tidy s dm c \<Longrightarrow> (\<And>d. f c = Some d \<Longrightarrow> tidy s dm d) \<Longrightarrow> tidy s dm c'"
  by (auto simp: tries_def split: outcome.splits sum.splits)

section \<open>Create\<close>

text \<open>Zones are given exactly to a cluster with zones.\<close>

definition well_configured :: "disk_manager \<Rightarrow> bool" where
  "well_configured dm \<longleftrightarrow> (IsZoneEnabledCluster dm \<longleftrightarrow> zones_of (ZoneMap dm) \<noteq> [])"

definition wanted :: "create_volume_request \<Rightarrow> disk \<Rightarrow> bool" where
  "wanted p d \<longleftrightarrow> (\<exists>shareable. isDiskShareable (crVolumeCapabilities p) = ret shareable \<and>
     asked_for d (requestedSizeMb (crCapacityRange p)) VCDBusTypeSCSI VCDBusSubTypeVirtualSCSI
       (map_get (crParameters p) StorageProfileParameter) shareable)"

lemma volumeVDC_home:
  assumes "well_configured dm"
  shows "sat (volumeVDC dm params) env h (\<lambda>r es. es = [] \<and> (\<forall>vdc. r = Done (Inr vdc) \<longrightarrow> vdc \<in> set (home_ids dm)))"
proof (rule sat_mono [OF volumeVDC_spec], goal_cases)
  case (1 r es)
  show ?case
  proof (cases "zones_of (ZoneMap dm)")
    case Nil
    then show ?thesis using 1 assms by (auto simp: well_configured_def home_ids_def)
  next
    case (Cons z zs)
    then show ?thesis using 1 assms by (fastforce simp: well_configured_def home_ids_def image_iff)
  qed
qed

text \<open>The promise of a creation, with the centers that the disk may be in.\<close>

definition creates :: "string list \<Rightarrow> create_volume_request \<Rightarrow> (disk \<Rightarrow> bool) \<Rightarrow> cloud \<Rightarrow>
    volume res outcome \<Rightarrow> cloud \<Rightarrow> bool" where
  "creates home p P c r c' \<longleftrightarrow>
     (c' = c \<or> (\<exists>n. n \<in> set home \<and> abs_create (crName p) n P c c')) \<and>
     (\<forall>vol. r = Done (Inr vol) \<longrightarrow> VolumeId vol = crName p \<and>
       CapacityBytes vol = requestedSizeMb (crCapacityRange p) * MbToBytes \<and>
       (\<exists>e. e \<in> set c' \<and> entry_name e = crName p \<and> P (onServer e)))"

lemma creates_simps [simp]:
  "creates home p P c (Done (Inl e)) c' \<longleftrightarrow> c' = c \<or> (\<exists>n. n \<in> set home \<and> abs_create (crName p) n P c c')"
  "creates home p P c (Panic x) c' \<longleftrightarrow> c' = c \<or> (\<exists>n. n \<in> set home \<and> abs_create (crName p) n P c c')"
  by (simp_all add: creates_def)

lemma provision_cloud:
  assumes "tidy s (DiskManager cs) (cloud s h)" and "plain_name (crName p)"
    and "vdc \<in> set (home_ids (DiskManager cs))"
  shows "sat (provision cs p isBlock shareable vdc) env h (\<lambda>r es.
     guard_ok (cloud_truth s) h es \<longrightarrow> fine_reads (DiskManager cs) es \<longrightarrow>
     creates (home_centers s (DiskManager cs)) p (\<lambda>d. asked_for d (requestedSizeMb (crCapacityRange p)) VCDBusTypeSCSI
       VCDBusSubTypeVirtualSCSI (map_get (crParameters p) StorageProfileParameter) shareable)
       (cloud s h) r (cloud s (h @ es)))"
proof (cases "Org (DiskManager cs)")
  case None
  then show ?thesis by (simp add: provision_def wp Let_def)
next
  case (Some org)
  show ?thesis
  proof (cases "q_getVDC env h vdc")
    case (Inl e)
    then show ?thesis by (simp add: provision_def wp Let_def Some)
  next
    case (Inr v)
    show ?thesis
    proof (cases "cloud_truth s h (EvGetVDC vdc (Inr v))")
      case False
      then show ?thesis 
        by (simp add: provision_def wp Let_def Some Inr, intro sat_mono [OF sat_True])
          (auto simp: sat_True split: outcome.split sum.split)
    next
      case True
      then have v: "vName v = centerOf s vdc" "creates_in s v (vName v)"
        by (simp_all add: cloud_truth_def lists_def)
      have home: "vName v \<in> set (home_centers s (DiskManager cs))"
        using assms(3) by (simp add: v(1) home_centers_def)
      have tidy: "tidy s (DiskManager cs) (cloud s (h @ [EvGetVDC vdc (Inr v)]))"
        using assms(1) by simp
      show ?thesis
        unfolding provision_def
        by (simp add: wp Let_def Some Inr, rule sat_mono [OF CreateDisk_cloud [OF assms(2) tidy v(2)]])
          (use home in \<open>auto simp: wp creates_def creation_done_def cloud_more same_disk_def
            split: outcome.splits sum.splits option.splits\<close>)
    qed
  qed
qed

lemma CreateVolume_cloud:
  assumes "tidy s (DiskManager cs) (cloud s h)" and "well_configured (DiskManager cs)" and "plain_name (crName p)"
  shows "sat (CreateVolume cs (Some p)) env h (\<lambda>r es.
     guard_ok (cloud_truth s) h es \<longrightarrow> fine_reads (DiskManager cs) es \<longrightarrow>
     creates (home_centers s (DiskManager cs)) p (wanted p) (cloud s h) r (cloud s (h @ es)))"
proof -
  have tidy: "tidy s (DiskManager cs) (cloud s (h @ [EvRefreshToken (Inr ())]))"
    using assms(1) by simp
  from capabilities_return [of "crVolumeCapabilities p"] consider
      (shareable) isBlock b where "IsBlockVolume (crVolumeCapabilities p) = ok isBlock"
        "isDiskShareable (crVolumeCapabilities p) = ret b"
    | (error) e where "IsBlockVolume (crVolumeCapabilities p) = fail e"
    | (panic) x where "IsBlockVolume (crVolumeCapabilities p) = panic x"
    | (panic') isBlock x where "IsBlockVolume (crVolumeCapabilities p) = ok isBlock"
        "isDiskShareable (crVolumeCapabilities p) = panic x"
    by (metis old.sum.exhaust)
  then show ?thesis
  proof cases
    case shareable
    have wanted: "wanted p d" if "asked_for d (requestedSizeMb (crCapacityRange p)) VCDBusTypeSCSI VCDBusSubTypeVirtualSCSI
        (map_get (crParameters p) StorageProfileParameter) b" for d
      using that shareable(2) unfolding wanted_def by blast
    have more: "creates home p (wanted p) c r c'" if "creates home p (\<lambda>d. asked_for d (requestedSizeMb (crCapacityRange p))
        VCDBusTypeSCSI VCDBusSubTypeVirtualSCSI (map_get (crParameters p) StorageProfileParameter) b) c r c'" for home c r c'
      using that wanted unfolding creates_def abs_create_def by blast
    show ?thesis
      using shareable
      by (auto simp: CreateVolume_def wp split: sum.splits outcome.splits
          intro!: sat_mono [OF volumeVDC_home [OF assms(2)]]
            sat_mono [OF provision_cloud [OF tidy assms(3)]] more simp: cloud_more)
  qed (simp_all add: CreateVolume_def wp split: sum.splits)
qed

section \<open>Delete, publish, unpublish\<close>

lemma DeleteVolume_cloud:
  assumes "tidy s (DiskManager cs) (cloud s h)" and "plain_name name"
  shows "sat (DeleteVolume cs (Some name)) env h (\<lambda>r es.
     guard_ok (cloud_truth s) h es \<longrightarrow> fine_reads (DiskManager cs) es \<longrightarrow>
     tries (abs_delete name) (cloud s h) r (cloud s (h @ es)))"
proof -
  have tidy: "tidy s (DiskManager cs) (cloud s (h @ [EvRefreshToken (Inr ())]))" using assms(1) by simp
  note op = sat_mono [OF sat_conj [THEN iffD2, OF conjI [OF DeleteDisk_cloud [OF assms(2) tidy]
        plain_operations(2) [THEN errors_areD]]]]
  show ?thesis
    by (auto simp: DeleteVolume_def wp cloud_more plain_not_missing split: sum.splits outcome.splits intro!: op)
qed

lemma attachToNode_cloud:
  assumes "tidy s (DiskManager cs) (cloud s h)"
  shows "sat (attachToNode cs node name fs) env h (\<lambda>r es.
     guard_ok (cloud_truth s) h es \<longrightarrow> tries (abs_attach name (machineOf s node)) (cloud s h) r (cloud s (h @ es)))"
proof (cases "q_searchVM env h node (VAppName cs) (IsZoneEnabledCluster (DiskManager cs))")
  case (Inl e)
  then show ?thesis by (simp add: attachToNode_def wp Let_def)
next
  case (Inr vm)
  let ?search = "EvSearchVM node (VAppName cs) (IsZoneEnabledCluster (DiskManager cs)) (Inr vm)"
  let ?h = "h @ [?search]"
  show ?thesis
  proof (cases rule: lookup_cases [of "DiskManager cs" name "ZoneMap (DiskManager cs)"
        "ClusterOVDCIdentifier (VCDClient (DiskManager cs))" env ?h])
    case (panic p qs)
    then show ?thesis by (simp add: Inr attachToNode_def wp Let_def cloud_more steps_queries)
  next
    case (error e qs)
    then show ?thesis by (simp add: Inr attachToNode_def wp Let_def cloud_more steps_queries)
  next
    case (found d qs)
    show ?thesis
    proof (cases "guard_ok (cloud_truth s) ?h qs \<and> cloud_truth s h ?search")
      case False
      then show ?thesis
        by (auto simp: Inr found(1) attachToNode_def wp Let_def sat_True split: outcome.split sum.split
            intro!: sat_mono [OF sat_True])
    next
      case True
      have ok: "cloud_ok (cloud s ?h)" using assms by (simp add: tidy_def)
      obtain e where e: "e \<in> set (cloud s h)" "entry_name e = name" "same_disk (onServer e) d"
        using found_entry [OF found(3) queries_quiet [OF found(2)] _ ok] True by auto
      let ?h' = "?h @ qs @ [EvRemoveError (ClusterID (DiskManager cs)) DiskQueryError [] name (q_rde env (?h @ qs))]"
      have "cloud s ?h' = cloud s h"
        by (simp add: cloud_more steps_queries [OF found(2)])
      then have attach: "sat (AttachVolume (DiskManager cs) vm (Some d)) env ?h' (\<lambda>r es.
          guard_ok (cloud_truth s) ?h' es \<longrightarrow>
          tries (abs_attach name (mHREF vm)) (cloud s h) r (foldl (cloud_step s) (cloud s h) es))"
        using AttachVolume_cloud [of s ?h' e d "DiskManager cs" vm env] e ok by (simp add: cloud_more)
      have vm: "machineOf s node = mHREF vm" using True by (simp add: cloud_truth_def)
      show ?thesis
        by (auto simp: Inr found(1) attachToNode_def wp Let_def vm cloud_more steps_queries [OF found(2)]
            split: outcome.splits sum.splits intro!: sat_mono [OF attach [simplified]])
    qed
  qed
qed

lemma ControllerPublishVolume_cloud:
  assumes "tidy s (DiskManager cs) (cloud s h)"
  shows "sat (ControllerPublishVolume cs (Some q)) env h (\<lambda>r es. guard_ok (cloud_truth s) h es \<longrightarrow>
     tries (abs_attach (prVolumeId q) (machineOf s (prNodeId q))) (cloud s h) r (cloud s (h @ es)))"
proof -
  have tidy: "tidy s (DiskManager cs) (cloud s (h @ [EvRefreshToken (Inr ())]))" using assms by simp
  show ?thesis
    by (auto simp: ControllerPublishVolume_def wp cloud_more split: sum.splits option.splits access_type.splits
        intro!: sat_mono [OF attachToNode_cloud [OF tidy]])
qed

lemma detachFromNode_cloud:
  assumes "tidy s (DiskManager cs) (cloud s h)" and "plain_name name"
  shows "sat (detachFromNode cs node name) env h (\<lambda>r es.
     guard_ok (cloud_truth s) h es \<longrightarrow> fine_reads (DiskManager cs) es \<longrightarrow>
     tries (abs_detach name (machineOf s node)) (cloud s h) r (cloud s (h @ es)))"
proof (cases "q_searchVM env h node (VAppName cs) (IsZoneEnabledCluster (DiskManager cs))")
  case (Inl e)
  then show ?thesis by (simp add: detachFromNode_def wp Let_def)
next
  case (Inr vm)
  let ?h = "h @ [EvSearchVM node (VAppName cs) (IsZoneEnabledCluster (DiskManager cs)) (Inr vm)]"
  have tidy: "tidy s (DiskManager cs) (cloud s ?h)" using assms(1) by simp
  have vm: "mHREF vm = machineOf s node" if "cloud_truth s h (EvSearchVM node a z (Inr vm))" for a z
    using that by (simp add: cloud_truth_def)
  show ?thesis
    by (auto simp: Inr detachFromNode_def wp Let_def cloud_more vm split: outcome.splits sum.splits
        intro!: sat_mono [OF DetachVolume_cloud [OF assms(2) tidy]])
qed

lemma ControllerUnpublishVolume_cloud:
  assumes "tidy s (DiskManager cs) (cloud s h)" and "plain_name (upVolumeId q)"
  shows "sat (ControllerUnpublishVolume cs (Some q)) env h (\<lambda>r es.
     guard_ok (cloud_truth s) h es \<longrightarrow> fine_reads (DiskManager cs) es \<longrightarrow>
     tries (abs_detach (upVolumeId q) (machineOf s (upNodeId q))) (cloud s h) r (cloud s (h @ es)))"
proof -
  let ?dm = "DiskManager cs" and ?h = "h @ [EvRefreshToken (Inr ())]" and ?name = "upVolumeId q"
  have ok: "cloud_ok (cloud s ?h)" and tidy: "tidy s ?dm (cloud s ?h)" using assms(1) by (simp_all add: tidy_def)
  show ?thesis
  proof (cases rule: lookup_cases [of ?dm ?name "ZoneMap ?dm" "ClusterOVDCIdentifier (VCDClient ?dm)" env ?h])
    case (panic p qs)
    then show ?thesis
      by (auto simp: ControllerUnpublishVolume_def wp Let_def cloud_more steps_queries split: sum.split)
  next
    case (error e qs)
    have none: "abs_detach ?name m (cloud s h) = Some (cloud s h)"
      if "guard_ok (cloud_truth s) ?h qs" "fine_reads ?dm qs" "errors_Is_NotFound e" for m
      using directory.absent_entry [OF error(3) that(3) assms(2), of s] that(1,2) tidy
      by (simp add: tidy_def abs_detach_def change_absent)
    show ?thesis
      by (auto simp: ControllerUnpublishVolume_def error(1) wp Let_def cloud_more steps_queries [OF error(2)] none
          split: sum.split)
  next
    case (found d qs)
    show ?thesis
    proof (cases "guard_ok (cloud_truth s) ?h qs")
      case False
      then show ?thesis
        by (auto simp: found(1) ControllerUnpublishVolume_def wp Let_def sat_True
            split: outcome.split sum.split option.split intro!: sat_mono [OF sat_True])
    next
      case True
      obtain e where e: "e \<in> set (cloud s h)" "entry_name e = ?name" "same_disk (onServer e) d"
        using found_entry [OF found(3) queries_quiet [OF found(2)] True ok] by auto
      have table: "cloud s (h @ EvRefreshToken (Inr ()) # qs) = cloud s h"
        by (simp add: cloud_more steps_queries [OF found(2)])
      have none: "abs_detach ?name m (cloud s h) = Some (cloud s h)"
        if "cloud_truth s (h @ EvRefreshToken (Inr ()) # qs) (EvGetVms l (Inr []))" "vms_link d = Some l" for m l
        using told_machines(2) [OF that(1), of e] e same_disk_links(1) [OF e(3)] that(2) table
          change_same [OF _ e(1), of "\<lambda>e. e\<lparr>machines := filter (\<lambda>x. x \<noteq> m) (machines e)\<rparr>"] ok
        by (simp add: abs_detach_def)
      have detach: "sat (detachFromNode cs (upNodeId q) ?name) env (?h @ qs @ [EvGetVms l (Inr vms)]) (\<lambda>r es.
          guard_ok (cloud_truth s) (?h @ qs @ [EvGetVms l (Inr vms)]) es \<longrightarrow> fine_reads ?dm es \<longrightarrow>
          tries (abs_detach ?name (machineOf s (upNodeId q))) (cloud s h) r (foldl (cloud_step s) (cloud s h) es))" for l vms
        using detachFromNode_cloud [of s cs "?h @ qs @ [EvGetVms l (Inr vms)]" ?name "upNodeId q" env] assms
        by (simp add: cloud_more steps_queries [OF found(2)])
      show ?thesis
        by (auto simp: found(1) ControllerUnpublishVolume_def wp Let_def cloud_more steps_queries [OF found(2)] none
            split: sum.split option.split intro!: sat_mono [OF detach [simplified]])
    qed
  qed
qed

section \<open>Expand\<close>

lemma setting_of_resize:
  assumes "resizeSetting i n ss = Some ss'"
  shows "dId d \<noteq> i \<Longrightarrow> setting_of ss' d = setting_of ss d"
    and "dId d = i \<Longrightarrow> \<exists>y. setting_of ss' d = Some y \<and> sSizeMb y = n"
  using assms by (induction ss arbitrary: ss') (auto simp: setting_of_def split: option.splits if_splits)

lemma resize_by_setting:
  assumes "cloud_ok c" and "e \<in> set c" and "resizeSetting (dId (onServer e)) n ss = Some ss'"
    and "list_all (\<lambda>e. case setting_of ss (onServer e) of None \<Rightarrow> True | Some x \<Rightarrow> sSizeMb x = dSizeMb (onServer e)) c"
  shows "map (\<lambda>e. case setting_of ss' (onServer e) of None \<Rightarrow> e
      | Some y \<Rightarrow> e\<lparr>onServer := (onServer e)\<lparr>dSizeMb := sSizeMb y\<rparr>\<rparr>) c =
    change (entry_name e) (\<lambda>e. e\<lparr>onServer := (onServer e)\<lparr>dSizeMb := n\<rparr>\<rparr>) c"
  unfolding change_def
proof (rule map_cong [OF refl])
  fix e'
  assume e': "e' \<in> set c"
  show "(case setting_of ss' (onServer e') of None \<Rightarrow> e'
      | Some y \<Rightarrow> e'\<lparr>onServer := (onServer e')\<lparr>dSizeMb := sSizeMb y\<rparr>\<rparr>) =
    (if entry_name e' = entry_name e then e'\<lparr>onServer := (onServer e')\<lparr>dSizeMb := n\<rparr>\<rparr> else e')"
  proof (cases "e' = e")
    case True
    then show ?thesis using setting_of_resize(2) [OF assms(3), of "onServer e"] by auto
  next
    case False
    then have "apart (onServer e') (onServer e)" and "entry_name e' \<noteq> entry_name e"
      using cloud_ok_apart [OF assms(1) e' assms(2)] cloud_ok_name [OF assms(1) e' assms(2)] by auto
    then show ?thesis
      using setting_of_resize(1) [OF assms(3), of "onServer e'"] assms(4) e'
      by (auto simp: apart_def list_all_iff split: option.splits)
  qed
qed

lemma resize_by_update:
  assumes "cloud_ok c" and "e \<in> set c" and "same_disk (onServer e) d" and "edit_link d = Some l"
    and "uName u = dName d" and "uDescription u = dDescription d" and "uOwner u = dOwner d"
  shows "map (\<lambda>e. if edit_link (onServer e) = Some l then e\<lparr>onServer := (onServer e)\<lparr>dName := uName u,
      dDescription := uDescription u, dSizeMb := uSizeMb u, dOwner := uOwner u\<rparr>\<rparr> else e) c =
    change (entry_name e) (\<lambda>e. e\<lparr>onServer := (onServer e)\<lparr>dSizeMb := uSizeMb u\<rparr>\<rparr>) c"
proof -
  have "edit_link (onServer e) = Some l" using same_disk_links(3) [OF assms(3)] assms(4) by simp
  note step_by_name(3) [OF assms(1,2) this]
  moreover have "e' = e" if "e' \<in> set c" "entry_name e' = entry_name e" for e'
    using cloud_ok_name [OF assms(1) that(1) assms(2) that(2)] .
  ultimately show ?thesis
    using assms(3,5-7) by (auto simp: change_def same_disk_def intro!: map_cong)
qed

lemma expandOffline_cloud:
  assumes "cloud_ok (cloud s h)" and "e \<in> set (cloud s h)" and "same_disk (onServer e) d"
  shows "sat (expandOffline dm d vms n) env h (\<lambda>r es. 
     tries (abs_resize (entry_name e) n) (cloud s h) r (cloud s (h @ es)))"
  unfolding expandOffline_def UpdateDisk_def
  by (auto simp: wp vcd_calls cloud_more abs_resize_def edit_link_def
      resize_by_update [OF assms, unfolded edit_link_def] split: sum.splits option.splits)

lemma expandOnline_cloud:
  assumes "cloud_ok (cloud s h)" and "e \<in> set (cloud s h)" and "same_disk (onServer e) d"
  shows "sat (expandOnline cs d vms n) env h (\<lambda>r es. guard_ok (cloud_truth s) h es \<longrightarrow>
     tries (abs_resize (entry_name e) n) (cloud s h) r (cloud s (h @ es)))"
proof -
  have d: "dId d = dId (onServer e)" using assms(3) by (simp add: same_disk_def)
  have settings: "list_all (\<lambda>e. case setting_of ss (onServer e) of None \<Rightarrow> True
      | Some x \<Rightarrow> sSizeMb x = dSizeMb (onServer e)) (cloud s h)"
    if "cloud_truth s h (EvSearchVM n a z (Inr vm))" "mVmSpecSection vm = Some (Some ss)"
    for n a z vm ss
    using that by (simp add: cloud_truth_def)
  note by_name = resize_by_setting [OF assms(1,2), folded d]
  show ?thesis
    unfolding expandOnline_def
    by (auto simp: wp vcd_calls Let_def cloud_more by_name settings abs_resize_def
        split: sum.splits option.splits list.splits)
qed

lemma expandDisk_cloud:
  assumes "cloud_ok (cloud s h)" and "e \<in> set (cloud s h)" and "same_disk (onServer e) d"
  shows "sat (expandDisk cs capacity v mode d) env h (\<lambda>r es. guard_ok (cloud_truth s) h es \<longrightarrow>
     tries (abs_resize (entry_name e) (expandedSizeMb capacity)) (cloud s h) r (cloud s (h @ es)))"
proof -
  let ?n = "expandedSizeMb capacity"
  have same: "abs_resize (entry_name e) ?n (cloud s h) = Some (cloud s h)" if "dSizeMb d = ?n"
    using change_same [OF assms(1,2), of "\<lambda>e. e\<lparr>onServer := (onServer e)\<lparr>dSizeMb := ?n\<rparr>\<rparr>"] that assms(3)
    by (simp add: abs_resize_def same_disk_def)
  have ok: "cloud s (h @ [EvGetVms l a]) = cloud s h" for l a by simp
  note offline = expandOffline_cloud [of s "h @ [EvGetVms l a]" e d for l a, unfolded ok, OF assms]
    and online = expandOnline_cloud [of s "h @ [EvGetVms l a]" e d for l a, unfolded ok, OF assms]
  show ?thesis
    unfolding expandDisk_def Let_def
    by (auto simp: wp same cloud_more split: sum.splits option.splits expansion.splits
        intro!: sat_mono [OF offline] sat_mono [OF online])
qed

lemma ControllerExpandVolume_cloud:
  assumes "tidy s (DiskManager cs) (cloud s h)" and "exCapacityRange q = Some capacity"
  shows "sat (ControllerExpandVolume cs (Some q)) env h (\<lambda>r es. guard_ok (cloud_truth s) h es \<longrightarrow>
     tries (abs_resize (exVolumeId q) (expandedSizeMb capacity)) (cloud s h) r (cloud s (h @ es)))"
proof -
  let ?h = "h @ [EvRefreshToken (Inr ())]"
  have ok: "cloud_ok (cloud s ?h)" using assms(1) by (simp add: tidy_def)
  show ?thesis
  proof (cases rule: lookup_cases [of "DiskManager cs" "exVolumeId q" "ZoneMap (DiskManager cs)"
        "ClusterOVDCIdentifier (VCDClient (DiskManager cs))" env ?h])
    case (panic p qs)
    then show ?thesis
      by (auto simp: assms(2) ControllerExpandVolume_def wp Let_def cloud_more steps_queries split: sum.split option.split)
  next
    case (error e qs)
    then show ?thesis
      by (auto simp: assms(2) ControllerExpandVolume_def wp Let_def cloud_more steps_queries split: sum.split option.split)
  next
    case (found d qs)
    show ?thesis
    proof (cases "guard_ok (cloud_truth s) ?h qs")
      case False
      then show ?thesis
        by (auto simp: found(1) assms(2) ControllerExpandVolume_def wp Let_def sat_True
            split: outcome.split sum.split option.split intro!: sat_mono [OF sat_True])
    next
      case True
      obtain e where e: "e \<in> set (cloud s h)" "entry_name e = exVolumeId q" "same_disk (onServer e) d"
        using found_entry [OF found(3) queries_quiet [OF found(2)] True ok] by auto
      have table: "cloud s (?h @ qs) = cloud s h"
        by (simp add: cloud_more steps_queries [OF found(2)])
      have "cloud_ok (cloud s h)" using ok by simp
      note expand = expandDisk_cloud [of s "?h @ qs" e d cs capacity v m env for v m, unfolded table, OF this e(1,3)]
      show ?thesis
        by (auto simp: found(1) assms(2) ControllerExpandVolume_def wp Let_def cloud_more steps_queries [OF found(2)] e(2)
            split: sum.split option.split intro!: sat_mono [OF expand [simplified]])
    qed
  qed
qed

end
