(* ===== verification/RaceGuards.thy ===== *)
theory RaceGuards
  imports CloudService
begin

text \<open>
  What a call of the controller knows when it makes a request for a new disk, or for a new size
  of a disk, from its own requests: the part of theory CloudRaces that is about one thread.
\<close>

section \<open>The guard\<close>

text \<open>
  A new disk is asked for in a critical section that has shown that its name is free, by a link
  of a data center of the cluster; an update of a disk is one of a disk that was read, and
  keeps its name.
\<close>

definition offered :: "disk_manager \<Rightarrow> vcd_event list \<Rightarrow> link \<Rightarrow> bool" where
  "offered dm pre l \<longleftrightarrow> (\<exists>i v. i \<in> set (home_ids dm) \<and> EvGetVDC i (Inr v) \<in> set pre \<and> (l \<in> set (vLink v) \<or>
     (\<exists>n ref v'. EvFindProfile (vName v) n (Inr (ref, v')) \<in> set pre \<and> l \<in> set (vLink v'))))"

definition section_shows :: "disk_manager \<Rightarrow> string \<Rightarrow> vcd_event list \<Rightarrow> bool" where
  "section_shows dm name pre \<longleftrightarrow> (\<exists>b qs as. pre = b @ EvLock # qs @ as \<and> list_all no_write (qs @ as) \<and>
     absence_shown dm name qs)"

fun race_guard :: "disk_manager \<Rightarrow> vcd_event list \<Rightarrow> vcd_event \<Rightarrow> bool" where
  "race_guard dm pre (EvPostDisk l p a) \<longleftrightarrow> section_shows dm (dName (pDisk p)) pre \<and> offered dm pre l"
| "race_guard dm pre (EvPutDisk l u a) \<longleftrightarrow> (\<exists>x d. EvGetDisk x (Inr d) \<in> set pre \<and> edit_link d = Some l \<and> uName u = dName d)"
| "race_guard dm pre e \<longleftrightarrow> True"

fun renames :: "vcd_event \<Rightarrow> bool" where
  "renames (EvPostDisk l p a) = True"
| "renames (EvPutDisk l u a) = True"
| "renames _ = False"

lemma race_guard_other: "\<not> renames e \<Longrightarrow> race_guard dm pre e"
  by (cases e) simp_all

lemma not_renames [simp]: "\<not> is_storage_write e \<Longrightarrow> \<not> renames e" "is_query e \<Longrightarrow> \<not> renames e"
    "is_rde_event e \<Longrightarrow> \<not> renames e"
  by (cases e; simp)+

lemma keeps_race: "emits (\<lambda>e. \<not> renames e) m \<Longrightarrow> keeps (race_guard dm) m"
  by (erule keeps_emits) (simp add: race_guard_other)

lemma race_quiet: "list_all (\<lambda>e. \<not> is_storage_write e) es \<Longrightarrow> guard_ok (race_guard dm) pre es"
  by (rule guard_ok_all) (auto simp: list_all_iff race_guard_other)

section \<open>Creation\<close>

lemma offered_post:
  assumes "post_from v sp es (EvPostDisk l p a)" and "EvGetVDC i (Inr v) \<in> set h" and "i \<in> set (home_ids dm)"
  shows "offered dm (h @ es) l"
  unfolding offered_def using assms
  by (intro exI [of _ i] exI [of _ v]) (auto simp: post_from_def)

lemma CreateDisk_race:
  assumes "plain_name name" and "EvGetVDC i (Inr v) \<in> set h" and "i \<in> set (home_ids dm)"
  shows "sat (CreateDisk dm name v sz bt bst desc sp sh (ZoneMap dm)) env h (\<lambda>r es. guard_ok (race_guard dm) h es)"
proof (rule sat_mono [OF sat_conj [THEN iffD2, OF conjI [OF CreateDisk_story sat_CreateDisk_posts]]],
    erule conjE, erule disjE, goal_cases)
  case (1 r es)
  then obtain qs e where missing: "errors_Is_NotFound e" "GetDiskByNameOrId dm name (ZoneMap dm)
        (ClusterOVDCIdentifier (VCDClient dm)) env (h @ [EvLock]) = (Done (Inl e), qs)"
      and made: "created v sp qs (newDiskParams name sz bt bst desc sh) r es"
    by blast
  obtain as prof l a bs where es: "es = EvLock # qs @ as @ EvPostDisk l (newDiskParams name sz bt bst desc sh prof) a # bs @ [EvUnlock]"
      and quiet: "list_all no_write as" "list_all no_write bs"
    by (rule created_parts [OF made]) (auto simp: posted_def intro: that)
  have qs: "list_all is_query qs"
    using emits_GetDiskByNameOrId [of dm name "ZoneMap dm" "ClusterOVDCIdentifier (VCDClient dm)"] missing(2)
    by (metis emits_def snd_conv)
  have "absence_shown dm name qs"
    using lookup_shows_absence [OF assms(1), of dm env "h @ [EvLock]"] missing by (simp add: sat_pair)
  moreover have "list_all no_write (qs @ as)" using qs quiet(1) by (auto simp: list_all_iff)
  ultimately have known: "section_shows dm name (h @ EvLock # qs @ as)"
    unfolding section_shows_def by blast
  have "post_from v sp (EvLock # qs @ as) (EvPostDisk l (newDiskParams name sz bt bst desc sh prof) a)"
    using 1(1) by (simp add: es)
  from offered_post [OF this assms(2,3)] have offer: "offered dm (h @ EvLock # qs @ as) l" by simp
  have "dName (pDisk (newDiskParams name sz bt bst desc sh prof)) = name" by (simp add: newDiskParams_def)
  then show ?case
    using known offer qs quiet by (simp add: es) (auto simp: list_all_iff intro!: race_quiet)
next
  case (2 r es)
  then show ?case by (auto simp: list_all_iff intro!: race_quiet)
qed

section \<open>The handlers\<close>

lemma expandDisk_race:
  assumes "EvGetDisk x (Inr d) \<in> set h"
  shows "sat (expandDisk cs capacity v mode d) env h (\<lambda>r es. guard_ok (race_guard dm) h es)"
proof -
  have put: "race_guard dm pre (EvPutDisk l u a)" if "EvGetDisk x (Inr d) \<in> set pre" "edit_link d = Some l" "uName u = dName d"
    for pre l u a using that by auto
  have off: "sat (expandOffline dm' d vms n) env h' (\<lambda>r es. guard_ok (race_guard dm) h' es)" if "EvGetDisk x (Inr d) \<in> set h'"
    for dm' vms n h'
    unfolding expandOffline_def UpdateDisk_def
    by (auto simp: wp vcd_calls edit_link_def that simp del: race_guard.simps(2) intro!: put
        split: sum.split option.split)
  have on: "sat (expandOnline cs d vms n) env h' (\<lambda>r es. guard_ok (race_guard dm) h' es)" for vms n h'
    unfolding expandOnline_def by (auto simp: wp vcd_calls Let_def split: sum.split option.split list.split)
  show ?thesis
    unfolding expandDisk_def Let_def
    by (auto simp: wp assms split: sum.split option.split expansion.split intro!: sat_mono [OF off] sat_mono [OF on])
qed

lemma ControllerExpandVolume_race: "keeps (race_guard dm) (ControllerExpandVolume cs req)"
  unfolding keeps_def
proof (intro allI)
  fix env h
  show "sat (ControllerExpandVolume cs req) env h (\<lambda>r es. guard_ok (race_guard dm) h es)"
  proof (cases req)
    case None
    then show ?thesis by (simp add: ControllerExpandVolume_def wp)
  next
    case (Some q)
    have quiet: "list_all is_query qs \<Longrightarrow> guard_ok (race_guard dm) pre qs" for qs pre
      by (intro race_quiet) (auto simp: list_all_iff)
    show ?thesis
    proof (cases rule: lookup_cases [of "DiskManager cs" "exVolumeId q" "ZoneMap (DiskManager cs)"
          "ClusterOVDCIdentifier (VCDClient (DiskManager cs))" env "h @ [EvRefreshToken (Inr ())]"])
      case (panic p qs)
      then show ?thesis
        by (auto simp: Some ControllerExpandVolume_def wp Let_def quiet split: sum.split option.split)
    next
      case (error e qs)
      then show ?thesis
        by (auto simp: Some ControllerExpandVolume_def wp Let_def quiet split: sum.split option.split)
    next
      case (found d qs)
      obtain x where "EvGetDisk x (Inr d) \<in> set qs" using fetched_unique_read [OF found(3)] by blast
      then show ?thesis
        by (auto simp: Some found(1) ControllerExpandVolume_def wp Let_def quiet [OF found(2)]
            split: sum.split option.split intro!: sat_mono [OF expandDisk_race])
    qed
  qed
qed

lemma keeps_names:
  "emits (\<lambda>e. \<not> renames e) (DeleteVolume cs del)" "emits (\<lambda>e. \<not> renames e) (ControllerPublishVolume cs pub)"
  "emits (\<lambda>e. \<not> renames e) (ControllerUnpublishVolume cs unp)"
proof -
  have rde: "emits (\<lambda>e. \<not> renames e) (removePvFromRDE dm i n)" "emits (\<lambda>e. \<not> renames e) (GetDiskByNameOrId dm n z v)"
    for dm i n z v
    by (rule emits_mono, rule trace_rules, simp)+
  have ops: "emits (\<lambda>e. \<not> renames e) (DeleteDisk dm name zm)" "emits (\<lambda>e. \<not> renames e) (AttachVolume dm vm od)"
    "emits (\<lambda>e. \<not> renames e) (DetachVolume dm vm name zm)" "emits (\<lambda>e. \<not> renames e) (GovcdAttachedVM dm d)"
    for dm name zm vm od d
    unfolding DeleteDisk_def govcdDelete_def finishDelete_def AttachVolume_def govcdRefresh_def govcdGetDiskByHref_def
      DetachVolume_def GovcdAttachedVM_def
    by (auto intro!: trace_rules rde)
  show "emits (\<lambda>e. \<not> renames e) (DeleteVolume cs del)" "emits (\<lambda>e. \<not> renames e) (ControllerPublishVolume cs pub)"
    "emits (\<lambda>e. \<not> renames e) (ControllerUnpublishVolume cs unp)"
    unfolding handler_defs with_token_def Let_def
    by (auto intro!: trace_rules rde ops split: access_type.splits)
qed

lemma provision_race:
  assumes "plain_name (crName p)" and "vdc \<in> set (home_ids (DiskManager cs))"
  shows "sat (provision cs p isBlock shareable vdc) env h (\<lambda>r es. guard_ok (race_guard (DiskManager cs)) h es)"
proof (cases "Org (DiskManager cs)")
  case None
  then show ?thesis by (simp add: provision_def wp Let_def)
next
  case (Some org)
  show ?thesis
  proof (cases "q_getVDC env h vdc")
    case (Inl e)
    then show ?thesis by (simp add: provision_def wp Let_def Some)
  next
    case (Inr v)
    have "EvGetVDC vdc (Inr v) \<in> set (h @ [EvGetVDC vdc (Inr v)])" by simp
    note create = CreateDisk_race [OF assms(1) this assms(2)]
    show ?thesis
      unfolding provision_def
      by (simp add: wp Let_def Some Inr, rule sat_mono [OF create])
        (auto simp: wp split: outcome.splits sum.splits option.splits)
  qed
qed

lemma CreateVolume_race:
  assumes "well_configured (DiskManager cs)" and "plain_name (crName p)"
  shows "sat (CreateVolume cs (Some p)) env h (\<lambda>r es. guard_ok (race_guard (DiskManager cs)) h es)"
proof -
  from capabilities_return [of "crVolumeCapabilities p"] consider
      (shareable) isBlock b where "IsBlockVolume (crVolumeCapabilities p) = ok isBlock"
        "isDiskShareable (crVolumeCapabilities p) = ret b"
    | (error) e where "IsBlockVolume (crVolumeCapabilities p) = fail e"
    | (panic) x where "IsBlockVolume (crVolumeCapabilities p) = panic x"
    | (panic') isBlock x where "IsBlockVolume (crVolumeCapabilities p) = ok isBlock"
        "isDiskShareable (crVolumeCapabilities p) = panic x"
    by (metis old.sum.exhaust)
  then show ?thesis
  proof cases
    case shareable
    then show ?thesis
      by (auto simp: CreateVolume_def wp split: sum.splits outcome.splits
          intro!: sat_mono [OF volumeVDC_home [OF assms(1)]] sat_mono [OF provision_race [OF assms(2)]])
  qed (simp_all add: CreateVolume_def wp split: sum.splits)
qed

fun created_name :: "controller_call \<Rightarrow> string list" where
  "created_name (CallCreate (Some p)) = [crName p]"
| "created_name _ = []"

lemma step_race:
  assumes "well_configured (DiskManager cs)" and "list_all plain_name (created_name c)"
  shows "keeps (race_guard (DiskManager cs)) (controller_step cs c)"
proof (cases c)
  case (CallCreate r)
  have "keeps (race_guard (DiskManager cs)) (CreateVolume cs r)"
  proof (cases r)
    case None
    then show ?thesis by (simp add: CreateVolume_def)
  next
    case (Some p)
    then show ?thesis
      using CreateVolume_race [OF assms(1)] assms(2) by (simp add: CallCreate keeps_def)
  qed
  then show ?thesis by (auto simp: CallCreate intro!: keeps_rules)
qed (auto intro!: keeps_bind keeps_names [THEN keeps_race] ControllerExpandVolume_race)

lemma serve_race:
  assumes "well_configured (DiskManager cs)" and "list_all (\<lambda>c. list_all plain_name (created_name c)) calls"
  shows "keeps (race_guard (DiskManager cs)) (serve cs calls)"
  using assms(2) by (induction calls) (auto intro!: keeps_bind step_race [OF assms(1)])

end
