(* ===== verification/CloudCalls.thy ===== *)
theory CloudCalls
  imports CloudService
begin

text \<open>
  Sequences of controller calls on the table of disks: what every call promises of the table
  (locale table_call, interpreted for the five handlers), that it stays in order and that a
  call touches no disk but the one it names, that a repeated call changes nothing, and the life
  of a volume. The properties are stated for histories in which the server answered truly.
\<close>

section \<open>The interface\<close>

text \<open>Two tables that agree on every disk but those of the names.\<close>

definition same_but :: "string list \<Rightarrow> cloud \<Rightarrow> cloud \<Rightarrow> bool" where
  "same_but names c c' \<longleftrightarrow>
     filter (\<lambda>e. entry_name e \<notin> set names) c' = filter (\<lambda>e. entry_name e \<notin> set names) c"

lemma same_but_refl [simp]: "same_but names c c"
  by (simp add: same_but_def)

lemma same_but_mono: "same_but names c c' \<Longrightarrow> set names \<subseteq> set names' \<Longrightarrow> same_but names' c c'"
proof -
  assume *: "same_but names c c'" "set names \<subseteq> set names'"
  then have "filter (\<lambda>e. entry_name e \<notin> set names') x =
      filter (\<lambda>e. entry_name e \<notin> set names') (filter (\<lambda>e. entry_name e \<notin> set names) x)" for x
    by (auto intro: filter_cong)
  with * show ?thesis by (metis same_but_def)
qed

lemma same_but_trans:
  assumes "same_but names c c'" and "same_but names' c' c''"
  shows "same_but (names @ names') c c''"
  using same_but_mono [OF assms(1), of "names @ names'"] same_but_mono [OF assms(2), of "names @ names'"]
  by (simp add: same_but_def)

text \<open>\<open>implements s dm m R\<close>: on a table in order, with true answers, the run of \<open>m\<close> is as \<open>R\<close> says.\<close>

definition implements :: "server \<Rightarrow> disk_manager \<Rightarrow> 'a res vcd \<Rightarrow> (cloud \<Rightarrow> 'a res outcome \<Rightarrow> cloud \<Rightarrow> bool) \<Rightarrow> bool"
where
  "implements s dm m R \<longleftrightarrow> (\<forall>env h. tidy s dm (cloud s h) \<longrightarrow> sat m env h (\<lambda>r es.
     guard_ok (cloud_truth s) h es \<longrightarrow> fine_reads dm es \<longrightarrow> R (cloud s h) r (cloud s (h @ es))))"

lemma implementsD:
  "implements s dm m R \<Longrightarrow> tidy s dm (cloud s h) \<Longrightarrow> sat m env h (\<lambda>r es.
     guard_ok (cloud_truth s) h es \<longrightarrow> fine_reads dm es \<longrightarrow> R (cloud s h) r (cloud s (h @ es)))"
  by (simp add: implements_def)

text \<open>A run after one that has succeeded changes nothing.\<close>

definition settled :: "server \<Rightarrow> disk_manager \<Rightarrow> 'a res vcd \<Rightarrow> bool" where
  "settled s dm m \<longleftrightarrow> (\<forall>env env' h. tidy s dm (cloud s h) \<longrightarrow> sat m env h (only_succeeds (\<lambda>r es x.
     guard_ok (cloud_truth s) h es \<longrightarrow> fine_reads dm es \<longrightarrow> sat m env' (h @ es) (\<lambda>r' es'.
       guard_ok (cloud_truth s) (h @ es) es' \<longrightarrow> fine_reads dm es' \<longrightarrow>
       cloud s (h @ es @ es') = cloud s (h @ es)))))"

text \<open>
  A call on the table: its run relates the tables before and after it (\<open>R\<close>), which keeps the
  table in order and the other disks as they are; when it has succeeded, it has nothing left to do.
\<close>

locale table_call =
  fixes s :: server and dm :: disk_manager and name :: string and m :: "'a res vcd"
    and R :: "cloud \<Rightarrow> 'a res outcome \<Rightarrow> cloud \<Rightarrow> bool"
  assumes runs: "well_configured dm \<Longrightarrow> plain_name name \<Longrightarrow> implements s dm m R"
    and order: "R c r c' \<Longrightarrow> tidy s dm c \<Longrightarrow> tidy s dm c'"
    and others: "R c r c' \<Longrightarrow> same_but [name] c c'"
    and settles: "R c (Done (Inr x)) c' \<Longrightarrow> tidy s dm c \<Longrightarrow> R c' r c'' \<Longrightarrow> c'' = c'"
begin

lemma keeps_order:
  assumes "well_configured dm" and "plain_name name" and "tidy s dm (cloud s h)"
  shows "sat m env h (\<lambda>r es. guard_ok (cloud_truth s) h es \<longrightarrow> fine_reads dm es \<longrightarrow>
    tidy s dm (cloud s (h @ es)) \<and> same_but [name] (cloud s h) (cloud s (h @ es)))"
  by (rule sat_mono [OF runs [OF assms(1,2), THEN implementsD, OF assms(3)]]) (use assms in \<open>auto intro: order others\<close>)

lemma repeated:
  assumes "well_configured dm" and "plain_name name"
  shows "settled s dm m"
  unfolding settled_def
proof (intro allI impI)
  fix env env' h
  assume tidy: "tidy s dm (cloud s h)"
  note run = runs [OF assms, THEN implementsD]
  show "sat m env h (only_succeeds (\<lambda>r es x. guard_ok (cloud_truth s) h es \<longrightarrow> fine_reads dm es \<longrightarrow>
    sat m env' (h @ es) (\<lambda>r' es'. guard_ok (cloud_truth s) (h @ es) es' \<longrightarrow> fine_reads dm es' \<longrightarrow>
      cloud s (h @ es @ es') = cloud s (h @ es))))"
  proof (rule sat_mono [OF run [OF tidy]], rule only_succeedsI, intro impI, goal_cases)
    case (1 r es x)
    then have first: "R (cloud s h) (Done (Inr x)) (cloud s (h @ es))" by simp
    then have "tidy s dm (cloud s (h @ es))" using order tidy by blast
    from run [OF this] show ?case
      by (rule sat_mono) (use settles [OF first tidy] in auto)
  qed
qed

end

text \<open>A call that implements one step of the abstract machine, which is done when it is done once.\<close>

locale table_step =
  fixes s :: server and dm :: disk_manager and name :: string and m :: "'a res vcd"
    and f :: "cloud \<Rightarrow> cloud option"
  assumes steps: "well_configured dm \<Longrightarrow> plain_name name \<Longrightarrow> implements s dm m (tries f)"
    and step_order: "f c = Some c' \<Longrightarrow> tidy s dm c \<Longrightarrow> tidy s dm c'"
    and step_others: "f c = Some c' \<Longrightarrow> same_but [name] c c'"
    and step_again: "f c = Some c' \<Longrightarrow> tidy s dm c \<Longrightarrow> f c' = Some c'"

sublocale table_step \<subseteq> table_call s dm name m "tries f"
proof
  show "implements s dm m (tries f)" if "well_configured dm" "plain_name name"
    using steps [OF that] .
  show "tidy s dm c'" if "tries f c r c'" "tidy s dm c" for r c c'
    using tidy_tries [OF that] step_order that(2) by blast
  show "same_but [name] c c'" if "tries f c r c'" for r c c'
    using that step_others by (auto simp: tries_def split: outcome.splits sum.splits)
  show "c'' = c'" if "tries f c (Done (Inr x)) c'" "tidy s dm c" "tries f c' r c''" for x c c' r c''
    using that step_again [of c c'] by (auto simp: tries_def split: outcome.splits sum.splits)
qed

context table_step begin

lemma step_done:
  assumes "well_configured dm" and "plain_name name" and "tidy s dm (cloud s h)"
    and "\<And>c'. f (cloud s h) = Some c' \<Longrightarrow> c' = c1"
  shows "sat m env h (only_succeeds (\<lambda>r es x. guard_ok (cloud_truth s) h es \<longrightarrow> fine_reads dm es \<longrightarrow>
    cloud s (h @ es) = c1 \<and> tidy s dm (cloud s (h @ es))))"
  by (rule sat_mono [OF implementsD [OF steps [OF assms(1,2)] assms(3)]], rule only_succeedsI)
    (use assms(3,4) step_order in auto)

end

section \<open>The handlers\<close>

lemma entry_named_change:
  assumes "\<And>e. entry_name (f e) = entry_name e"
  shows "entry_named name (change name f c) = map_option f (entry_named name c)"
  using assms by (induction c) (auto simp: entry_named_def change_def)

lemma entry_named_without: "entry_named name (without name c) = None"
  by (auto simp: entry_named_def without_def find_None_iff)

lemma change_again:
  assumes "\<And>e. entry_name (f e) = entry_name e" and "\<And>e. f (f e) = f e"
  shows "change name f (change name f c) = change name f c"
  using assms by (simp add: change_def)

lemma same_but_change: "(\<And>e. entry_name (f e) = entry_name e) \<Longrightarrow> same_but [name] c (change name f c)"
  by (induction c) (auto simp: same_but_def change_def)

lemma same_but_without: "same_but [name] c (without name c)"
  by (simp add: same_but_def without_def)

lemma abs_delete_step:
  "abs_delete name c = Some c' \<Longrightarrow> same_but [name] c c'"
  "abs_delete name c = Some c' \<Longrightarrow> abs_delete name c' = Some c'"
  by (auto simp: abs_delete_def entry_named_without same_but_without split: option.splits if_splits)

lemma abs_attach_step:
  "abs_attach name x c = Some c' \<Longrightarrow> same_but [name] c c'"
  "abs_attach name x c = Some c' \<Longrightarrow> abs_attach name x c' = Some c'"
  by (auto simp: abs_attach_def entry_named_change same_but_change split: option.splits if_splits)

lemma abs_detach_step:
  "abs_detach name x c = Some c' \<Longrightarrow> same_but [name] c c'"
  "abs_detach name x c = Some c' \<Longrightarrow> abs_detach name x c' = Some c'"
  by (auto simp: abs_detach_def same_but_change change_again)

lemma abs_resize_step:
  "abs_resize name sz c = Some c' \<Longrightarrow> same_but [name] c c'"
  "abs_resize name sz c = Some c' \<Longrightarrow> abs_resize name sz c' = Some c'"
  by (auto simp: abs_resize_def same_but_change change_again)

text \<open>The promise of each handler.\<close>

interpretation creation: table_call s "DiskManager cs" "crName p" "CreateVolume cs (Some p)"
    "creates (home_centers s (DiskManager cs)) p (wanted p)" for s cs p
proof
  let ?R = "creates (home_centers s (DiskManager cs)) p (wanted p)"
  show "implements s (DiskManager cs) (CreateVolume cs (Some p)) ?R"
    if "well_configured (DiskManager cs)" "plain_name (crName p)"
    using CreateVolume_cloud [OF _ that] by (simp add: implements_def)
  show "tidy s (DiskManager cs) c'" if "?R c r c'" "tidy s (DiskManager cs) c" for r c c'
    using that by (auto simp: creates_def intro: tidy_new)
  show "same_but [crName p] c c'" if "?R c r c'" for r c c'
    using that by (auto simp: creates_def abs_create_def same_but_def)
  show "c'' = c'" if "?R c (Done (Inr x)) c'" "?R c' r c''" for x c c' r c''
    using that named_inI by (fastforce simp: creates_def abs_create_def)
qed

interpretation removal: table_step s "DiskManager cs" name "DeleteVolume cs (Some name)" "abs_delete name" for s cs name
  by unfold_locales (auto simp: implements_def intro: tidy_ops abs_delete_step sat_mono [OF DeleteVolume_cloud])

interpretation publishing: table_step s "DiskManager cs" "prVolumeId q" "ControllerPublishVolume cs (Some q)"
    "abs_attach (prVolumeId q) (machineOf s (prNodeId q))" for s cs q
  by unfold_locales (auto simp: implements_def intro: tidy_ops abs_attach_step sat_mono [OF ControllerPublishVolume_cloud])

interpretation unpublishing: table_step s "DiskManager cs" "upVolumeId q" "ControllerUnpublishVolume cs (Some q)"
    "abs_detach (upVolumeId q) (machineOf s (upNodeId q))" for s cs q
  by unfold_locales (auto simp: implements_def intro: tidy_ops abs_detach_step sat_mono [OF ControllerUnpublishVolume_cloud])

text \<open>Without a capacity the expansion panics, or fails, before any request.\<close>

definition newSize :: "expand_request \<Rightarrow> int64" where
  "newSize q = (case exCapacityRange q of None \<Rightarrow> 0 | Some capacity \<Rightarrow> expandedSizeMb capacity)"

lemma expand_steps:
  assumes "tidy s (DiskManager cs) (cloud s h)"
  shows "sat (ControllerExpandVolume cs (Some q)) env h (\<lambda>r es. guard_ok (cloud_truth s) h es \<longrightarrow>
     tries (abs_resize (exVolumeId q) (newSize q)) (cloud s h) r (cloud s (h @ es)))"
proof (cases "exCapacityRange q")
  case None
  then show ?thesis by (simp add: ControllerExpandVolume_def wp)
next
  case (Some capacity)
  show ?thesis
    using ControllerExpandVolume_cloud [OF assms Some] by (simp add: newSize_def Some)
qed

interpretation expansion: table_step s "DiskManager cs" "exVolumeId q" "ControllerExpandVolume cs (Some q)"
    "abs_resize (exVolumeId q) (newSize q)" for s cs q
  by unfold_locales (auto simp: implements_def intro: tidy_ops abs_resize_step sat_mono [OF expand_steps])

section \<open>Sequences of calls\<close>

text \<open>The disk that a call is about.\<close>

fun named_by :: "controller_call \<Rightarrow> string list" where
  "named_by (CallCreate r) = (case r of None \<Rightarrow> [] | Some p \<Rightarrow> [crName p])"
| "named_by (CallDelete r) = (case r of None \<Rightarrow> [] | Some name \<Rightarrow> [name])"
| "named_by (CallPublish r) = (case r of None \<Rightarrow> [] | Some q \<Rightarrow> [prVolumeId q])"
| "named_by (CallUnpublish r) = (case r of None \<Rightarrow> [] | Some q \<Rightarrow> [upVolumeId q])"
| "named_by (CallExpand r) = (case r of None \<Rightarrow> [] | Some q \<Rightarrow> [exVolumeId q])"

lemma step_keeps_order:
  assumes "well_configured (DiskManager cs)" and "list_all plain_name (named_by c)"
    and "tidy s (DiskManager cs) (cloud s h)"
  shows "sat (controller_step cs c) env h (\<lambda>r es. guard_ok (cloud_truth s) h es \<longrightarrow>
    fine_reads (DiskManager cs) es \<longrightarrow> tidy s (DiskManager cs) (cloud s (h @ es)) \<and>
    same_but (named_by c) (cloud s h) (cloud s (h @ es)))"
proof -
  note none = CreateVolume_def [of cs None] DeleteVolume_def [of cs None] ControllerPublishVolume_def [of cs None]
    ControllerUnpublishVolume_def [of cs None] ControllerExpandVolume_def [of cs None]
  show ?thesis
    using assms
    by (cases c rule: named_by.cases; simp add: sat_bind sat_ret; split option.splits)
      (auto simp: none wp split: outcome.split intro!: sat_mono [OF creation.keeps_order]
        sat_mono [OF removal.keeps_order] sat_mono [OF publishing.keeps_order]
        sat_mono [OF unpublishing.keeps_order] sat_mono [OF expansion.keeps_order])
qed

text \<open>
  C8: on a server that answers truly, from a table in order, over any sequence of controller
  calls on plain names and whatever each of them answers: afterwards no two disks have the same
  name and every disk is in a data center of the cluster, and the disks that no call named are
  the same, with the same machines.
\<close>

theorem serve_keeps_order:
  assumes "well_configured (DiskManager cs)" and "list_all (\<lambda>c. list_all plain_name (named_by c)) calls"
    and "tidy s (DiskManager cs) (cloud s h)"
  shows "sat (serve cs calls) env h (\<lambda>r es. guard_ok (cloud_truth s) h es \<longrightarrow> fine_reads (DiskManager cs) es \<longrightarrow>
    tidy s (DiskManager cs) (cloud s (h @ es)) \<and> same_but (concat (map named_by calls)) (cloud s h) (cloud s (h @ es)))"
  using assms(2,3)
proof (induction calls arbitrary: h)
  case Nil
  then show ?case by (simp add: sat_ret)
next
  case (Cons c calls)
  have first: "sat (controller_step cs c) env h (\<lambda>r es. guard_ok (cloud_truth s) h es \<longrightarrow>
      fine_reads (DiskManager cs) es \<longrightarrow> tidy s (DiskManager cs) (cloud s (h @ es)) \<and>
      same_but (named_by c) (cloud s h) (cloud s (h @ es)))"
    using step_keeps_order [OF assms(1)] Cons.prems by simp
  have more: "same_but (named_by c @ ns) c1 c2" if "same_but (named_by c) c1 c2" for c1 c2 ns
    using same_but_mono [OF that] by simp
  have rest: "sat (serve cs calls) env (h @ es) (\<lambda>r' es'. guard_ok (cloud_truth s) h (es @ es') \<longrightarrow>
      fine_reads (DiskManager cs) (es @ es') \<longrightarrow> tidy s (DiskManager cs) (cloud s (h @ es @ es')) \<and>
      same_but (named_by c @ concat (map named_by calls)) (cloud s h) (cloud s (h @ es @ es')))"
    if "guard_ok (cloud_truth s) h es \<longrightarrow> fine_reads (DiskManager cs) es \<longrightarrow>
      tidy s (DiskManager cs) (cloud s (h @ es)) \<and> same_but (named_by c) (cloud s h) (cloud s (h @ es))" for es
  proof (cases "guard_ok (cloud_truth s) h es \<and> fine_reads (DiskManager cs) es")
    case True
    with that have step: "tidy s (DiskManager cs) (cloud s (h @ es))" "same_but (named_by c) (cloud s h) (cloud s (h @ es))"
      by simp_all
    have "list_all (\<lambda>c. list_all plain_name (named_by c)) calls" using Cons.prems(1) by simp
    from Cons.IH [OF this step(1)] show ?thesis
      by (rule sat_mono) (auto intro: same_but_trans [OF step(2)])
  next
    case False
    then show ?thesis by (auto simp: sat_True)
  qed
  show ?case
    unfolding serve.simps sat_bind
    by (rule sat_mono [OF first]) (auto split: outcome.split simp del: guard_ok_append fine_reads_simps(2) intro: more rest)
qed

section \<open>Refinement\<close>

text \<open>
  C2: on a server that answers truly, from a table in order, each call of the controller
  refines one operation on the table, whatever its environment: CreateVolume adds a disk with
  exactly what was asked for, under a name and links that no disk had, in a data center of the
  cluster, and answers only with a disk of that name that has it; DeleteVolume removes the disk
  of that name if no machine has it; ControllerPublishVolume gives it to the machine of the node
  if it has none or is shareable; ControllerUnpublishVolume takes it from the machine of the
  node; ControllerExpandVolume changes its size. A call that answers success has done its
  operation (nothing, when it was done before), and one that fails has done it or nothing.
\<close>

theorem controller_refines_cloud:
  assumes "well_configured (DiskManager cs)" and "plain_name (crName p)" and "plain_name name"
    and "plain_name (prVolumeId q)" and "plain_name (upVolumeId u)" and "plain_name (exVolumeId x)"
  shows "implements s (DiskManager cs) (CreateVolume cs (Some p))
      (creates (home_centers s (DiskManager cs)) p (wanted p)) \<and>
    implements s (DiskManager cs) (DeleteVolume cs (Some name)) (tries (abs_delete name)) \<and>
    implements s (DiskManager cs) (ControllerPublishVolume cs (Some q))
      (tries (abs_attach (prVolumeId q) (machineOf s (prNodeId q)))) \<and>
    implements s (DiskManager cs) (ControllerUnpublishVolume cs (Some u))
      (tries (abs_detach (upVolumeId u) (machineOf s (upNodeId u)))) \<and>
    implements s (DiskManager cs) (ControllerExpandVolume cs (Some x))
      (tries (abs_resize (exVolumeId x) (newSize x)))"
  using creation.runs removal.runs publishing.runs unpublishing.runs expansion.runs assms by simp

section \<open>Repeated calls\<close>

text \<open>
  C9: a call of the controller that is made again right after it answered success, with the
  same request, changes no disk and no machine, whatever it answers the second time; as CSI
  asks of calls that may be repeated.
\<close>

theorem repeated_calls_change_nothing:
  assumes "well_configured (DiskManager cs)" and "plain_name (crName p)" and "plain_name name"
    and "plain_name (prVolumeId q)" and "plain_name (upVolumeId u)" and "plain_name (exVolumeId x)"
  shows "settled s (DiskManager cs) (CreateVolume cs (Some p)) \<and>
    settled s (DiskManager cs) (DeleteVolume cs (Some name)) \<and>
    settled s (DiskManager cs) (ControllerPublishVolume cs (Some q)) \<and>
    settled s (DiskManager cs) (ControllerUnpublishVolume cs (Some u)) \<and>
    settled s (DiskManager cs) (ControllerExpandVolume cs (Some x))"
  using creation.repeated removal.repeated publishing.repeated unpublishing.repeated expansion.repeated assms
  by simp

section \<open>The life of a volume\<close>

text \<open>Created, published to a node, unpublished and deleted, each call with the volume that was created.\<close>

definition controller_life :: "controller_server \<Rightarrow> create_volume_request \<Rightarrow> publish_request \<Rightarrow> unit res vcd" where
  "controller_life cs p q =
     attempt (CreateVolume cs (Some p)) (\<lambda>e. fail e) (\<lambda>vol.
     attempt (ControllerPublishVolume cs (Some (q\<lparr>prVolumeId := VolumeId vol\<rparr>))) (\<lambda>e. fail e) (\<lambda>_.
     attempt (ControllerUnpublishVolume cs (Some \<lparr>upNodeId = prNodeId q, upVolumeId = VolumeId vol\<rparr>)) (\<lambda>e. fail e) (\<lambda>_.
     DeleteVolume cs (Some (VolumeId vol)))))"

lemma change_front:
  "\<not> named_in name c \<Longrightarrow> entry_name e = name \<Longrightarrow> change name f (e # c) = f e # c"
  using change_absent [of name c f] by (simp add: change_def)

lemma front_named: "entry_name e = name \<Longrightarrow> entry_named name (e # c) = Some e"
  by (simp add: entry_named_def)

lemma life_steps:
  assumes "\<not> named_in name c" and "entry_name e = name" and "machines e = []"
  shows "abs_attach name m (e # c) = Some c2 \<Longrightarrow> c2 = e\<lparr>machines := [m]\<rparr> # c"
    and "abs_detach name m (e\<lparr>machines := [m]\<rparr> # c) = Some c3 \<Longrightarrow> c3 = e # c"
    and "abs_delete name (e # c) = Some c4 \<Longrightarrow> c4 = c"
proof -
  have "e\<lparr>machines := []\<rparr> = e" using assms(3) by simp
  then show "abs_detach name m (e\<lparr>machines := [m]\<rparr> # c) = Some c3 \<Longrightarrow> c3 = e # c"
    using assms by (auto simp: abs_detach_def change_front)
  have "without name (e # c) = c" using without_absent [OF assms(1)] assms(2) by (simp add: without_def)
  then show "abs_delete name (e # c) = Some c4 \<Longrightarrow> c4 = c"
    using assms by (auto simp: abs_delete_def front_named)
qed (use assms in \<open>auto simp: abs_attach_def front_named change_front split: if_splits\<close>)

lemma created_entry:
  "creates home p P c (Done (Inr vol)) c' \<Longrightarrow> \<not> named_in (crName p) c \<Longrightarrow> VolumeId vol = crName p \<and>
    (\<exists>e. c' = e # c \<and> entry_name e = crName p \<and> machines e = [])"
  by (auto simp: creates_def abs_create_def dest: named_inI)

text \<open>One call after another that has succeeded, on a server that answers truly.\<close>

lemma attempt_trusting:
  assumes "sat m env h (only_succeeds (\<lambda>r es x. guard_ok G h es \<longrightarrow> fine_reads dm es \<longrightarrow> P x (h @ es)))"
    and "\<And>x es. P x (h @ es) \<Longrightarrow> sat (k x) env (h @ es) (only_succeeds (\<lambda>r es' y.
      guard_ok G (h @ es) es' \<longrightarrow> fine_reads dm es' \<longrightarrow> Q y (h @ es @ es')))"
  shows "sat (attempt m (\<lambda>e. fail e) k) env h (only_succeeds (\<lambda>r es y.
    guard_ok G h es \<longrightarrow> fine_reads dm es \<longrightarrow> Q y (h @ es)))"
proof (rule attempt_succeeds [OF assms(1)], goal_cases)
  case (1 x es)
  show ?case
  proof (cases "guard_ok G h es \<and> fine_reads dm es")
    case True
    then show ?thesis using 1 by (intro sat_mono [OF assms(2)]) (auto split: outcome.splits sum.splits)
  next
    case False
    then show ?thesis by (intro sat_mono [OF sat_True] only_succeedsI) auto
  qed
qed

lemma life_after_creation:
  assumes "well_configured (DiskManager cs)" and "plain_name name"
    and "tidy s (DiskManager cs) (cloud s h)" and "\<not> named_in name c"
    and "cloud s h = e # c" and "entry_name e = name" and "machines e = []"
  shows "sat (attempt (ControllerPublishVolume cs (Some (q\<lparr>prVolumeId := name\<rparr>))) (\<lambda>e. fail e) (\<lambda>_.
      attempt (ControllerUnpublishVolume cs (Some \<lparr>upNodeId = prNodeId q, upVolumeId = name\<rparr>)) (\<lambda>e. fail e)
        (\<lambda>_. DeleteVolume cs (Some name)))) env h (only_succeeds (\<lambda>r es _.
      guard_ok (cloud_truth s) h es \<longrightarrow> fine_reads (DiskManager cs) es \<longrightarrow> cloud s (h @ es) = c))"
proof -
  let ?dm = "DiskManager cs" and ?m = "machineOf s (prNodeId q)"
  let ?q = "q\<lparr>prVolumeId := name\<rparr>" and ?u = "\<lparr>upNodeId = prNodeId q, upVolumeId = name\<rparr>"
  note steps = life_steps [OF assms(4,6,7)]
  have publish: "sat (ControllerPublishVolume cs (Some ?q)) env h (only_succeeds (\<lambda>r es _.
      guard_ok (cloud_truth s) h es \<longrightarrow> fine_reads ?dm es \<longrightarrow>
      cloud s (h @ es) = e\<lparr>machines := [?m]\<rparr> # c \<and> tidy s ?dm (cloud s (h @ es))))"
    using publishing.step_done [OF assms(1) _ assms(3), of ?q] assms(2,5) steps(1) by simp
  have unpublish: "sat (ControllerUnpublishVolume cs (Some ?u)) env h2 (only_succeeds (\<lambda>r es _.
      guard_ok (cloud_truth s) h2 es \<longrightarrow> fine_reads ?dm es \<longrightarrow>
      cloud s (h2 @ es) = e # c \<and> tidy s ?dm (cloud s (h2 @ es))))"
    if "cloud s h2 = e\<lparr>machines := [?m]\<rparr> # c" "tidy s ?dm (cloud s h2)" for h2
    using unpublishing.step_done [OF assms(1), of ?u s h2 "e # c"] that assms(2) steps(2) by simp
  have delete: "sat (DeleteVolume cs (Some name)) env h3 (only_succeeds (\<lambda>r es _.
      guard_ok (cloud_truth s) h3 es \<longrightarrow> fine_reads ?dm es \<longrightarrow> cloud s (h3 @ es) = c))"
    if "cloud s h3 = e # c" "tidy s ?dm (cloud s h3)" for h3
    by (rule sat_mono [OF removal.step_done [OF assms(1,2), of s h3 c]], use that steps(3) in auto)
      (rule only_succeedsI, auto)
  show ?thesis
  proof (rule attempt_trusting [OF publish], elim conjE)
    fix y :: "(string \<times> string) list" and es
    assume "cloud s (h @ es) = e\<lparr>machines := [?m]\<rparr> # c" and "tidy s ?dm (cloud s (h @ es))"
    note unpublish = unpublish [OF this]
    show "sat (attempt (ControllerUnpublishVolume cs (Some ?u)) (\<lambda>e. fail e) (\<lambda>_. DeleteVolume cs (Some name)))
        env (h @ es) (only_succeeds (\<lambda>r es' _. guard_ok (cloud_truth s) (h @ es) es' \<longrightarrow> fine_reads ?dm es' \<longrightarrow>
          cloud s (h @ es @ es') = c))"
      unfolding append_assoc [symmetric]
      by (rule attempt_trusting [OF unpublish], elim conjE, drule (1) delete, simp only: append_assoc)
  qed
qed

text \<open>
  C10: on a server that answers truly, from a table in order without a disk of that name: a
  volume is created, published to a node, unpublished from it and deleted, every call answering
  success. At the end the disks and their machines are what they were.
\<close>

theorem controller_life_leaves_nothing:
  assumes "well_configured (DiskManager cs)" and "plain_name (crName p)"
    and "tidy s (DiskManager cs) (cloud s h)" and "\<not> named_in (crName p) (cloud s h)"
  shows "sat (controller_life cs p q) env h (only_succeeds (\<lambda>r es x.
    guard_ok (cloud_truth s) h es \<longrightarrow> fine_reads (DiskManager cs) es \<longrightarrow> cloud s (h @ es) = cloud s h))"
proof -
  have create: "sat (CreateVolume cs (Some p)) env h (only_succeeds (\<lambda>r es vol.
      guard_ok (cloud_truth s) h es \<longrightarrow> fine_reads (DiskManager cs) es \<longrightarrow>
      VolumeId vol = crName p \<and> tidy s (DiskManager cs) (cloud s (h @ es)) \<and>
      (\<exists>e. cloud s (h @ es) = e # cloud s h \<and> entry_name e = crName p \<and> machines e = [])))"
    by (rule sat_mono [OF implementsD [OF creation.runs [OF assms(1,2)] assms(3)]], rule only_succeedsI)
      (use assms(3) created_entry [OF _ assms(4)] creation.order in metis)
  show ?thesis
    unfolding controller_life_def
  proof (rule attempt_trusting [OF create], elim conjE exE, goal_cases)
    case (1 vol es e)
    show ?case
      unfolding 1(1) append_assoc [symmetric] by (rule life_after_creation [OF assms(1,2) 1(2) assms(4) 1(3-5)])
  qed
qed

end
