(* ===== verification/CloudExample.thy ===== *)
theory CloudExample
  imports CloudCalls
begin

text \<open>
  A server with one data center and one machine that answers truly, and the life of a volume on
  it: the properties of CloudCalls at a concrete input.
\<close>

definition server0 :: server where
  "server0 = \<lparr>atStart = [], centerOf = (\<lambda>_. ''ovdc''), placeOf = (\<lambda>_. ''ovdc''), machineOf = (\<lambda>_. ''vm1''),
     profileOf = (\<lambda>_. [])\<rparr>"

definition made_task :: task where
  "made_task = \<lparr>tHREF = ''task1'', tOwner = Some \<lparr>rHREF = ''href1'', rID = [], rType = [], rName = []\<rparr>\<rparr>"

definition vdc_with :: "cloud \<Rightarrow> vdc" where
  "vdc_with c = vdc0\<lparr>vLink := [add_link], vResourceEntities := [map (\<lambda>e. \<lparr>eHREF = dHREF (onServer e), eID = dId (onServer e),
     eType = MimeDisk, eName = entry_name e\<rparr>) c]\<rparr>"

definition life_env :: vcd_env where
  "life_env = (one_disk_env [])\<lparr>
     q_getVDC := (\<lambda>h _. Inr (vdc_with (cloud server0 h))),
     q_getVms := (\<lambda>h _. Inr (if machines (hd (cloud server0 h)) = [] then [] else [ref_vm1])),
     q_searchVM := (\<lambda>_ _ _ _. Inr vm1), q_attach := (\<lambda>_ _ _. Inr made_task),
     q_detach := (\<lambda>_ _ _. Inr made_task), q_deleteDisk := (\<lambda>_ _. Inr made_task),
     q_postDisk := (\<lambda>_ _ _. Inr (disk0\<lparr>dTasks := Some [made_task]\<rparr>)), q_waitTask := (\<lambda>_ _. Inr made_task)\<rparr>"

definition create0 :: create_volume_request where
  "create0 = \<lparr>crName = ''pvc1'', crVolumeCapabilities = [\<lparr>AccessMode = Some SINGLE_NODE_WRITER,
     AccessType = MountAccess ''ext4'' []\<rparr>], crCapacityRange = None, crParameters = []\<rparr>"

definition publish1q :: publish_request where
  "publish1q = \<lparr>prNodeId = ''node1'', prVolumeId = ''pvc1'', prVolumeCapability =
     Some \<lparr>AccessMode = Some SINGLE_NODE_WRITER, AccessType = MountAccess ''ext4'' []\<rparr>\<rparr>"

abbreviation entry1 :: "string list \<Rightarrow> entry" where
  "entry1 ms \<equiv> \<lparr>inCenter = ''ovdc'', onServer = disk0\<lparr>dTasks := Some [made_task]\<rparr>, machines = ms\<rparr>"

lemma life_env_simps:
  "q_refreshToken life_env h = Inr ()" "q_getVDC life_env h i = Inr (vdc_with (cloud server0 h))"
  "q_getVms life_env h l = Inr (if machines (hd (cloud server0 h)) = [] then [] else [ref_vm1])"
  "q_searchVM life_env h n a z = Inr vm1" "q_attach life_env h m x = Inr made_task"
  "q_detach life_env h m x = Inr made_task" "q_deleteDisk life_env h x = Inr made_task"
  "q_postDisk life_env h l p = Inr (disk0\<lparr>dTasks := Some [made_task]\<rparr>)"
  "q_waitTask life_env h t = Inr made_task" "q_getDisk life_env h i = Inr disk0" "q_rde life_env h = Inr ()"
  by (simp_all add: life_env_def one_disk_env_def down_env_def Let_def)

lemma disk0_parts:
  "dHREF disk0 = ''href1''" "dName disk0 = ''pvc1''" "dId disk0 = ''id1''" "\<not> dShareable disk0" "dTasks disk0 = None"
  "dStorageProfile disk0 = Some \<lparr>rHREF = ''sp'', rID = [], rType = [], rName = ''gold''\<rparr>"
  "removal_link disk0 = Some ''del1''" "dSizeMb disk0 = 1024" "dUUID disk0 = []"
  by (simp_all add: disk0_def zero_disk_def removal_link_def RelRemove_def)

lemma life_lookup:
  "cloud server0 h = [] \<Longrightarrow> sat (GetDiskByNameOrId dm0 ''pvc1'' None ''ovdc'') life_env h Q =
     Q (Done (Inl ErrorEntityNotFound)) [EvGetVDC ''ovdc'' (Inr (vdc_with []))]"
  "cloud server0 h = [entry1 ms] \<Longrightarrow> sat (GetDiskByNameOrId dm0 ''pvc1'' None ''ovdc'') life_env h Q =
     Q (Done (Inr disk0)) [EvGetVDC ''ovdc'' (Inr (vdc_with [entry1 ms])), EvGetDisk ''href1'' (Inr disk0)]"
proof -
  have plain: "\<not> isUrn ''pvc1''" "\<not> IsUuid ''pvc1''" by code_simp+
  note lookup = GetDiskByNameOrId_def searchClusterVDC_def govcdGetDisksByNameOrId_def
      getEntityByNameOrIdSkipNonId_def disks_getter_def govcdGetDisksByName_def
      wp life_env_simps vdc_with_def vdc0_def dm0_def disk0_parts
  show "cloud server0 h = [] \<Longrightarrow> sat (GetDiskByNameOrId dm0 ''pvc1'' None ''ovdc'') life_env h Q =
     Q (Done (Inl ErrorEntityNotFound)) [EvGetVDC ''ovdc'' (Inr (vdc_with []))]"
    using plain by (simp add: lookup)
  show "cloud server0 h = [entry1 ms] \<Longrightarrow> sat (GetDiskByNameOrId dm0 ''pvc1'' None ''ovdc'') life_env h Q =
     Q (Done (Inr disk0)) [EvGetVDC ''ovdc'' (Inr (vdc_with [entry1 ms])), EvGetDisk ''href1'' (Inr disk0)]"
    using plain by (simp add: lookup)
qed

definition create_events :: "vcd_event list" where
  "create_events = [EvRefreshToken (Inr ()), EvGetVDC ''ovdc'' (Inr (vdc_with [])), EvLock,
     EvGetVDC ''ovdc'' (Inr (vdc_with [])), EvRemoveError [] DiskQueryError [] ''pvc1'' (Inr ()),
     EvPostDisk add_link (newDiskParams ''pvc1'' 1024 VCDBusTypeSCSI VCDBusSubTypeVirtualSCSI [] False None)
       (Inr (disk0\<lparr>dTasks := Some [made_task]\<rparr>)), EvWaitTask made_task (Inr made_task), EvGetDisk ''href1'' (Inr disk0),
     EvAddEvent [] DiskCreateEvent [] ''pvc1'' [(''Detailed Info'', DText ''Successfully created disk'')] (Inr ()),
     EvUnlock, EvRemoveError [] DiskCreateError [] ''pvc1'' (Inr ())]"

definition volume0 :: volume where
  "volume0 = \<lparr>VolumeId = ''pvc1'', CapacityBytes = 1024 * MbToBytes,
     VolumeContext = volumeAttributes [] False disk0 \<lparr>rHREF = ''sp'', rID = [], rType = [], rName = ''gold''\<rparr>\<rparr>"

lemma size0: "requestedSizeMb None = 1024"
proof -
  have "sint (requestedSizeMb None) = sint (1024 :: int64)"
    by (simp add: requestedSizeMb_def mb_ceil_default)
  then show ?thesis by (rule signed_word_eqI)
qed

lemma create0_parts:
  "IsBlockVolume (crVolumeCapabilities create0) = ok False" "isDiskShareable (crVolumeCapabilities create0) = ret False"
  "crName create0 = ''pvc1''" "crVolumeCapabilities create0 \<noteq> []" "crCapacityRange create0 = None" "crParameters create0 = []"
  by (simp_all add: create0_def mode_defs GetBlock_def supported_mode_iff [unfolded mode_defs])

lemma answer_parts:
  "tOwner made_task = Some \<lparr>rHREF = ''href1'', rID = [], rType = [], rName = []\<rparr>"
  "lType add_link = MimeDiskCreateParams" "lRel add_link = RelAdd" "vLink (vdc_with c) = [add_link]"
  "vName (vdc_with c) = ''ovdc''" "Org dm0 = Some ''org''"
  by (simp_all add: dm0_def made_task_def add_link_def vdc_with_def vdc0_def)

lemma create_disk_run:
  assumes "cloud server0 h = []"
  shows "sat (CreateDisk dm0 ''pvc1'' (vdc_with []) 1024 VCDBusTypeSCSI VCDBusSubTypeVirtualSCSI [] [] False None) life_env h Q =
    Q (Done (Inr disk0)) (take 8 (drop 2 create_events))"
  using assms
  by (simp add: CreateDisk_def createNewDisk_def createAndRecord_def createDisk_def rdeEnabled_def govcdGetDiskByHref_def
      life_lookup cloud_more wp vcd_calls life_env_simps dm0_simps Let_def create_events_def disk0_parts answer_parts
      newDiskParams_def)

lemma create_run:
  "cloud server0 h = [] \<Longrightarrow> sat (CreateVolume cs0 (Some create0)) life_env h Q = Q (Done (Inr volume0)) create_events"
  by (simp add: CreateVolume_def create0_parts volumeVDC_def provision_def map_get_def create_disk_run cloud_more
      wp vcd_calls life_env_simps dm0_simps Let_def create_events_def volume0_def disk0_parts size0 answer_parts)

abbreviation lookup_events :: "string list \<Rightarrow> vcd_event list" where
  "lookup_events ms \<equiv> [EvGetVDC ''ovdc'' (Inr (vdc_with [entry1 ms])), EvGetDisk ''href1'' (Inr disk0)]"

definition publish_events0 :: "vcd_event list" where
  "publish_events0 = [EvRefreshToken (Inr ()), EvSearchVM ''node1'' ''vapp'' False (Inr vm1)] @ lookup_events [] @
     [EvRemoveError [] DiskQueryError [] ''pvc1'' (Inr ()), EvLock, EvGetVms vms0 (Inr []),
      EvAttach vm1 ''href1'' (Inr made_task), EvWaitTask made_task (Inr made_task), EvGetDisk ''href1'' (Inr disk0),
      EvAddEvent [] DiskAttachEvent [] ''pvc1''
        [(''Detailed Info'', DText ''Successfully attached volume to node'')] (Inr ()), EvUnlock,
      EvRemoveError [] DiskAttachError [] ''pvc1'' (Inr ())]"

definition context0 :: "(string \<times> string) list" where
  "context0 = [(VMFullNameAttribute, ''node1''), (DiskIDAttribute, ''pvc1''), (DiskUUIDAttribute, []),
     (FileSystemAttribute, ''ext4'')]"

lemma publish_run:
  assumes "cloud server0 h = [entry1 []]"
  shows "sat (ControllerPublishVolume cs0 (Some publish1q)) life_env h Q = Q (Done (Inr context0)) publish_events0"
  using assms
  by (simp add: ControllerPublishVolume_def publish1q_def attachToNode_def AttachVolume_def govcdRefresh_def
      life_lookup cloud_more wp vcd_calls life_env_simps dm0_simps Let_def publish_events0_def disk0_parts vms_link_disk0
      context0_def vm1_def)

definition unpublish_events0 :: "vcd_event list" where
  "unpublish_events0 = EvRefreshToken (Inr ()) # lookup_events [''vm1''] @
     [EvGetVms vms0 (Inr [ref_vm1]), EvSearchVM ''node1'' ''vapp'' False (Inr vm1), EvLock] @ lookup_events [''vm1''] @
     [EvGetVms vms0 (Inr [ref_vm1]), EvDetach vm1 ''href1'' (Inr made_task), EvWaitTask made_task (Inr made_task),
      EvAddEvent [] DiskDetachEvent [] ''pvc1''
        [(''Detailed Info'', DText ''Successfully detached volume from node'')] (Inr ()), EvUnlock,
      EvRemoveError [] DiskDetachError [] ''pvc1'' (Inr ())]"

lemma unpublish_run:
  assumes "cloud server0 h = [entry1 [''vm1'']]"
  shows "sat (ControllerUnpublishVolume cs0 (Some \<lparr>upNodeId = ''node1'', upVolumeId = ''pvc1''\<rparr>)) life_env h Q =
    Q (Done (Inr ())) unpublish_events0"
  using assms
  by (simp add: ControllerUnpublishVolume_def detachFromNode_def DetachVolume_def
      life_lookup cloud_more wp vcd_calls life_env_simps dm0_simps Let_def disk0_parts vms_link_disk0
      vm1_def ref_vm1_def unpublish_events0_def)

definition delete_events0 :: "vcd_event list" where
  "delete_events0 = [EvRefreshToken (Inr ()), EvLock] @ lookup_events [] @
     [EvGetVms vms0 (Inr []), EvGetVms vms0 (Inr []), EvDeleteDisk ''del1'' (Inr made_task),
      EvWaitTask made_task (Inr made_task), EvAddEvent [] DiskDeleteEvent [] ''pvc1''
        [(''Detailed Info'', DText ''Volume deleted successfully'')] (Inr ()), EvUnlock,
      EvRemoveError [] DiskDeleteError [] ''pvc1'' (Inr ())]"

lemma delete_run:
  assumes "cloud server0 h = [entry1 []]"
  shows "sat (DeleteVolume cs0 (Some ''pvc1'')) life_env h Q = Q (Done (Inr ())) delete_events0"
proof -
  have "List.find (\<lambda>l. lRel l = RelRemove) (dLink disk0) =
      Some \<lparr>lHREF = ''del1'', lID = [], lType = [], lName = [], lRel = RelRemove\<rparr>"
    by (simp add: disk0_def RelRemove_def)
  then show ?thesis
    using assms
    by (simp add: DeleteVolume_def DeleteDisk_def finishDelete_def govcdDelete_def
        life_lookup cloud_more wp vcd_calls life_env_simps dm0_simps Let_def disk0_parts vms_link_disk0
        rdeEnabled_def delete_events0_def)
qed

definition life_events :: "vcd_event list" where
  "life_events = create_events @ publish_events0 @ unpublish_events0 @ delete_events0"

lemma life_tables:
  "cloud server0 [] = []" "cloud server0 create_events = [entry1 []]"
  "cloud server0 (create_events @ publish_events0) = [entry1 [''vm1'']]"
  "cloud server0 (create_events @ publish_events0 @ unpublish_events0) = [entry1 []]"
  by (simp_all add: cloud_def server0_def create_events_def publish_events0_def unpublish_events0_def disk0_parts
      vm1_def ref_vm1_def)

lemma server0_simps:
  "centerOf server0 i = ''ovdc''" "placeOf server0 l = ''ovdc''" "machineOf server0 n = ''vm1''" "atStart server0 = []"
  by (simp_all add: server0_def)

lemma controller_life_run: "controller_life cs0 create0 publish1q life_env [] = (Done (Inr ()), life_events)"
proof (rule sat_exact [where m = "controller_life cs0 create0 publish1q"])
  have "publish1q\<lparr>prVolumeId := ''pvc1''\<rparr> = publish1q" "prNodeId publish1q = ''node1''" "VolumeId volume0 = ''pvc1''"
    by (simp_all add: publish1q_def volume0_def)
  then show "sat (controller_life cs0 create0 publish1q) life_env []
      (\<lambda>r es. r = Done (Inr ()) \<and> es = life_events)"
    by (simp add: controller_life_def wp create_run publish_run unpublish_run delete_run life_tables
        server0_simps life_events_def)
qed

lemma entry_lists:
  "lists server0 [] ''ovdc'' (vdc_with [])" "lists server0 [entry1 ms] ''ovdc'' (vdc_with [entry1 ms'])"
  by (simp_all add: lists_def creates_in_def disk_list_def answer_parts server0_simps) 
    (simp_all add: vdc_with_def)

lemma disk0_same: "same_disk (disk0\<lparr>dTasks := t\<rparr>) disk0"
  by (simp add: same_disk_def)

lemma disk0_made:
  "made server0 (newDiskParams ''pvc1'' 1024 VCDBusTypeSCSI VCDBusSubTypeVirtualSCSI [] False None) (disk0\<lparr>dTasks := t\<rparr>)"
  by (simp add: made_def newDiskParams_def disk0_def zero_disk_def)

text \<open>Each part of the life is true where it starts.\<close>

lemma parts_true:
  assumes "list_all (owns_task made_task made_task) h"
  shows "cloud server0 h = [] \<Longrightarrow> list_all (new_to (disk0\<lparr>dTasks := Some [made_task]\<rparr>)) h \<Longrightarrow>
      guard_ok (cloud_truth server0) h create_events"
    and "cloud server0 h = [entry1 []] \<Longrightarrow> guard_ok (cloud_truth server0) h publish_events0"
    and "cloud server0 h = [entry1 [''vm1'']] \<Longrightarrow> guard_ok (cloud_truth server0) h unpublish_events0"
    and "cloud server0 h = [entry1 []] \<Longrightarrow> guard_ok (cloud_truth server0) h delete_events0"
proof -
  have parts: "vms_link (disk0\<lparr>dTasks := t\<rparr>) = Some vms0" "mHREF vm1 = ''vm1''" "rHREF ref_vm1 = ''vm1''"
      "mVmSpecSection vm1 = None" for t
    using vms_link_disk0 by (simp_all add: vms_link_def vm1_def ref_vm1_def)
  note true = cloud_truth_def cloud_more server0_simps entry_lists disk0_same disk0_made disk0_parts answer_parts parts assms
  show "cloud server0 h = [] \<Longrightarrow> list_all (new_to (disk0\<lparr>dTasks := Some [made_task]\<rparr>)) h \<Longrightarrow>
      guard_ok (cloud_truth server0) h create_events"
    by (simp add: create_events_def true)
  show "cloud server0 h = [entry1 []] \<Longrightarrow> guard_ok (cloud_truth server0) h publish_events0"
    by (simp add: publish_events0_def true)
  show "cloud server0 h = [entry1 [''vm1'']] \<Longrightarrow> guard_ok (cloud_truth server0) h unpublish_events0"
    by (simp add: unpublish_events0_def true)
  show "cloud server0 h = [entry1 []] \<Longrightarrow> guard_ok (cloud_truth server0) h delete_events0"
    by (simp add: delete_events0_def true)
qed

lemma life_true: "guard_ok (cloud_truth server0) [] life_events"
proof -
  have "list_all (owns_task made_task made_task) create_events" "list_all (owns_task made_task made_task) publish_events0"
    "list_all (owns_task made_task made_task) unpublish_events0"
    by (simp_all add: create_events_def publish_events0_def unpublish_events0_def answer_parts disk0_parts)
  then show ?thesis
    using life_tables by (simp add: life_events_def parts_true server0_simps)
qed

section \<open>The properties on the example\<close>

lemma example_ok:
  "well_configured dm0" "plain_name ''pvc1''" "tidy server0 dm0 []" "tidy server0 dm0 [entry1 ms]" "fine_reads dm0 es"
proof -
  have "\<not> isUrn ''pvc1''" "\<not> IsUuid ''pvc1''" by code_simp+
  then show "plain_name ''pvc1''" by (simp add: plain_name_def)
  show "well_configured dm0" "tidy server0 dm0 []" "tidy server0 dm0 [entry1 ms]" "fine_reads dm0 es"
    by (simp_all add: well_configured_def zones_of_def dm0_def tidy_def cloud_ok_def home_defs server0_simps
        fine_reads_def)
qed

theorem controller_life_leaves_nothing_witness:
  "controller_life cs0 create0 publish1q life_env [] = (Done (Inr ()), life_events) \<and> cloud server0 life_events = []"
proof -
  have "sat (controller_life cs0 create0 publish1q) life_env [] (only_succeeds (\<lambda>r es x.
      guard_ok (cloud_truth server0) [] es \<longrightarrow> fine_reads (DiskManager cs0) es \<longrightarrow>
      cloud server0 ([] @ es) = cloud server0 []))"
    by (rule controller_life_leaves_nothing)
      (simp_all add: dm0_simps example_ok create0_parts server0_simps not_named_in)
  then show ?thesis
    by (simp add: sat_iff controller_life_run life_true dm0_simps example_ok server0_simps)
qed

definition life_calls :: "controller_call list" where
  "life_calls = [CallCreate (Some create0), CallPublish (Some publish1q)]"

lemma calls_run: "serve cs0 life_calls life_env [] = (Done (), create_events @ publish_events0)"
  by (rule sat_exact [where m = "serve cs0 life_calls"])
    (simp add: life_calls_def wp create_run publish_run life_tables server0_simps)

lemma calls_true: "guard_ok (cloud_truth server0) [] (create_events @ publish_events0)"
  using life_true by (simp add: life_events_def)

theorem serve_keeps_order_witness:
  "tidy server0 dm0 (cloud server0 (create_events @ publish_events0)) \<and>
   cloud server0 (create_events @ publish_events0) = [entry1 [''vm1'']]"
proof -
  have "sat (serve cs0 life_calls) life_env [] (\<lambda>r es. guard_ok (cloud_truth server0) [] es \<longrightarrow>
      fine_reads (DiskManager cs0) es \<longrightarrow> tidy server0 (DiskManager cs0) (cloud server0 ([] @ es)) \<and>
      same_but (concat (map named_by life_calls)) (cloud server0 []) (cloud server0 ([] @ es)))"
    by (rule serve_keeps_order)
      (simp_all add: dm0_simps example_ok life_calls_def create0_parts server0_simps publish1q_def)
  then show ?thesis
    using calls_true by (simp add: sat_iff calls_run dm0_simps example_ok life_tables)
qed

text \<open>The publish, and the same publish again.\<close>

definition again_events :: "vcd_event list" where
  "again_events = [EvRefreshToken (Inr ()), EvSearchVM ''node1'' ''vapp'' False (Inr vm1)] @ lookup_events [''vm1''] @
     [EvRemoveError [] DiskQueryError [] ''pvc1'' (Inr ()), EvLock, EvGetVms vms0 (Inr [ref_vm1]), EvUnlock,
      EvRemoveError [] DiskAttachError [] ''pvc1'' (Inr ())]"

lemma again_run:
  assumes "cloud server0 h = [entry1 [''vm1'']]"
  shows "sat (ControllerPublishVolume cs0 (Some publish1q)) life_env h Q = Q (Done (Inr context0)) again_events"
  using assms
  by (simp add: ControllerPublishVolume_def publish1q_def attachToNode_def AttachVolume_def
      life_lookup cloud_more wp vcd_calls life_env_simps dm0_simps Let_def again_events_def disk0_parts vms_link_disk0
      context0_def vm1_def ref_vm1_def)

lemma again_true: "guard_ok (cloud_truth server0) (create_events @ publish_events0) again_events"
proof -
  have parts: "vms_link (disk0\<lparr>dTasks := t\<rparr>) = Some vms0" "mHREF vm1 = ''vm1''" "rHREF ref_vm1 = ''vm1''"
      "mVmSpecSection vm1 = None" for t
    using vms_link_disk0 by (simp_all add: vms_link_def vm1_def ref_vm1_def)
  have "guard_ok (cloud_truth server0) h again_events" if "cloud server0 h = [entry1 [''vm1'']]" for h
    using that by (simp add: again_events_def cloud_truth_def cloud_more server0_simps entry_lists disk0_same parts disk0_parts)
  then show ?thesis using life_tables(3) by blast
qed

theorem repeated_calls_change_nothing_witness:
  "ControllerPublishVolume cs0 (Some publish1q) life_env (create_events @ publish_events0) =
     (Done (Inr context0), again_events) \<and>
   cloud server0 (create_events @ publish_events0 @ again_events) = cloud server0 (create_events @ publish_events0)"
proof -
  have first: "ControllerPublishVolume cs0 (Some publish1q) life_env create_events = (Done (Inr context0), publish_events0)"
    by (rule sat_exact [where m = "ControllerPublishVolume cs0 (Some publish1q)"]) (simp add: publish_run life_tables)
  have again: "ControllerPublishVolume cs0 (Some publish1q) life_env (create_events @ publish_events0) =
      (Done (Inr context0), again_events)"
    by (rule sat_exact [where m = "ControllerPublishVolume cs0 (Some publish1q)"]) (simp add: again_run life_tables)
  have "settled server0 dm0 (ControllerPublishVolume cs0 (Some publish1q))"
    using repeated_calls_change_nothing [of cs0 create0 "''pvc1''" publish1q "\<lparr>upNodeId = [], upVolumeId = ''pvc1''\<rparr>"
      "\<lparr>exVolumeId = ''pvc1'', exCapacityRange = None, exVolumeCapability = None\<rparr>" server0]
    by (simp add: dm0_simps example_ok create0_parts publish1q_def)
  then have "sat (ControllerPublishVolume cs0 (Some publish1q)) life_env create_events (only_succeeds (\<lambda>r es x.
      guard_ok (cloud_truth server0) create_events es \<longrightarrow> fine_reads dm0 es \<longrightarrow>
      sat (ControllerPublishVolume cs0 (Some publish1q)) life_env (create_events @ es) (\<lambda>r' es'.
        guard_ok (cloud_truth server0) (create_events @ es) es' \<longrightarrow> fine_reads dm0 es' \<longrightarrow>
        cloud server0 (create_events @ es @ es') = cloud server0 (create_events @ es))))"
    unfolding settled_def by (simp add: life_tables(2) example_ok(4) del: append_assoc)
  then show ?thesis
    using calls_true again_true by (simp add: sat_iff first again example_ok)
qed

theorem controller_refines_cloud_witness:
  "creates [''ovdc''] create0 (wanted create0) [] (Done (Inr volume0)) [entry1 []] \<and>
   tries (abs_attach ''pvc1'' ''vm1'') [entry1 []] (Done (Inr context0)) [entry1 [''vm1'']]"
proof -
  let ?u = "\<lparr>upNodeId = [], upVolumeId = ''pvc1''\<rparr>" and ?x = "\<lparr>exVolumeId = ''pvc1'', exCapacityRange = None,
    exVolumeCapability = None\<rparr>"
  have names: "prVolumeId publish1q = ''pvc1''" "prNodeId publish1q = ''node1''" by (simp_all add: publish1q_def)
  have calls: "implements server0 dm0 (CreateVolume cs0 (Some create0)) (creates [''ovdc''] create0 (wanted create0))"
    "implements server0 dm0 (ControllerPublishVolume cs0 (Some publish1q)) (tries (abs_attach ''pvc1'' ''vm1''))"
    using controller_refines_cloud [of cs0 create0 "''pvc1''" publish1q ?u ?x server0]
    by (simp_all add: dm0_simps example_ok create0_parts names home_defs zones_of_def server0_simps)
  have "tidy server0 dm0 (cloud server0 [])" "tidy server0 dm0 (cloud server0 create_events)"
    using example_ok(3,4) life_tables by simp_all
  then show ?thesis
    using implementsD [OF calls(1), of "[]" life_env] implementsD [OF calls(2), of create_events life_env] calls_true
    by (simp add: create_run publish_run life_tables server0_simps example_ok)
qed

end
