(* ===== verification/CloudRaces.thy ===== *)
theory CloudRaces
  imports RaceGuards CloudExample ConcurrentCalls
begin

text \<open>
  Controller calls that run at the same time, on the table of disks: whatever the interleaving,
  no two disks get the same name, also when several calls create a volume of one name at once.
  The lock makes the lookup and the request for the new disk one step for all other requests
  that add or remove disks; the updates that are made without the lock keep the names.
\<close>

section \<open>What identifies the disks\<close>

definition ident :: "entry \<Rightarrow> string \<times> string \<times> string \<times> string \<times> link list" where
  "ident e = (inCenter e, dHREF (onServer e), dId (onServer e), entry_name e, dLink (onServer e))"

lemma ident_iff: "ident e = ident e' \<longleftrightarrow> inCenter e = inCenter e' \<and> dHREF (onServer e) = dHREF (onServer e') \<and>
    dId (onServer e) = dId (onServer e') \<and> entry_name e = entry_name e' \<and> dLink (onServer e) = dLink (onServer e')"
  by (simp add: ident_def)

lemma ident_links: "ident e = ident e' \<Longrightarrow> removal_link (onServer e) = removal_link (onServer e')"
    "ident e = ident e' \<Longrightarrow> edit_link (onServer e) = edit_link (onServer e')"
  by (simp_all add: ident_iff removal_link_def edit_link_def)

lemma ident_apart: "ident x = ident x' \<Longrightarrow> ident y = ident y' \<Longrightarrow>
    apart (onServer x) (onServer y) = apart (onServer x') (onServer y')"
  using ident_links [of x x'] ident_links [of y y'] by (simp add: apart_def ident_iff)

lemma same_idents_map:
  assumes "map ident c = map ident c'" and "\<And>e e'. ident e = ident e' \<Longrightarrow> f e = f e'"
  shows "map f c = map f c'"
  using assms(1) by (induction c c' rule: list_induct2') (auto intro: assms(2))

lemma same_idents_filter:
  assumes "map ident c = map ident c'" and "\<And>e e'. ident e = ident e' \<Longrightarrow> P e = P e'"
  shows "map ident (filter P c) = map ident (filter P c')"
  using assms(1) by (induction c c' rule: list_induct2') (auto dest: assms(2))

lemma same_idents_sorted:
  assumes "map ident c = map ident c'"
  shows "sorted_wrt (\<lambda>e e'. apart (onServer e) (onServer e')) c = sorted_wrt (\<lambda>e e'. apart (onServer e) (onServer e')) c'"
proof -
  have len: "length c = length c'" and nth: "ident (c ! i) = ident (c' ! i)" if "i < length c" for i
    using assms that by (metis length_map, metis length_map nth_map)
  then show ?thesis
    using assms ident_apart [OF nth nth] map_eq_imp_length_eq [OF assms] by (auto simp: sorted_wrt_iff_nth_less)
qed

lemma same_idents_ok:
  assumes "map ident c = map ident c'"
  shows "cloud_ok c = cloud_ok c'"
proof -
  have "map entry_name c = map entry_name c'"
    by (rule same_idents_map [OF assms]) (simp add: ident_iff)
  then show ?thesis using same_idents_sorted [OF assms] by (simp add: cloud_ok_def)
qed

lemma same_idents_ex:
  assumes "map ident c = map ident c'" and "e \<in> set c"
  obtains e' where "e' \<in> set c'" "ident e' = ident e"
proof -
  have "ident e \<in> ident ` set c'" using arg_cong [OF assms(1), of set] assms(2) by auto
  then show thesis using that by auto
qed

lemma same_idents_lists:
  assumes "map ident c = map ident c'"
  shows "lists s c n v = lists s c' n v"
proof -
  have "map ident (filter (\<lambda>e. inCenter e = n) c) = map ident (filter (\<lambda>e. inCenter e = n) c')"
    by (rule same_idents_filter [OF assms]) (simp add: ident_iff)
  then have "map (\<lambda>e. (entry_name e, dHREF (onServer e))) (filter (\<lambda>e. inCenter e = n) c) =
      map (\<lambda>e. (entry_name e, dHREF (onServer e))) (filter (\<lambda>e. inCenter e = n) c')"
    by (rule same_idents_map) (simp add: ident_iff)
  then show ?thesis by (simp add: lists_def)
qed

lemma same_idents_tells:
  assumes "map ident c = map ident c'" and "tells s c e"
  shows "tells s c' e"
proof (cases e)
  case (EvGetVDC i r)
  then show ?thesis using assms(2) same_idents_lists [OF assms(1)] by (cases r) simp_all
next
  case (EvRefreshVDC n r)
  then show ?thesis using assms(2) same_idents_lists [OF assms(1)] by (cases r) simp_all
next
  case (EvGetDisk x r)
  have "map (\<lambda>e. dHREF (onServer e)) c = map (\<lambda>e. dHREF (onServer e)) c'"
    by (rule same_idents_map [OF assms(1)]) (simp add: ident_iff)
  from arg_cong [OF this, of set] show ?thesis
    using assms(2) EvGetDisk by (cases r) (auto simp: list_all_iff, metis (no_types, lifting) image_eqI imageE)
qed simp_all

section \<open>What requests keep\<close>

text \<open>The requests that add and remove disks, and the entries with the link of an update.\<close>

fun adds_removes :: "vcd_event \<Rightarrow> bool" where
  "adds_removes (EvPostDisk l p a) = True"
| "adds_removes (EvDeleteDisk x a) = True"
| "adds_removes _ = False"

fun same_name_put :: "cloud \<Rightarrow> vcd_event \<Rightarrow> bool" where
  "same_name_put c (EvPutDisk l u a) = list_all (\<lambda>e. edit_link (onServer e) = Some l \<longrightarrow> entry_name e = uName u) c"
| "same_name_put c _ = True"

lemma idents_kept:
  assumes "\<not> adds_removes e" and "same_name_put c e"
  shows "map ident (cloud_step s c e) = map ident c"
proof (cases e)
  case (EvPutDisk l u a)
  then show ?thesis using assms(2) by (cases a) (auto simp: list_all_iff ident_iff)
next
  case (EvAttach vm x a)
  then show ?thesis by (cases a) (auto simp: ident_iff)
next
  case (EvDetach vm x a)
  then show ?thesis by (cases a) (auto simp: ident_iff)
next
  case (EvUpdateDisks vm ss a)
  then show ?thesis by (cases a) (auto simp: ident_iff split: option.split)
qed (use assms(1) in simp_all)

text \<open>The disks that were read still have their names.\<close>

definition names_hold :: "vcd_event list \<Rightarrow> cloud \<Rightarrow> bool" where
  "names_hold es c \<longleftrightarrow> (\<forall>x d e. EvGetDisk x (Inr d) \<in> set es \<longrightarrow> e \<in> set c \<longrightarrow> edit_link d \<noteq> None \<longrightarrow>
     edit_link (onServer e) = edit_link d \<longrightarrow> entry_name e = dName d)"

text \<open>The invariant of the table in a history.\<close>

definition sound :: "server \<Rightarrow> disk_manager \<Rightarrow> vcd_event list \<Rightarrow> bool" where
  "sound s dm h \<longleftrightarrow> tidy s dm (cloud s h) \<and> names_hold h (cloud s h)"

lemma same_idents_names:
  assumes "map ident c = map ident c'" and "names_hold es c"
  shows "names_hold es c'"
  unfolding names_hold_def
proof (intro allI impI)
  fix x d e
  assume read: "EvGetDisk x (Inr d) \<in> set es" and e: "e \<in> set c'" and l: "edit_link d \<noteq> None"
    "edit_link (onServer e) = edit_link d"
  obtain e' where "e' \<in> set c" "ident e' = ident e"
    using same_idents_ex [OF assms(1) [symmetric] e] .
  then show "entry_name e = dName d"
    using assms(2) read l ident_links(2) [of e' e] unfolding names_hold_def by (metis ident_iff)
qed

lemma same_idents_tidy:
  assumes "map ident c = map ident c'" and "tidy s dm c"
  shows "tidy s dm c'"
proof -
  have "map inCenter c = map inCenter c'" by (rule same_idents_map [OF assms(1)]) (simp add: ident_iff)
  from arg_cong [OF this, of set] show ?thesis
    using assms(2) same_idents_ok [OF assms(1)] by (auto simp: tidy_def list_all_iff) (metis image_eqI imageE)
qed

text \<open>A new read is of a disk of the table.\<close>

lemma names_hold_read:
  assumes "names_hold h c" and "cloud_ok c" and "says s pre c e"
  shows "names_hold (h @ [e]) c"
proof -
  have "entry_name e' = dName d"
    if e: "e = EvGetDisk x (Inr d)" and e': "e' \<in> set c" "edit_link d \<noteq> None" "edit_link (onServer e') = edit_link d" for x d e'
  proof -
    obtain e0 where e0: "e0 \<in> set c" "same_disk (onServer e0) d" using assms(3) e by (auto simp: list_ex_iff)
    then have "edit_link (onServer e0) = edit_link (onServer e')" using same_disk_links(3) e'(3) by simp
    then have "e' = e0" using cloud_ok_apart [OF assms(2) e'(1) e0(1)] e'(2,3) by (auto simp: apart_def)
    then show ?thesis using e0(2) by (simp add: same_disk_def)
  qed
  then show ?thesis using assms(1) unfolding names_hold_def by auto
qed

lemma names_hold_subset: "names_hold es c \<Longrightarrow> set c' \<subseteq> set c \<Longrightarrow> names_hold es c'"
  unfolding names_hold_def by blast

lemma sound_kept:
  assumes "sound s dm h" and "cloud_truth s h e" and "\<not> adds_removes e" and "same_name_put (cloud s h) e"
  shows "sound s dm (h @ [e])"
proof -
  have ids: "map ident (cloud s h) = map ident (cloud s (h @ [e]))"
    using idents_kept [OF assms(3,4), of s] by simp
  have "names_hold (h @ [e]) (cloud s h)"
    using names_hold_read [of h "cloud s h" s h e] assms(1,2) by (simp add: sound_def tidy_def cloud_truth_def)
  then show ?thesis
    using assms(1) same_idents_names [OF ids] same_idents_tidy [OF ids] by (auto simp: sound_def)
qed

lemma sound_removed:
  assumes "sound s dm h" and "e = EvDeleteDisk x a"
  shows "sound s dm (h @ [e])"
proof -
  have "names_hold (h @ [e]) (cloud s h)" using assms by (auto simp: sound_def names_hold_def)
  moreover have "set (cloud s (h @ [e])) \<subseteq> set (cloud s h)" by (cases a) (auto simp: assms(2))
  moreover have "cloud_ok (cloud s (h @ [e]))"
    using assms(1) by (cases a) (auto simp: assms(2) sound_def tidy_def cloud_ok_def distinct_map_filter
        intro: sorted_wrt_filter)
  ultimately show ?thesis
    using assms(1) names_hold_subset by (auto simp: sound_def tidy_def list_all_iff)
qed

lemma sound_added:
  assumes "sound s dm h" and "cloud_truth s h (EvPostDisk l p a)" and "\<not> named_in (dName (pDisk p)) (cloud s h)"
    and "placeOf s l \<in> set (home_centers s dm)"
  shows "sound s dm (h @ [EvPostDisk l p a])"
proof (cases a)
  case (Inl e)
  then show ?thesis using assms(1) by (auto simp: sound_def names_hold_def)
next
  case (Inr d)
  then have d: "made s p d" "list_all (\<lambda>e. apart d (onServer e)) (cloud s h)" "list_all (new_to d) h"
    using assms(2) by (simp_all add: cloud_truth_def)
  have "names_hold h (cloud s (h @ [EvPostDisk l p a]))"
    using assms(1) d(3) by (auto simp: Inr sound_def names_hold_def list_all_iff apart_def)
  then have "names_hold (h @ [EvPostDisk l p a]) (cloud s (h @ [EvPostDisk l p a]))"
    by (auto simp: names_hold_def)
  moreover have "cloud_ok (cloud s (h @ [EvPostDisk l p a]))"
    using assms(1,3) d cloud_ok_new [of "cloud s h" "\<lparr>inCenter = placeOf s l, onServer = d, machines = []\<rparr>"]
    by (simp add: Inr sound_def tidy_def made_def)
  ultimately show ?thesis using assms(1,4) by (simp add: sound_def tidy_def Inr)
qed

section \<open>Critical sections\<close>

context lock_users
begin

text \<open>Since its last lock, a thread alone has made requests that need the lock.\<close>

lemma in_section:
  assumes "interleaved runs L" and "of_thread i L = b @ EvLock # qs" and "list_all no_write qs"
  obtains K M where "L = K @ (i, EvLock) # M" "of_thread i M = qs" "list_all (\<lambda>x. \<not> needs_lock (snd x)) M"
proof -
  obtain K M where L: "L = K @ (i, EvLock) # M" "of_thread i K = b" "of_thread i M = qs"
    using of_thread_split [OF assms(2)] by blast
  have "\<not> needs_lock f" if M: "M = M1 @ (j, f) # M2" for M1 j f M2
  proof
    assume f: "needs_lock f"
    have log: "interleaved runs ((K @ (i, EvLock) # M1) @ (j, f) # M2)" using assms(1) by (simp add: L(1) M)
    have holder: "holder (K @ (i, EvLock) # M1) = Some j" by (rule guarded_by_holder [OF log f])
    have "list_all (\<lambda>e. \<not> is_lock_event e) (of_thread i M1)"
      using assms(3) L(3) by (auto simp: M list_all_iff)
    then have "held (of_thread i (K @ (i, EvLock) # M1))" using held_section [of "of_thread i M1"] L(2) by simp
    then have "holder (K @ (i, EvLock) # M1) = Some i"
      using holder_held [OF interleaved_step(1) [OF log]] by simp
    then have "f \<in> set qs" using holder L(3) by (auto simp: M)
    then have "no_write f" using assms(3) by (simp add: list_all_iff)
    then show False using f by (cases f) simp_all
  qed
  then have "list_all (\<lambda>x. \<not> needs_lock (snd x)) M"
    unfolding list_all_iff by (metis prod.collapse split_list)
  with L that show thesis by blast
qed

end

lemma adds_removes_needs_lock: "adds_removes e \<Longrightarrow> needs_lock e"
  by (cases e) simp_all

lemma put_keeps_name:
  assumes "sound s dm h" and "race_guard dm pre e" and "set pre \<subseteq> set h"
  shows "same_name_put (cloud s h) e"
proof (cases e)
  case (EvPutDisk l u a)
  then obtain x d where "EvGetDisk x (Inr d) \<in> set h" "edit_link d = Some l" "uName u = dName d"
    using assms(2,3) by auto
  then show ?thesis
    using assms(1) by (auto simp: EvPutDisk sound_def names_hold_def list_all_iff)
qed simp_all

text \<open>What is true of an answer, wherever it is in a true history.\<close>

lemma truth_anywhere: "guard_ok (cloud_truth s) [] h \<Longrightarrow> e \<in> set h \<Longrightarrow> \<exists>pre c. says s pre c e"
  by (auto simp: guard_ok_split cloud_truth_def dest!: split_list) blast

lemma offered_home:
  assumes "guard_ok (cloud_truth s) [] h" and "set pre \<subseteq> set h" and "offered dm pre l"
  shows "placeOf s l \<in> set (home_centers s dm)"
proof -
  obtain i v where v: "i \<in> set (home_ids dm)" "EvGetVDC i (Inr v) \<in> set h"
      "l \<in> set (vLink v) \<or> (\<exists>n ref v'. EvFindProfile (vName v) n (Inr (ref, v')) \<in> set h \<and> l \<in> set (vLink v'))"
    using assms(2,3) unfolding offered_def by blast
  have center: "vName v = centerOf s i" "creates_in s v (vName v)"
    using truth_anywhere [OF assms(1) v(2)] by (auto simp: lists_def)
  have "placeOf s l = vName v"
    using v(3)
  proof
    assume "l \<in> set (vLink v)"
    then show ?thesis using center(2) by (simp add: creates_in_def list_all_iff)
  next
    assume "\<exists>n ref v'. EvFindProfile (vName v) n (Inr (ref, v')) \<in> set h \<and> l \<in> set (vLink v')"
    then show ?thesis using truth_anywhere [OF assms(1)] by (fastforce simp: creates_in_def list_all_iff)
  qed
  then show ?thesis using center(1) v(1) by (simp add: home_centers_def)
qed

text \<open>The logs of threads with the guard, up to a point.\<close>

definition sound_log :: "server \<Rightarrow> disk_manager \<Rightarrow> vcd_event log \<Rightarrow> bool" where
  "sound_log s dm L \<longleftrightarrow> (\<forall>K M. L = K @ M \<longrightarrow> sound s dm (history K))"

lemma sound_log_now: "sound_log s dm L \<Longrightarrow> sound s dm (history L)"
  by (simp add: sound_log_def)

lemma sound_log_snoc: "sound_log s dm (L @ [x]) \<longleftrightarrow> sound_log s dm L \<and> sound s dm (history (L @ [x]))"
proof -
  have "L @ [x] = K @ M \<longleftrightarrow> (\<exists>M'. M = M' @ [x] \<and> L = K @ M') \<or> M = [] \<and> K = L @ [x]" for K M
    by (cases M rule: rev_cases) auto
  then show ?thesis unfolding sound_log_def by (metis append_Nil2)
qed

lemma idents_along:
  assumes "sound_log s dm (K @ M)" and "list_all (\<lambda>x. \<not> needs_lock (snd x)) M"
    and "\<And>L j e L'. K @ M = L @ (j, e) # L' \<Longrightarrow> race_guard dm (of_thread j L) e"
  shows "map ident (cloud s (history (K @ M))) = map ident (cloud s (history K))"
  using assms
proof (induction M rule: rev_induct)
  case (snoc x M)
  obtain j e where x: "x = (j, e)" by fastforce
  have log: "sound_log s dm (K @ M)" "sound s dm (history (K @ M))"
    using snoc.prems(1) sound_log_snoc [of s dm "K @ M" x] sound_log_now [of s dm "K @ M"] by simp_all
  have "race_guard dm (of_thread j (K @ M)) e"
    using snoc.prems(3) [of "K @ M" j e "[]"] by (simp add: x)
  then have put: "same_name_put (cloud s (history (K @ M))) e"
    by (rule put_keeps_name [OF log(2)]) (auto simp: of_thread_def)
  have "\<not> adds_removes e" using snoc.prems(2) adds_removes_needs_lock by (auto simp: x)
  from idents_kept [OF this put, of s]
  have "map ident (cloud s (history (K @ M @ [x]))) = map ident (cloud s (history (K @ M)))"
    by (simp add: x cloud_more)
  also have "\<dots> = map ident (cloud s (history K))"
  proof (rule snoc.IH [OF log(1)])
    show "list_all (\<lambda>x. \<not> needs_lock (snd x)) M" using snoc.prems(2) by simp
    show "race_guard dm (of_thread j L) e" if "K @ M = L @ (j, e) # L'" for L j e L'
      using snoc.prems(3) [of L j e "L' @ [x]"] that by simp
  qed
  finally show ?case .
qed simp

section \<open>Names stay distinct\<close>

text \<open>What the section of a thread has shown, before all its other requests, still is so.\<close>

lemma free_in_section:
  assumes log: "interleaved (call_threads cs calls env) L" and truth: "guard_ok (cloud_truth s) [] (history L)"
    and fine: "fine_reads (DiskManager cs) (history L)" and sound: "sound_log s (DiskManager cs) L"
    and races: "\<And>j. guard_ok (race_guard (DiskManager cs)) [] (call_threads cs calls env j)"
    and known: "section_shows (DiskManager cs) name (of_thread i L)"
  shows "\<not> named_in name (cloud s (history L))"
proof -
  let ?dm = "DiskManager cs"
  obtain b qs as where thread: "of_thread i L = b @ EvLock # (qs @ as)" and quiet: "list_all no_write (qs @ as)"
      and shown: "absence_shown ?dm name qs"
    using known unfolding section_shows_def by blast
  obtain K M where L: "L = K @ (i, EvLock) # M" "of_thread i M = qs @ as" "list_all (\<lambda>x. \<not> needs_lock (snd x)) M"
    using service.in_section [OF log thread quiet] .
  have tells: "tells s (cloud s (history L)) e" and here: "e \<in> set (history L)" if e: "e \<in> set qs" for e
  proof -
    obtain p q where "qs @ as = p @ e # q" using e split_list by fastforce
    then obtain M1 M2 where M: "M = M1 @ (i, e) # M2" using of_thread_split [of i M p e q] L(2) by auto
    define L1 where "L1 = K @ (i, EvLock) # M1"
    have split: "L = L1 @ (i, e) # M2" by (simp add: L1_def L(1) M)
    then show "e \<in> set (history L)" by simp
    have "says s (history L1) (cloud s (history L1)) e" using truth by (simp add: split cloud_truth_def)
    then have first: "tells s (cloud s (history L1)) e" by (rule says_tells)
    have "map ident (cloud s (history (L1 @ (i, e) # M2))) = map ident (cloud s (history L1))"
    proof (rule idents_along)
      show "sound_log s ?dm (L1 @ (i, e) # M2)" using sound by (simp add: split)
      show "list_all (\<lambda>x. \<not> needs_lock (snd x)) ((i, e) # M2)" using L(3) by (simp add: M)
      show "race_guard ?dm (of_thread j A) f" if "L1 @ (i, e) # M2 = A @ (j, f) # B" for A j f B
        using interleaved_step(3) [OF log [unfolded split that] races] .
    qed
    then show "tells s (cloud s (history L)) e" using same_idents_tells [OF _ first] by (simp add: split)
  qed
  have "fine_reads ?dm qs" using fine here by (auto simp: fine_reads_def list_all_iff)
  then have "entry_name x \<noteq> name" if "x \<in> set (cloud s (history L))" for x
    using shown_absent [OF shown tells _ _ that] sound_log_now [OF sound] that
    by (auto simp: sound_def tidy_def list_all_iff)
  then show ?thesis by (simp add: not_named_in)
qed

lemma names_stay_sound:
  assumes "interleaved (call_threads cs calls env) L" and "guard_ok (cloud_truth s) [] (history L)"
    and "fine_reads (DiskManager cs) (history L)" and "tidy s (DiskManager cs) (atStart s)"
    and races: "\<And>j. guard_ok (race_guard (DiskManager cs)) [] (call_threads cs calls env j)"
  shows "sound_log s (DiskManager cs) L"
  using assms(1-3)
proof (induction rule: interleaved.induct)
  case nothing
  then show ?case using assms(4) by (simp add: sound_log_def sound_def names_hold_def)
next
  case (next_event L i e)
  let ?dm = "DiskManager cs"
  have step: "interleaved (call_threads cs calls env) (L @ (i, e) # [])"
    using next_event.hyps by (simp add: interleaved.next_event)
  have truth: "guard_ok (cloud_truth s) [] (history L)" "cloud_truth s (history L) e"
    and fine: "fine_reads ?dm (history L)" using next_event.prems by simp_all
  have log: "sound_log s ?dm L" by (rule next_event.IH [OF truth(1) fine])
  have guard: "race_guard ?dm (of_thread i L) e" by (rule interleaved_step(3) [OF step races])
  have mine: "set (of_thread i L) \<subseteq> set (history L)" by (auto simp: of_thread_def)
  note now = sound_log_now [OF log]
  have "sound s ?dm (history L @ [e])"
  proof (cases "adds_removes e")
    case False
    then show ?thesis using sound_kept [OF now truth(2)] put_keeps_name [OF now guard mine] by blast
  next
    case True
    then consider (add) l p a where "e = EvPostDisk l p a" | (remove) x a where "e = EvDeleteDisk x a"
      by (cases e) simp_all
    then show ?thesis
    proof cases
      case add
      then have known: "section_shows ?dm (dName (pDisk p)) (of_thread i L)" "offered ?dm (of_thread i L) l"
        using guard by simp_all
      show ?thesis
        using sound_added [OF now truth(2) [unfolded add]
            free_in_section [OF next_event.hyps(1) truth(1) fine log races known(1)]
            offered_home [OF truth(1) mine known(2)]] by (simp add: add)
    next
      case remove
      then show ?thesis using sound_removed [OF now] by blast
    qed
  qed
  then show ?case using log by (simp add: sound_log_snoc)
qed

text \<open>
  C3: controller calls that run at the same time in any interleaving, with a server that
  answers truly: whatever they create, delete, attach and expand, at each point no two disks
  of the table have one name, and each is in a data center of the cluster. In particular of
  calls at the same time that create one volume, at most one adds a disk: its lookup and its
  request are one step for the other calls, and a new size leaves the names as they are.
\<close>

theorem concurrent_names:
  assumes "interleaved (call_threads cs calls env) L" and "guard_ok (cloud_truth s) [] (history L)"
    and "fine_reads (DiskManager cs) (history L)" and "well_configured (DiskManager cs)"
    and "tidy s (DiskManager cs) (atStart s)"
    and "\<And>i. list_all (\<lambda>c. list_all plain_name (created_name c)) (calls i)"
  shows "distinct (map entry_name (cloud s (history L))) \<and> tidy s (DiskManager cs) (cloud s (history L))"
proof -
  have "sound_log s (DiskManager cs) L"
    by (rule names_stay_sound [OF assms(1-3,5) call_threads_keep [OF serve_race [OF assms(4,6)]]])
  then show ?thesis using sound_log_now by (auto simp: sound_def tidy_def cloud_ok_def)
qed

text \<open>
  Two calls that create the same volume: the second has read the data center before the first
  creates the disk, takes the lock after it, and finds the disk.
\<close>

definition late_env :: vcd_env where
  "late_env = life_env\<lparr>q_getVDC := (\<lambda>h _. Inr (vdc_with (if EvLock \<in> set h then [entry1 []] else [])))\<rparr>"

definition twin_env :: "nat \<Rightarrow> vcd_env" where
  "twin_env i = (if i = 0 then life_env else late_env)"

definition twin_calls :: "nat \<Rightarrow> controller_call list" where
  "twin_calls i = (if i < 2 then [CallCreate (Some create0)] else [])"

definition late_events :: "vcd_event list" where
  "late_events = [EvRefreshToken (Inr ()), EvGetVDC ''ovdc'' (Inr (vdc_with [])), EvLock] @ lookup_events [] @
     [EvRemoveError [] DiskQueryError [] ''pvc1'' (Inr ()), EvUnlock, EvRemoveError [] DiskCreateError [] ''pvc1'' (Inr ())]"

definition twin_log :: "vcd_event log" where
  "twin_log = map (Pair 1) (take 2 late_events) @ map (Pair 0) create_events @ map (Pair 1) (drop 2 late_events)"

lemma late_env_simps:
  "q_refreshToken late_env h = Inr ()" "q_rde late_env h = Inr ()" "q_getDisk late_env h i = Inr disk0"
  "q_getVDC late_env h i = Inr (vdc_with (if EvLock \<in> set h then [entry1 []] else []))"
  by (simp_all add: late_env_def life_env_simps)

lemma late_lookup:
  "EvLock \<in> set h \<Longrightarrow> sat (GetDiskByNameOrId dm0 ''pvc1'' None ''ovdc'') late_env h Q =
     Q (Done (Inr disk0)) (lookup_events [])"
proof -
  have "\<not> isUrn ''pvc1''" "\<not> IsUuid ''pvc1''" by code_simp+
  then show "EvLock \<in> set h \<Longrightarrow> sat (GetDiskByNameOrId dm0 ''pvc1'' None ''ovdc'') late_env h Q =
     Q (Done (Inr disk0)) (lookup_events [])"
    by (simp add: GetDiskByNameOrId_def searchClusterVDC_def govcdGetDisksByNameOrId_def
        getEntityByNameOrIdSkipNonId_def disks_getter_def govcdGetDisksByName_def wp late_env_simps vdc_with_def
        vdc0_def dm0_def disk0_parts)
qed

lemma late_create:
  "sat (CreateVolume cs0 (Some create0)) late_env [] Q = Q (Done (Inr volume0)) late_events"
proof -
  have "checkExistingDisk disk0 1024 VCDBusTypeSCSI VCDBusSubTypeVirtualSCSI [] False = ok disk0"
    by (simp add: checkExistingDisk_def disk0_def zero_disk_def)
  then show ?thesis
    by (simp add: CreateVolume_def create0_parts volumeVDC_def provision_def map_get_def CreateDisk_def late_lookup
        wp vcd_calls late_env_simps dm0_simps Let_def late_events_def volume0_def disk0_parts size0 answer_parts)
qed

lemma twin_threads:
  "call_threads cs0 twin_calls twin_env 0 = create_events" "call_threads cs0 twin_calls twin_env 1 = late_events"
proof -
  have "sat (serve cs0 [CallCreate (Some create0)]) life_env [] (\<lambda>r es. es = create_events)"
    "sat (serve cs0 [CallCreate (Some create0)]) late_env [] (\<lambda>r es. es = late_events)"
    by (simp_all add: wp create_run late_create server0_simps)
  then show "call_threads cs0 twin_calls twin_env 0 = create_events" "call_threads cs0 twin_calls twin_env 1 = late_events"
    by (simp_all add: call_threads_def twin_calls_def twin_env_def sat_iff)
qed

lemma twin_runs: "interleaved (call_threads cs0 twin_calls twin_env) twin_log"
proof -
  have "goes_on (call_threads cs0 twin_calls twin_env) [] twin_log"
    by (simp add: twin_log_def twin_threads twin_threads(2) [unfolded One_nat_def] create_events_def late_events_def holder_def)
  then show ?thesis using interleaved_goes_on [OF interleaved.nothing] by fastforce
qed

lemma twin_history: "history twin_log = take 2 late_events @ create_events @ drop 2 late_events"
  by (simp add: twin_log_def)

lemma twin_true: "guard_ok (cloud_truth server0) [] (history twin_log)"
proof -
  have first: "cloud server0 (take 2 late_events) = []" "cloud server0 (take 2 late_events @ create_events) = [entry1 []]"
    by (simp_all add: late_events_def create_events_def cloud_def server0_simps)
  have here: "guard_ok (cloud_truth server0) [] (take 2 late_events)"
    by (simp add: late_events_def cloud_truth_def cloud_def server0_simps entry_lists)
  have create: "guard_ok (cloud_truth server0) (take 2 late_events) create_events"
    by (rule parts_true(1) [OF _ first(1)]) (simp_all add: late_events_def)
  have "guard_ok (cloud_truth server0) h (drop 2 late_events)" if "cloud server0 h = [entry1 []]" for h
    using that by (simp add: late_events_def cloud_truth_def cloud_more server0_simps entry_lists disk0_same disk0_parts)
  then show ?thesis using here create first(2) by (simp add: twin_history)
qed

theorem concurrent_names_witness:
  "tidy server0 dm0 (cloud server0 (history twin_log)) \<and> cloud server0 (history twin_log) = [entry1 []] \<and>
   of_thread 0 twin_log = create_events \<and> of_thread 1 twin_log = late_events"
proof -
  have "tidy server0 (DiskManager cs0) (cloud server0 (history twin_log))"
    by (rule concurrent_names [OF twin_runs twin_true, THEN conjunct2])
      (simp_all add: dm0_simps example_ok server0_simps twin_calls_def create0_parts)
  moreover have "cloud server0 (history twin_log) = [entry1 []]"
    by (simp add: twin_history late_events_def create_events_def cloud_def server0_simps)
  moreover have "of_thread 0 twin_log = create_events" "of_thread 1 twin_log = late_events"
    by (simp_all add: twin_log_def del: take_append drop_append)
  ultimately show ?thesis by (simp add: dm0_simps)
qed

end
