(* ===== verification/StatusCodes.thy ===== *)
theory StatusCodes
  imports ControllerSpec
begin

text \<open>
  The status codes that the controller answers errors with. The callers of CSI decide by the
  code what to do; an error without a status reaches them as Unknown.
\<close>

section \<open>Codes\<close>

fun status_code :: "goerr \<Rightarrow> code option" where
  "status_code (StatusError c msg es) = Some c"
| "status_code _ = None"

lemma plain_no_code: "plain_error e \<Longrightarrow> status_code e = None"
  by (cases e) simp_all

lemma errors_with_token:
  "(\<And>es. P (Errorf ''error while obtaining access token'' es)) \<Longrightarrow> errors_are P m \<Longrightarrow> errors_are P (with_token m)"
  unfolding with_token_def by (auto intro!: errors_rules)

lemma errors_parts:
  "errors_are (\<lambda>e. status_code e = Some Internal) (searchNodeVM cs n)"
  "errors_are plain_error (IsBlockVolume caps)"
  "errors_are (\<lambda>e. status_code e = Some InvalidArgument) (volumeVDC dm params)"
  "errors_are (\<lambda>e. status_code e = None) (provision cs p b s v)"
  unfolding searchNodeVM_def volumeVDC_def provision_def Let_def
  by (induction caps) (auto intro!: errors_rules split: option.split)

lemma errors_attachToNode:
  "errors_are (\<lambda>e. status_code e \<in> {None, Some Internal}) (attachToNode cs n v f)"
  unfolding attachToNode_def Let_def
  by (rule errors_of_attempt [OF errors_parts(1)], rule errors_rules(2), simp, rule errors_rules(4),
      rule errors_rules(5), rule errors_rules(2), simp, rule errors_rules(5),
      rule errors_of_attempt [OF plain_operations(3)])
    (auto intro!: errors_rules simp: plain_no_code plain_not_missing)

lemma errors_detachFromNode:
  "errors_are (\<lambda>e. status_code e \<in> {None, Some Internal}) (detachFromNode cs n v)"
  unfolding detachFromNode_def Let_def
  by (rule errors_of_attempt [OF errors_parts(1)], rule errors_rules(2), simp,
      rule errors_of_attempt [OF plain_operations(4)])
    (auto intro!: errors_rules simp: plain_no_code plain_not_missing)

lemma errors_expand:
  "errors_are (\<lambda>e. status_code e \<in> {Some Internal, Some FailedPrecondition}) (expandOffline dm d vms sz)"
  "errors_are (\<lambda>e. status_code e \<in> {Some Internal, Some FailedPrecondition}) (expandOnline cs d vms sz)"
  "errors_are (\<lambda>e. status_code e \<in> {Some InvalidArgument, Some Internal, Some FailedPrecondition})
     (expandDisk cs capacity v mode d)"
proof -
  show off: "errors_are (\<lambda>e. status_code e \<in> {Some Internal, Some FailedPrecondition}) (expandOffline dm d vms sz)"
    for dm d vms sz
    unfolding expandOffline_def by (auto intro!: errors_rules)
  show on: "errors_are (\<lambda>e. status_code e \<in> {Some Internal, Some FailedPrecondition}) (expandOnline cs d vms sz)"
    for d vms sz
    unfolding expandOnline_def
    by (cases vms rule: remdups_adj.cases) (auto intro!: errors_rules errors_of_attempt [OF errors_parts(1)])
  show "errors_are (\<lambda>e. status_code e \<in> {Some InvalidArgument, Some Internal, Some FailedPrecondition})
     (expandDisk cs capacity v mode d)"
    unfolding expandDisk_def Let_def
    by (auto intro!: errors_rules errors_are_mono [OF off] errors_are_mono [OF on] split: expansion.split)
qed

section \<open>The handlers\<close>

text \<open>
  C11: the codes of the controller's errors, in every environment. CreateVolume answers with
  InvalidArgument or without a status, DeleteVolume and ControllerPublishVolume also with
  Internal, ControllerExpandVolume also with FailedPrecondition. None of them answers NotFound,
  whatever the server says: what the operations return is quoted in a new error, so the tests
  for a missing entity that come after them never hold. ControllerUnpublishVolume answers
  NotFound only when the lookup failed for another reason than a missing disk.
\<close>

theorem handler_codes:
  "errors_are (\<lambda>e. status_code e \<in> {None, Some InvalidArgument}) (CreateVolume cs p) \<and>
   errors_are (\<lambda>e. status_code e \<in> {None, Some InvalidArgument, Some Internal}) (DeleteVolume cs name) \<and>
   errors_are (\<lambda>e. status_code e \<in> {None, Some InvalidArgument, Some Internal}) (ControllerPublishVolume cs q) \<and>
   errors_are (\<lambda>e. status_code e \<in> {None, Some InvalidArgument, Some Internal} \<or>
      (\<exists>msg er. e = StatusError NotFound msg [er] \<and> \<not> errors_Is_NotFound er)) (ControllerUnpublishVolume cs u) \<and>
   errors_are (\<lambda>e. status_code e \<in> {None, Some InvalidArgument, Some Internal, Some FailedPrecondition})
     (ControllerExpandVolume cs x)"
proof (intro conjI)
  show "errors_are (\<lambda>e. status_code e \<in> {None, Some InvalidArgument}) (CreateVolume cs p)"
    unfolding CreateVolume_def
    by (auto intro!: errors_with_token errors_rules errors_of_attempt [OF errors_parts(3)]
        errors_are_mono [OF errors_parts(4)] split: option.split)
  show "errors_are (\<lambda>e. status_code e \<in> {None, Some InvalidArgument, Some Internal}) (DeleteVolume cs name)"
    unfolding DeleteVolume_def by (auto intro!: errors_rules errors_with_token)
  show "errors_are (\<lambda>e. status_code e \<in> {None, Some InvalidArgument, Some Internal}) (ControllerPublishVolume cs q)"
    unfolding ControllerPublishVolume_def
    by (auto intro!: errors_rules errors_with_token errors_are_mono [OF errors_attachToNode] split: access_type.split)
  show "errors_are (\<lambda>e. status_code e \<in> {None, Some InvalidArgument, Some Internal} \<or>
      (\<exists>msg er. e = StatusError NotFound msg [er] \<and> \<not> errors_Is_NotFound er)) (ControllerUnpublishVolume cs u)"
    unfolding ControllerUnpublishVolume_def Let_def
    by (auto intro!: errors_rules errors_with_token errors_are_mono [OF errors_detachFromNode])
  show "errors_are (\<lambda>e. status_code e \<in> {None, Some InvalidArgument, Some Internal, Some FailedPrecondition})
     (ControllerExpandVolume cs x)"
    unfolding ControllerExpandVolume_def Let_def
    by (auto intro!: errors_rules errors_with_token errors_are_mono [OF errors_expand(3)])
qed

end
