(* ===== verification/Spec2Isabelle.thy ===== *)
theory Spec2Isabelle
  imports ConcurrentRde AttachmentMachine ConcurrentNode MountPublish Command CloudRaces StatusCodes
begin

text \<open>
  The CSI driver for named independent disks of VMware Cloud Director: a controller service
  that creates, attaches, expands and deletes disks through the cloud's API, a node service
  that finds, formats and mounts them on the hosts, and the command that starts both.

  Parts of the program and the theories that model them.
    Types (pkg/vcdtypes, and the types of the vendored SDK that the code reads): VcdTypes.
    The cloud (govcd, the REST API, the RDE manager of vcdsdk): VcdApi. It is not modelled but
      asked: each call is answered by an environment, from the history of calls made so far.
    Disk lookup (disks.go, first third): DiskLookup.
    Disk operations (disks.go: create, update, delete, attach, detach, refresh): DiskOps.
    What encoding/json and the JSON-to-map step of the entity do to a value: GoJson.
    The cluster's runtime-defined entity, its status and its JSON (defined_entity_util.go):
      RdeStatus. The update loops on it (disks.go, second half): RdeSync, RdeLoops.
    CSI messages and the driver record (pkg/csi/driver.go, first half): CsiTypes.
    Controller service (pkg/csi/controller.go): Controller, ControllerSpec, Attachment, and
      the status codes of its errors: StatusCodes.
    The disks of the cloud as a table, which the controller's calls change: CloudTable (the
      table and when an answer is true of it), CloudLookup (disks.go's lookup on it), CloudOps
      (its operations), CloudService (the handlers), CloudCalls (sequences of calls),
      CloudExample (a server with one data center), RaceGuards and CloudRaces (calls that run
      at the same time).
    Requests that run at the same time, and the lock between them: Concurrency (any threads),
      ConcurrentCalls (the requests of the service), AttachmentMachine (their abstract machine),
      ConcurrentRde (several processes that change the entity), ConcurrentNode (the requests of
      the node service, which has no lock).
    The host (files, walks, mounts, scsi_id; gofsutil and mount-utils): HostApi, asked like
      the cloud. Path functions of the standard library are written out there.
    Node service (pkg/csi/node.go) and mount options (pkg/util/util.go): Node, NodeSpec,
      NodeSequences, NodeExtras; the table of mounts of the host: MountTable, MountPublish.
    Endpoint parser (pkg/util/util.go): Util. Configuration (pkg/config): Config.
    Set-up, start and identity service (pkg/csi/driver.go, identity.go): Driver.
    The command (cmd/csi/main.go): Command.
    Prelude has what all share, GoStrings and GoInts the strings and numbers of Go.

  How code becomes definitions. A function that calls the outside is a computation: given an
  environment and a history it has an outcome (a value or a panic) and the list of its calls
  with their answers. A Go error is the left side of a sum, a nil pointer is None, a panic is
  an outcome of its own, so every return, error and nil dereference of the source is a branch.
  Machine integers are 64-bit words, and the conversion to float64 is rounded as IEEE says. A
  mutex is a pair of events with a deferred unlock. A range over a map takes an order that the
  environment picks. Each definition has the name of the Go function it stands for; where one
  function is long, its parts are definitions of their own and the function composes them.

  What the lemmas show. The weakest-precondition equations of Prelude (wp) compute the runs of
  a computation; facts about every event (emits, trace_rules) and about what precedes an event
  (keeps, keeps_rules) are proved along its structure. On these rest, in this order: the story
  of each disk operation in every environment; that every write is made under the lock, with a
  valid token and after the check it needs on a disk that was read (locales locked_operation,
  whose start names the histories an operation relies on, and safe_operation, interpreted for
  every operation and handler); what each handler has done when it answers
  success; that over any sequence of calls a disk that is not shareable never has two machines
  and a device is never staged on two directories, for servers and hosts that answer truly
  (guards of histories, ledger_exclusive); that the update loops are optimistic, with one
  contract for the four of them (locale cas_loop: each write is related by read_guard to the
  last read and to what was read since, so the content of an upgrade is that of the disks that
  were looked up for the old IDs); that lookups find what is there (locale
  disk_finder); that staging, publishing and their reverses refine an abstract machine on a
  table of mounts, for every kernel (which file systems are there at the start, how a source is
  listed, what a failed mount leaves), and that the life of a volume on a node leaves the table
  as it was; that
  requests which run at the same time, with a scheduler that honours the lock, keep what holds
  for sequences of calls, refine a machine on attachments, and all return (locale lock_users);
  that the controller's calls refine operations on a table of disks (locales table_call and
  table_step, one interpretation for each handler; the lookup is one of locale disk_directory):
  each adds, removes, attaches, detaches or resizes one disk or does nothing, the table stays in
  order, the other disks stay as they are, a repeated call changes nothing, the life of a volume
  leaves the table as it was, and names stay distinct for calls that run at the same time; which
  status codes each handler can answer with (errors_are, errors_rules along the structure);
  that no update of the entity is lost when several processes write it; that the status of the
  CSI section survives encoding and decoding but for what JSON cannot keep (as_json); that the command runs
  the driver only with its flags set, and the start of the driver is in order and its wait for
  credentials ends. This theory adds
  the properties across controller and node: the device that is staged is the disk that was
  attached, and the file system is the one chosen at creation.

  Bounds. The update loops make at most ten rounds, the limit of the SDK; the model has the
  same number and no fuel. The wait for credentials is endless in the code: the model counts
  attempts, the properties hold for every number of them, and authorizationLoop_returns says
  which number is enough. All other recursion is over the data.

  What is simplified. Log lines are left out, with the dereferences in them kept. Texts of
  errors are cut to a label, with the errors they quote; an error that is wrapped and one that
  is quoted are told apart, because errors.Is sees only the first. White space and letter case
  are those of ASCII. A directory walk is answered at once. JSON is a tree of values and not
  a text: encoding replaces what is not UTF-8 in strings, turns typed slices, maps and structs
  into untyped ones and orders keys, and decoding matches field names exactly; a time is encoded
  by an argument of the conversions, which may fail. A log of requests that run at the same time is a shuffle
  of what each of them does, or has done so far, each thread with the answers of an environment
  of its own; between threads the lock is the only order. The node service takes none: its
  calls are shuffled freely, and a device is staged once when the calls that stage it do not
  overlap, as CSI asks; what refines the table of mounts is stated for calls that follow one
  another. Memory that threads share, the client with its token, is changed
  only in the answers.

  For the table of disks, an accepted request takes effect at once, also when the task that it
  started fails or is not waited for; the server answers truly (cloud_truth, a guard on the
  history: what it says about disks, lists and machines is so at that moment, and no link or
  HREF is given out twice) and is otherwise arbitrary, so every request may fail. The
  properties there are about names that are neither URNs nor UUIDs (plain_name), a disk manager
  that has zones exactly when its cluster has (well_configured) and, over zones, histories
  without a failed read (fine_reads), since the code takes every failed read of a data center
  for an absence: DeleteDisk_unreachable_zones shows what happens without that.

  Not modelled: the parser of the command line (pflag; main's flags and what it does with their
  values are modelled, the parser is asked) and the copying of glog's flags, the gRPC server and
  its logging interceptor, the version variable that the linker sets (an answer of the environment),
  prettyDisk, which formats a log line, and AddrOf, which takes an address; the vendored
  libraries, apart from five small functions of vcdsdk that the driver decides by; tests,
  manifests and build files.
\<close>

section \<open>From the controller to the node\<close>


text \<open>
  The two halves of an attachment: the disk was attached by the controller, and the node found
  its device by the UUID that the controller read after the attach.
\<close>

definition attached_and_found :: "vcd_event list \<Rightarrow> host_event list \<Rightarrow> bool" where
  "attached_and_found es es' \<longleftrightarrow> (\<exists>vm d d' pre as post dev ps ms. es = pre @ as @ post \<and>
     attached vm d d' as \<and> es' = ps @ ms \<and> prepared (dUUID d') dev ps)"

lemma published_parts:
  assumes "published cs node name fs ctx es"
  obtains vm d d' pre as post where "es = pre @ as @ post" "attached vm d d' as"
    "map_of ctx DiskUUIDAttribute = Some (dUUID d')"
proof -
  from assms obtain vm d d' qs as a b where
      es: "es = EvSearchVM node (VAppName cs) (IsZoneEnabledCluster (DiskManager cs)) (Inr vm) # qs @ a # as @ [b]"
      and as: "attached vm d d' as" and ctx: "ctx = [(VMFullNameAttribute, mName vm), (DiskIDAttribute, name),
         (DiskUUIDAttribute, dUUID d'), (FileSystemAttribute, fs)]"
    unfolding published_def by blast
  have "map_of ctx DiskUUIDAttribute = Some (dUUID d')"
    by (simp add: ctx VMFullNameAttribute_def DiskIDAttribute_def DiskUUIDAttribute_def)
  moreover have "es = (EvSearchVM node (VAppName cs) (IsZoneEnabledCluster (DiskManager cs)) (Inr vm) # qs @ [a]) @
      as @ [b]" by (simp add: es)
  ultimately show ?thesis using as that by blast
qed

lemma published_staged:
  assumes "published cs node name fs ctx es" and "staged c ctx q es'"
  shows "attached_and_found (x # es) es'"
proof -
  obtain vm d d' pre as post where es: "es = pre @ as @ post" and as: "attached vm d d' as"
      and uuid: "map_of ctx DiskUUIDAttribute = Some (dUUID d')"
    using published_parts [OF assms(1)] by metis
  obtain dev ps ms where "es' = ps @ ms" "prepared (dUUID d') dev ps"
    using assms(2)
  proof (cases rule: staged.cases)
    case (staged_block uuid' dev)
    then show ?thesis using that [of es' "[]" dev] uuid by simp
  next
    case (staged_fs fs' flags uuid' fs mode dev ps ms)
    then show ?thesis using that [of ps ms dev] uuid by simp
  qed
  moreover have "x # es = (x # pre) @ as @ post" by (simp add: es)
  ultimately show ?thesis using as unfolding attached_and_found_def by blast
qed

text \<open>
  C17: publish, then stage with the answer as publish context, in every pair of environments:
  when both succeed, the device that the node prepared identifies itself by the UUID of the
  disk that the controller attached, as it was read after the attach.
\<close>

theorem publish_then_stage:
  "sat (ControllerPublishVolume cs p) venv vh (only_succeeds (\<lambda>r es ctx.
     sat (NodeStageVolume (Some (q\<lparr>srPublishContext := Some ctx\<rparr>))) henv hh
       (only_succeeds (\<lambda>r' es' _. attached_and_found es es'))))"
proof (rule sat_mono [OF sat_ControllerPublishVolume], rule only_succeedsI, goal_cases)
  case (1 r es ctx)
  then obtain node name fs es' where es: "es = EvRefreshToken (Inr ()) # es'"
      and pub: "published cs node name fs ctx es'" by fastforce
  show ?case
    by (rule sat_mono [OF sat_NodeStageVolume], rule only_succeedsI)
      (auto simp: es intro: published_staged [OF pub])
qed

lemma volume_file_system:
  "stagedFsType (Some (volumeAttributes params isBlock d profile)) ctx =
     Inr (case map_of params FileSystemParameter of Some fs \<Rightarrow> fs | None \<Rightarrow> if isBlock then [] else ''ext4'')"
proof -
  have "map_of (volumeAttributes params isBlock d profile) EphemeralVolumeContext = None"
    by (simp add: volumeAttributes_def BusTypeParameter_def BusSubTypeParameter_def StorageProfileParameter_def
        DiskIDAttribute_def FileSystemParameter_def EphemeralVolumeContext_def)
  moreover have "map_of (volumeAttributes params isBlock d profile) FileSystemParameter =
      Some (case map_of params FileSystemParameter of Some fs \<Rightarrow> fs | None \<Rightarrow> if isBlock then [] else ''ext4'')"
    by (simp add: volumeAttributes_def BusTypeParameter_def BusSubTypeParameter_def StorageProfileParameter_def
        DiskIDAttribute_def FileSystemParameter_def)
  ultimately show ?thesis by (simp add: stagedFsType_def)
qed

text \<open>
  The file system of a volume is decided when it is created, and is the one that the node
  mounts it with: the parameter of the request when it has one, and otherwise ext4, or none for
  a block volume. The node reads it from the volume's context.
\<close>

theorem file_system_kept:
  "sat (CreateVolume cs (Some p)) env h (only_succeeds (\<lambda>r es vol. \<exists>isBlock.
     IsBlockVolume (crVolumeCapabilities p) = ok isBlock \<and>
     stagedFsType (Some (VolumeContext vol)) ctx = Inr (case map_of (crParameters p) FileSystemParameter of
       Some fs \<Rightarrow> fs | None \<Rightarrow> if isBlock then [] else ''ext4'')))"
proof (rule sat_mono [OF sat_CreateVolume], rule only_succeedsI, goal_cases)
  case (1 r es vol)
  obtain q isBlock shareable vdc es' where q: "Some p = Some q"
      and kind: "IsBlockVolume (crVolumeCapabilities q) = ok isBlock"
      and vol: "provisioned cs q isBlock shareable vdc env (h @ [EvRefreshToken (Inr ())]) vol es'"
    using 1(1) unfolding 1(2) outcome.case sum.case by blast
  from vol obtain d profile where ctx: "VolumeContext vol = volumeAttributes (crParameters q) isBlock d profile"
    unfolding provisioned_def volumeAttributes_def by auto
  from q have "p = q" by simp
  then show ?case
    unfolding ctx volume_file_system using kind by (intro exI [of _ isBlock]) simp
qed

section \<open>Advertised calls\<close>

text \<open>
  The controller advertises the listing of volumes, which it does not implement; what else it
  advertises is implemented, and the calls about snapshots and capacity are neither.
\<close>

lemma listing_advertised:
  "LIST_VOLUMES \<in> set (controllerServiceCapabilities (fst (NewDriver v n e))) \<and>
   ListVolumes = Inl (StatusError Unimplemented ''ListVolumes not implemented'' [])"
  by (simp add: NewDriver_def controllerServerCapabilitiesRPCList_def ListVolumes_def)

end
